(* ===== verification/Confd_Prelude.thy ===== *)
theory Confd_Prelude
  imports Main "HOL-Library.Word" "HOL-Library.Sublist"
begin

text \<open>
  What every component of the development shares: the machine types, the outcomes a C++ call
  can have, the state-and-exception operations the stateful code is translated into, C strings
  and \<open>strncmp\<close>, and the generic lemmas on lists and words.

  The target is the one machine of the distribution, a 32-bit little-endian ARM
  (\<open>conf/machine/stm32mp157a-dk1.conf\<close>): \<open>long\<close> and \<open>size_t\<close> have 32 bits and \<open>char\<close> is
  unsigned. A \<open>std::string\<close> is a HOL \<open>string\<close> (a list of bytes), a \<open>std::vector<std::byte>\<close> a
  list of 8-bit words, a \<open>double\<close> its 64-bit pattern.
\<close>

section \<open>Machine types\<close>

type_synonym byte = "8 word"
type_synonym u8 = "8 word"
type_synonym u16 = "16 word"
type_synonym u32 = "32 word"
type_synonym u64 = "64 word"
type_synonym f32 = "32 word"
type_synonym f64 = "64 word"

lemma unat_less_pow: "unat (w :: 'a::len word) < 2 ^ LENGTH('a)"
  by (rule unsigned_less)

lemma unat_byte_less [simp]: "unat (b :: byte) < 256"
  using unat_less_pow [of b] by simp

lemma unat_u16_less [simp]: "unat (w :: u16) < 65536"
  using unat_less_pow [of w] by simp

lemma unat_ucast_mod: "unat (ucast (w :: 'a::len word) :: 'b::len word) = unat w mod 2 ^ LENGTH('b)"
  by (simp add: unsigned_ucast_eq take_bit_eq_mod)

lemma word_eqI_unat: "unat v = unat w \<Longrightarrow> v = w"
  by (rule unsigned_word_eqI)

section \<open>Outcomes\<close>

text \<open>
  A C++ call returns a value or throws. The constructors are the exception classes the code
  throws or receives; their text is the fixed part of the message. Three more outcomes are not
  exceptions and no handler sees them: \<open>Undefined\<close> (a null pointer is followed, or a library
  function is called outside its documented precondition), \<open>Blocks\<close> (the call waits for an
  event that never comes) and \<open>Killed\<close> (a signal ends the process).
\<close>

datatype exn =
    RuntimeError string
  | InvalidArgument string
  | LogicError string
  | OutOfRange string
  | SystemError int string
  | SqliteError string
  | ConfdError int string
  | TomlParseError string
  | Undefined string
  | Blocks
  | Killed int

fun is_std_exception :: "exn \<Rightarrow> bool" where
  "is_std_exception (Undefined _) = False"
| "is_std_exception Blocks = False"
| "is_std_exception (Killed _) = False"
| "is_std_exception _ = True"

text \<open>\<open>SQLite::Exception\<close>, \<open>std::system_error\<close>, \<open>ConfdError\<close> and \<open>toml::parse_error\<close> derive
  from \<open>std::runtime_error\<close>; \<open>std::invalid_argument\<close> and \<open>std::out_of_range\<close> derive from
  \<open>std::logic_error\<close>.\<close>

fun is_runtime_error :: "exn \<Rightarrow> bool" where
  "is_runtime_error (RuntimeError _) = True"
| "is_runtime_error (SystemError _ _) = True"
| "is_runtime_error (SqliteError _) = True"
| "is_runtime_error (ConfdError _ _) = True"
| "is_runtime_error (TomlParseError _) = True"
| "is_runtime_error _ = False"

section \<open>Operations with state and exceptions\<close>

text \<open>
  An operation takes the state and returns its outcome and the state it leaves. The state
  survives a throw, as the objects of a C++ program do.
\<close>

type_synonym ('s, 'a) op = "'s \<Rightarrow> (exn + 'a) \<times> 's"

named_theorems op_simps \<open>unfolding the state-and-exception operations\<close>

definition ret :: "'a \<Rightarrow> ('s, 'a) op" where
  "ret x = (\<lambda>s. (Inr x, s))"

definition raise :: "exn \<Rightarrow> ('s, 'a) op" where
  "raise e = (\<lambda>s. (Inl e, s))"

definition bindE :: "('s, 'a) op \<Rightarrow> ('a \<Rightarrow> ('s, 'b) op) \<Rightarrow> ('s, 'b) op" where
  "bindE m k = (\<lambda>s. case m s of (Inl e, s') \<Rightarrow> (Inl e, s') | (Inr x, s') \<Rightarrow> k x s')"

definition lift :: "exn + 'a \<Rightarrow> ('s, 'a) op" where
  "lift r = (\<lambda>s. (r, s))"

definition bindS :: "exn + 'a \<Rightarrow> ('a \<Rightarrow> exn + 'b) \<Rightarrow> exn + 'b" where
  "bindS r k = (case r of Inl e \<Rightarrow> Inl e | Inr x \<Rightarrow> k x)"

lemma ret_app [simp]: "ret x s = (Inr x, s)"
  by (simp add: ret_def)

lemma raise_app [simp]: "raise e s = (Inl e, s)"
  by (simp add: raise_def)

lemma lift_app [simp]: "lift r s = (r, s)"
  by (simp add: lift_def)

lemma bindE_app: "bindE m k s = (case m s of (Inl e, s') \<Rightarrow> (Inl e, s') | (Inr x, s') \<Rightarrow> k x s')"
  by (simp add: bindE_def)

lemma bindE_ok [simp]: "m s = (Inr x, s') \<Longrightarrow> bindE m k s = k x s'"
  by (simp add: bindE_def)

lemma bindE_err [simp]: "m s = (Inl e, s') \<Longrightarrow> bindE m k s = (Inl e, s')"
  by (simp add: bindE_def)

lemma bindE_InrE:
  assumes "bindE m k s = (Inr y, t)"
  obtains x s' where "m s = (Inr x, s')" and "k x s' = (Inr y, t)"
  using assms by (auto simp: bindE_def split: prod.splits sum.splits)

lemma bindS_simps [simp]:
  "bindS (Inl e) k = Inl e"
  "bindS (Inr x) k = k x"
  by (simp_all add: bindS_def)

lemma bindS_Inr_conv: "bindS r k = Inr y \<longleftrightarrow> (\<exists>x. r = Inr x \<and> k x = Inr y)"
  by (cases r) auto

declare bindE_app [op_simps] bindS_def [op_simps]

subsection \<open>Properties of operations\<close>

text \<open>
  \<open>reads_only\<close>: the state is left alone; \<open>atomic_op\<close>: a throw leaves it alone; \<open>std_op\<close>: what is
  thrown is an exception a handler for \<open>std::exception\<close> receives.
\<close>

named_theorems op_intros \<open>closure of the properties of operations\<close>

definition reads_only :: "('s, 'a) op \<Rightarrow> bool" where
  "reads_only m \<longleftrightarrow> (\<forall>s r s'. m s = (r, s') \<longrightarrow> s' = s)"

definition atomic_op :: "('s, 'a) op \<Rightarrow> bool" where
  "atomic_op m \<longleftrightarrow> (\<forall>s e s'. m s = (Inl e, s') \<longrightarrow> s' = s)"

definition std_op :: "('s, 'a) op \<Rightarrow> bool" where
  "std_op m \<longleftrightarrow> (\<forall>s e s'. m s = (Inl e, s') \<longrightarrow> is_std_exception e)"

lemma reads_onlyD: "reads_only m \<Longrightarrow> m s = (r, s') \<Longrightarrow> s' = s"
  by (simp add: reads_only_def)

lemma atomic_opD: "atomic_op m \<Longrightarrow> m s = (Inl e, s') \<Longrightarrow> s' = s"
  by (simp add: atomic_op_def)

lemma std_opD: "std_op m \<Longrightarrow> m s = (Inl e, s') \<Longrightarrow> is_std_exception e"
  unfolding std_op_def by blast

lemma bindE_result:
  "bindE m k s = (r, t) \<longleftrightarrow>
     (\<exists>e. m s = (Inl e, t) \<and> r = Inl e) \<or> (\<exists>x s'. m s = (Inr x, s') \<and> k x s' = (r, t))"
  by (auto simp: bindE_def split: prod.splits sum.splits)

lemma reads_only_intros [op_intros]:
  "reads_only (ret x)" "reads_only (raise e)" "reads_only (lift r)"
  by (simp_all add: reads_only_def)

lemma reads_only_bindE [op_intros]:
  "reads_only m \<Longrightarrow> (\<And>x. reads_only (k x)) \<Longrightarrow> reads_only (bindE m k)"
  unfolding reads_only_def bindE_result by blast

lemma reads_only_if [op_intros]:
  "reads_only m \<Longrightarrow> reads_only m' \<Longrightarrow> reads_only (if b then m else m')"
  by simp

lemma reads_only_option [op_intros]:
  "reads_only m \<Longrightarrow> (\<And>x. reads_only (k x)) \<Longrightarrow> reads_only (case z of None \<Rightarrow> m | Some x \<Rightarrow> k x)"
  by (cases z) auto

lemma reads_only_prod [op_intros]:
  "(\<And>x y. reads_only (k x y)) \<Longrightarrow> reads_only (case z of (x, y) \<Rightarrow> k x y)"
  by (cases z) auto

lemma reads_only_atomic: "reads_only m \<Longrightarrow> atomic_op m"
  by (simp add: reads_only_def atomic_op_def)

lemma atomic_intros [op_intros]:
  "atomic_op (ret x)" "atomic_op (raise e)" "atomic_op (lift r)"
  by (simp_all add: atomic_op_def)

lemma atomic_bindE_read [op_intros]:
  "reads_only m \<Longrightarrow> (\<And>x. atomic_op (k x)) \<Longrightarrow> atomic_op (bindE m k)"
  unfolding reads_only_def atomic_op_def bindE_result by blast

lemma atomic_if [op_intros]:
  "atomic_op m \<Longrightarrow> atomic_op m' \<Longrightarrow> atomic_op (if b then m else m')"
  by simp

lemma atomic_option [op_intros]:
  "atomic_op m \<Longrightarrow> (\<And>x. atomic_op (k x)) \<Longrightarrow> atomic_op (case z of None \<Rightarrow> m | Some x \<Rightarrow> k x)"
  by (cases z) auto

lemma atomic_prod [op_intros]:
  "(\<And>x y. atomic_op (k x y)) \<Longrightarrow> atomic_op (case z of (x, y) \<Rightarrow> k x y)"
  by (cases z) auto

lemma std_intros [op_intros]:
  "std_op (ret x)" "is_std_exception e \<Longrightarrow> std_op (raise e)"
  "(\<And>e. r = Inl e \<Longrightarrow> is_std_exception e) \<Longrightarrow> std_op (lift r)"
  by (simp_all add: std_op_def)

lemma std_bindE [op_intros]:
  "std_op m \<Longrightarrow> (\<And>x. std_op (k x)) \<Longrightarrow> std_op (bindE m k)"
  unfolding std_op_def bindE_result by blast

lemma std_if [op_intros]: "std_op m \<Longrightarrow> std_op m' \<Longrightarrow> std_op (if b then m else m')"
  by simp

lemma std_option [op_intros]:
  "std_op m \<Longrightarrow> (\<And>x. std_op (k x)) \<Longrightarrow> std_op (case z of None \<Rightarrow> m | Some x \<Rightarrow> k x)"
  by (cases z) auto

lemma std_prod [op_intros]: "(\<And>x y. std_op (k x y)) \<Longrightarrow> std_op (case z of (x, y) \<Rightarrow> k x y)"
  by (cases z) auto

text \<open>\<open>grows R m\<close>: whatever the outcome, the state after is related to the state before.\<close>

definition grows :: "('s \<Rightarrow> 's \<Rightarrow> bool) \<Rightarrow> ('s, 'a) op \<Rightarrow> bool" where
  "grows R m \<longleftrightarrow> (\<forall>s r s'. m s = (r, s') \<longrightarrow> R s s')"

lemma growsD: "grows R m \<Longrightarrow> m s = (r, s') \<Longrightarrow> R s s'"
  unfolding grows_def by blast

lemma grows_reads_only: "reflp R \<Longrightarrow> reads_only m \<Longrightarrow> grows R m"
  by (auto simp: grows_def reads_only_def reflp_def)

lemma grows_bindE:
  "transp R \<Longrightarrow> grows R m \<Longrightarrow> (\<And>x. grows R (k x)) \<Longrightarrow> grows R (bindE m k)"
  unfolding grows_def bindE_result by (blast dest: transpD)

lemma grows_if: "grows R m \<Longrightarrow> grows R m' \<Longrightarrow> grows R (if b then m else m')"
  by simp

lemma grows_option:
  "grows R m \<Longrightarrow> (\<And>x. grows R (k x)) \<Longrightarrow> grows R (case z of None \<Rightarrow> m | Some x \<Rightarrow> k x)"
  by (cases z) auto

lemma grows_prod: "(\<And>x y. grows R (k x y)) \<Longrightarrow> grows R (case z of (x, y) \<Rightarrow> k x y)"
  by (cases z) auto

section \<open>C strings\<close>

definition NUL :: char where
  "NUL = CHR 0x00"

text \<open>What \<open>c_str()\<close> or \<open>data()\<close> means to a callee that reads up to the terminator.\<close>

definition c_str :: "string \<Rightarrow> string" where
  "c_str s = takeWhile (\<lambda>c. c \<noteq> NUL) s"

text \<open>Reading a C string out of memory: \<open>None\<close> when no terminator is found.\<close>

definition read_c_str :: "string \<Rightarrow> string option" where
  "read_c_str mem = (if NUL \<in> set mem then Some (c_str mem) else None)"

text \<open>\<open>strncmp(s, t, n) == 0\<close>; a position behind the end of a literal holds its terminator.\<close>

fun strncmp_eq :: "string \<Rightarrow> string \<Rightarrow> nat \<Rightarrow> bool" where
  "strncmp_eq s t 0 = True"
| "strncmp_eq s t (Suc n) =
     (let a = (case s of [] \<Rightarrow> NUL | c # _ \<Rightarrow> c);
          b = (case t of [] \<Rightarrow> NUL | c # _ \<Rightarrow> c)
      in a = b \<and> (a = NUL \<or> strncmp_eq (tl s) (tl t) n))"

lemma c_str_no_NUL [simp]: "NUL \<notin> set (c_str s)"
  by (auto simp: c_str_def dest: set_takeWhileD)

lemma c_str_id [simp]: "NUL \<notin> set s \<Longrightarrow> c_str s = s"
  by (auto simp: c_str_def takeWhile_eq_all_conv)

lemma c_str_c_str [simp]: "c_str (c_str s) = c_str s"
  by simp

lemma c_str_append_NUL: "NUL \<notin> set s \<Longrightarrow> c_str (s @ NUL # r) = s"
  by (induction s) (auto simp: c_str_def)

lemma read_c_str_terminated: "NUL \<notin> set s \<Longrightarrow> read_c_str (s @ NUL # r) = Some s"
  by (simp add: read_c_str_def c_str_append_NUL)

text \<open>
  The comparison the code makes with a literal, \<open>strncmp(s, lit, length of s)\<close>, does not test
  equality: it accepts every prefix of the literal, and every string that continues the literal
  behind a zero byte.
\<close>

lemma strncmp_eq_iff:
  "NUL \<notin> set t \<Longrightarrow>
   strncmp_eq s t (length s) \<longleftrightarrow> prefix s t \<or> prefix (t @ [NUL]) s"
proof (induction s arbitrary: t)
  case Nil
  then show ?case by simp
next
  case (Cons c s)
  then show ?case
    by (cases t) (auto simp: Let_def)
qed

lemma strncmp_eq_refl: "NUL \<notin> set t \<Longrightarrow> strncmp_eq t t (length t)"
  by (simp add: strncmp_eq_iff)

section \<open>Strings and bytes\<close>

definition bytes_of_string :: "string \<Rightarrow> byte list" where
  "bytes_of_string s = map of_char s"

definition string_of_bytes :: "byte list \<Rightarrow> string" where
  "string_of_bytes bs = map (\<lambda>b. char_of (unat b)) bs"

lemma unat_of_char: "unat (of_char c :: byte) = of_char c"
proof -
  have "(of_char c :: byte) = of_nat (of_char c)" by (simp only: of_nat_of_char)
  then show ?thesis by (simp add: unat_of_nat del: of_nat_of_char)
qed

lemma string_of_bytes_of_string [simp]: "string_of_bytes (bytes_of_string s) = s"
proof -
  have "char_of (unat (of_char c :: byte)) = c" for c
    by (simp add: unat_of_char)
  then show ?thesis by (simp add: string_of_bytes_def bytes_of_string_def comp_def)
qed

lemma bytes_of_string_of_bytes [simp]: "bytes_of_string (string_of_bytes bs) = bs"
proof -
  have "(of_char (char_of (unat b) :: char) :: byte) = b" for b :: byte
  proof -
    have "unat (of_char (char_of (unat b) :: char) :: byte) = unat b"
      by (simp only: unat_of_char of_char_of) simp
    then show ?thesis by (rule word_eqI_unat)
  qed
  then show ?thesis by (simp add: string_of_bytes_def bytes_of_string_def comp_def)
qed

lemma length_bytes_of_string [simp]: "length (bytes_of_string s) = length s"
  by (simp add: bytes_of_string_def)

lemma length_string_of_bytes [simp]: "length (string_of_bytes bs) = length bs"
  by (simp add: string_of_bytes_def)

section \<open>Decimal numbers\<close>

definition digit_char :: "nat \<Rightarrow> char" where
  "digit_char d = char_of (48 + d)"

definition is_digit :: "char \<Rightarrow> bool" where
  "is_digit c \<longleftrightarrow> 48 \<le> (of_char c :: nat) \<and> (of_char c :: nat) \<le> 57"

definition digit_val :: "char \<Rightarrow> nat" where
  "digit_val c = of_char c - 48"

fun show_nat :: "nat \<Rightarrow> string" where
  "show_nat n = (if n < 10 then [digit_char n] else show_nat (n div 10) @ [digit_char (n mod 10)])"

declare show_nat.simps [simp del]

definition read_digits :: "string \<Rightarrow> nat" where
  "read_digits s = foldl (\<lambda>a c. a * 10 + digit_val c) 0 s"

text \<open>The white space \<open>strtoul\<close> skips.\<close>

definition is_space :: "char \<Rightarrow> bool" where
  "is_space c \<longleftrightarrow> c = CHR '' '' \<or> 9 \<le> (of_char c :: nat) \<and> (of_char c :: nat) \<le> 13"

text \<open>\<open>std::stoul\<close> in base 10, with the 32-bit \<open>unsigned long\<close> of the target; a minus sign negates
  the result in that type.\<close>

definition c_stoul :: "string \<Rightarrow> exn + u32" where
  "c_stoul s =
     (let s1 = dropWhile is_space s;
          neg = (s1 \<noteq> [] \<and> hd s1 = CHR ''-'');
          s2 = (if s1 \<noteq> [] \<and> hd s1 \<in> {CHR ''-'', CHR ''+''} then tl s1 else s1);
          ds = takeWhile is_digit s2;
          n = read_digits ds
      in if ds = [] then Inl (InvalidArgument ''stoul'')
         else if 2 ^ 32 \<le> n then Inl (OutOfRange ''stoul'')
         else Inr (if neg then - of_nat n else of_nat n))"

lemma digit_char_props:
  assumes "d < 10"
  shows "is_digit (digit_char d)" and "digit_val (digit_char d) = d"
    and "digit_char d \<noteq> CHR ''-''" and "digit_char d \<noteq> CHR ''+''"
    and "\<not> is_space (digit_char d)" and "digit_char d \<noteq> NUL"
proof -
  have n: "of_char (digit_char d) = 48 + d"
    using assms by (simp add: digit_char_def)
  then show "is_digit (digit_char d)" and v: "digit_val (digit_char d) = d"
    using assms by (simp_all add: is_digit_def digit_val_def)
  show "digit_char d \<noteq> CHR ''-''" "digit_char d \<noteq> CHR ''+''" "digit_char d \<noteq> NUL"
    and "\<not> is_space (digit_char d)"
    using n by (auto simp: NUL_def is_space_def)
qed

lemma show_nat_digits: "c \<in> set (show_nat n) \<Longrightarrow> is_digit c"
proof (induction n rule: show_nat.induct)
  case (1 n)
  show ?case
  proof (cases "n < 10")
    case True
    with "1.prems" show ?thesis by (auto simp: show_nat.simps [of n] digit_char_props)
  next
    case False
    moreover have "n mod 10 < 10" by simp
    ultimately show ?thesis
      using 1 by (auto simp: show_nat.simps [of n] digit_char_props)
  qed
qed

lemma read_show_nat [simp]: "read_digits (show_nat n) = n"
proof (induction n rule: show_nat.induct)
  case (1 n)
  then show ?case
    by (subst show_nat.simps) (auto simp: read_digits_def digit_char_props)
qed

lemma show_nat_nonempty [simp]: "show_nat n \<noteq> []"
  by (subst show_nat.simps) simp

lemma not_digit: "is_digit c \<Longrightarrow> c \<noteq> CHR ''-'' \<and> c \<noteq> CHR ''+'' \<and> \<not> is_space c"
  by (auto simp: is_digit_def is_space_def)

lemma stoul_show_nat:
  assumes "n < 2 ^ 32"
  shows "c_stoul (show_nat n) = Inr (of_nat n)"
proof -
  have d: "\<forall>c \<in> set (show_nat n). is_digit c" by (simp add: show_nat_digits)
  then have h: "is_digit (hd (show_nat n))" by simp
  have dw: "dropWhile is_space (show_nat n) = show_nat n"
    using h not_digit by (cases "show_nat n") auto
  have tw: "takeWhile is_digit (show_nat n) = show_nat n"
    using d by (simp add: takeWhile_eq_all_conv)
  show ?thesis
    using h not_digit [of "hd (show_nat n)"] assms by (simp add: c_stoul_def Let_def dw tw)
qed

section \<open>Lists as tables\<close>

text \<open>What a lookup sees after the updates SQL statements make to the rows of a table.\<close>

named_theorems find_simps \<open>lookups after updates of a row list\<close>

lemma find_append [find_simps]:
  "List.find P (xs @ ys) = (case List.find P xs of None \<Rightarrow> List.find P ys | Some x \<Rightarrow> Some x)"
  by (induction xs) auto

lemma find_map_pres [find_simps]:
  "(\<And>x. P (f x) = P x) \<Longrightarrow> List.find P (map f xs) = map_option f (List.find P xs)"
  by (induction xs) auto

lemma find_filter [find_simps]:
  "List.find P (filter Q xs) = List.find (\<lambda>x. Q x \<and> P x) xs"
  by (induction xs) auto

lemma find_filter_neq:
  "List.find (\<lambda>v. f v = j) (filter (\<lambda>w. f w \<noteq> i) xs)
   = (if j = i then None else List.find (\<lambda>v. f v = j) xs)"
  by (induction xs) auto

lemma find_SomeD: "List.find P xs = Some x \<Longrightarrow> x \<in> set xs \<and> P x"
  by (induction xs) (auto split: if_splits)

lemma find_None_iff_all: "List.find P xs = None \<longleftrightarrow> (\<forall>x \<in> set xs. \<not> P x)"
  by (induction xs) auto

lemma find_unique:
  assumes "distinct (map f xs)" and "x \<in> set xs" and "f x = k"
  shows "List.find (\<lambda>y. f y = k) xs = Some x"
  using assms by (induction xs) (auto simp: rev_image_eqI)

lemma find_False [simp]: "List.find (\<lambda>_. False) xs = None"
  by (induction xs) auto

lemma prefix_iff_take: "prefix xs ys \<longleftrightarrow> length xs \<le> length ys \<and> xs = take (length xs) ys"
proof
  show "prefix xs ys \<Longrightarrow> length xs \<le> length ys \<and> xs = take (length xs) ys"
    by (auto simp: prefix_def)
  show "length xs \<le> length ys \<and> xs = take (length xs) ys \<Longrightarrow> prefix xs ys"
    by (metis take_is_prefix)
qed


section \<open>Loops over a container\<close>

text \<open>A range-based \<open>for\<close> whose body may throw: the rest of the elements is not visited then.\<close>

fun each :: "('a \<Rightarrow> ('s, unit) op) \<Rightarrow> 'a list \<Rightarrow> ('s, unit) op" where
  "each f [] = ret ()"
| "each f (x # xs) = bindE (f x) (\<lambda>_. each f xs)"

lemma each_append: "each f (xs @ ys) s = bindE (each f xs) (\<lambda>_. each f ys) s"
  by (induction xs arbitrary: s) (auto simp: op_simps split: prod.splits sum.splits)

text \<open>\<open>fails_in P m\<close>: what the operation throws satisfies \<open>P\<close>.\<close>

definition fails_in :: "(exn \<Rightarrow> bool) \<Rightarrow> ('s, 'a) op \<Rightarrow> bool" where
  "fails_in P m \<longleftrightarrow> (\<forall>s e s'. m s = (Inl e, s') \<longrightarrow> P e)"

lemma fails_inD: "fails_in P m \<Longrightarrow> m s = (Inl e, s') \<Longrightarrow> P e"
  unfolding fails_in_def by blast

lemma fails_in_intros [op_intros]:
  "fails_in P (ret x)" "P e \<Longrightarrow> fails_in P (raise e)"
  "(\<And>e. r = Inl e \<Longrightarrow> P e) \<Longrightarrow> fails_in P (lift r)"
  by (simp_all add: fails_in_def)

lemma fails_in_bindE [op_intros]:
  "fails_in P m \<Longrightarrow> (\<And>x. fails_in P (k x)) \<Longrightarrow> fails_in P (bindE m k)"
  unfolding fails_in_def bindE_result by blast

lemma fails_in_if [op_intros]:
  "(b \<Longrightarrow> fails_in P m) \<Longrightarrow> (\<not> b \<Longrightarrow> fails_in P m') \<Longrightarrow> fails_in P (if b then m else m')"
  by simp

lemma fails_in_option [op_intros]:
  "(z = None \<Longrightarrow> fails_in P m) \<Longrightarrow> (\<And>x. z = Some x \<Longrightarrow> fails_in P (k x))
   \<Longrightarrow> fails_in P (case z of None \<Rightarrow> m | Some x \<Rightarrow> k x)"
  by (cases z) auto

lemma fails_in_each [op_intros]:
  "(\<And>x. x \<in> set xs \<Longrightarrow> fails_in P (f x)) \<Longrightarrow> fails_in P (each f xs)"
  by (induction xs) (auto intro!: op_intros)

text \<open>\<open>keeps Q m\<close>: what holds before holds after an operation that returns.\<close>

named_theorems keeps_intros \<open>closure of keeping a property of the state\<close>

definition keeps :: "('s \<Rightarrow> bool) \<Rightarrow> ('s, 'a) op \<Rightarrow> bool" where
  "keeps Q m \<longleftrightarrow> (\<forall>s x s'. Q s \<longrightarrow> m s = (Inr x, s') \<longrightarrow> Q s')"

lemma keepsD: "keeps Q m \<Longrightarrow> Q s \<Longrightarrow> m s = (Inr x, s') \<Longrightarrow> Q s'"
  unfolding keeps_def by blast

lemma keepsI: "(\<And>s x s'. Q s \<Longrightarrow> m s = (Inr x, s') \<Longrightarrow> Q s') \<Longrightarrow> keeps Q m"
  unfolding keeps_def by blast

lemma keeps_unit: "keeps Q m \<longleftrightarrow> (\<forall>s s'. Q s \<longrightarrow> m s = (Inr (), s') \<longrightarrow> Q s')"
  by (simp add: keeps_def)

lemmas keeps_unitI = keeps_unit [THEN iffD2, rule_format]

lemma keeps_basic [keeps_intros]: "keeps Q (ret x)" "keeps Q (raise e)" "keeps Q (lift r)"
  by (simp_all add: keeps_def)

lemma keeps_bindE [keeps_intros]: "keeps Q m \<Longrightarrow> (\<And>x. keeps Q (k x)) \<Longrightarrow> keeps Q (bindE m k)"
  unfolding keeps_def by (blast elim: bindE_InrE)

lemma keeps_if [keeps_intros]: "keeps Q m \<Longrightarrow> keeps Q m' \<Longrightarrow> keeps Q (if b then m else m')"
  by simp

lemma keeps_each [keeps_intros]: "(\<And>x. keeps Q (f x)) \<Longrightarrow> keeps Q (each f xs)"
  by (induction xs) (auto intro: keeps_intros)

text \<open>\<open>untouched f m\<close>: the part \<open>f\<close> of the state is as before, however the operation ends.\<close>

named_theorems untouched_intros \<open>closure of leaving a part of the state alone\<close>

definition untouched :: "('s \<Rightarrow> 'p) \<Rightarrow> ('s, 'a) op \<Rightarrow> bool" where
  "untouched f m \<longleftrightarrow> (\<forall>s r s'. m s = (r, s') \<longrightarrow> f s' = f s)"

lemma untouchedI: "(\<And>s r s'. m s = (r, s') \<Longrightarrow> f s' = f s) \<Longrightarrow> untouched f m"
  unfolding untouched_def by blast

lemma untouchedD: "untouched f m \<Longrightarrow> m s = (r, s') \<Longrightarrow> f s' = f s"
  unfolding untouched_def by blast

lemma untouched_basic [untouched_intros]:
  "untouched f (ret x)" "untouched f (raise e)" "untouched f (lift r)"
  by (simp_all add: untouched_def)

lemma untouched_bindE [untouched_intros]:
  "untouched f m \<Longrightarrow> (\<And>x. untouched f (k x)) \<Longrightarrow> untouched f (bindE m k)"
  unfolding untouched_def bindE_result by metis

lemma untouched_if [untouched_intros]:
  "untouched f m \<Longrightarrow> untouched f m' \<Longrightarrow> untouched f (if b then m else m')"
  by simp

lemma untouched_option [untouched_intros]:
  "untouched f m \<Longrightarrow> (\<And>x. untouched f (k x)) \<Longrightarrow> untouched f (case z of None \<Rightarrow> m | Some x \<Rightarrow> k x)"
  by (cases z) auto

lemma untouched_prod [untouched_intros]:
  "(\<And>x y. untouched f (k x y)) \<Longrightarrow> untouched f (case z of (x, y) \<Rightarrow> k x y)"
  by (cases z) auto

text \<open>A state that is prepared before an operation, and read where it is used.\<close>

lemma untouched_pre:
  "(\<And>s. untouched f (m s)) \<Longrightarrow> (\<And>s. f (g s) = f s) \<Longrightarrow> untouched f (\<lambda>s. m s (g s))"
  unfolding untouched_def by metis

end
