(* ===== verification/Rpc_Types.thy ===== *)
theory Rpc_Types
  imports Confd_Prelude
begin

text \<open>
  The wire format of the RPC protocol: \<open>include/rpc/types.h\<close> of confd, and the same layout in
  \<open>load-common/Rpc/Types.h\<close> of pl-common. A message is an eight-byte packed header in native
  (little-endian) byte order, followed by the payload; the code reads and writes the header by
  casting a byte buffer, which is \<open>parse_header\<close> and \<open>header_bytes\<close> here.
\<close>

section \<open>Little-endian halfwords\<close>

definition le16_bytes :: "u16 \<Rightarrow> byte list" where
  "le16_bytes w = [ucast w, ucast (drop_bit 8 w)]"

definition le16_word :: "byte \<Rightarrow> byte \<Rightarrow> u16" where
  "le16_word lo hi = ucast lo + push_bit 8 (ucast hi)"

lemma unat_le16_word: "unat (le16_word lo hi) = unat lo + 256 * unat hi"
proof -
  have b: "unat lo < 256" "unat hi < 256" by simp_all
  then have "unat hi * 256 < 65536" "unat lo + 256 * unat hi < 65536" by linarith+
  with b show ?thesis
    by (simp add: le16_word_def unat_word_ariths unat_ucast_mod push_bit_eq_mult mult.commute)
qed

lemma unat_byte_lo: "unat (ucast (w :: u16) :: byte) = unat w mod 256"
  by (simp add: unat_ucast_mod)

lemma unat_byte_hi: "unat (ucast (drop_bit 8 (w :: u16)) :: byte) = unat w div 256"
proof -
  have "unat (drop_bit 8 w) = unat w div 256"
    by (simp add: unat_drop_bit_eq drop_bit_eq_div [where 'a = nat])
  moreover have "unat w div 256 < 256" using unat_u16_less [of w] by linarith
  ultimately show ?thesis
    by (simp only: unat_ucast_mod) simp
qed

lemma le16_word_bytes [simp]: "le16_word (ucast w) (ucast (drop_bit 8 w)) = w"
  by (rule word_eqI_unat) (simp only: unat_le16_word unat_byte_lo [of w] unat_byte_hi mod_mult_div_eq)

section \<open>The header\<close>

definition kRpcVersionLatest :: u16 where
  "kRpcVersionLatest = 0x0100"

record rpc_header =
  hdr_version :: u16
  hdr_length :: u16
  hdr_endpoint :: u8
  hdr_tag :: u8
  hdr_flags :: u8
  hdr_reserved :: u8

text \<open>\<open>sizeof(struct rpc_header)\<close>, which is also \<open>offsetof(struct rpc_header, payload)\<close>.\<close>

definition sizeof_rpc_header :: nat where
  "sizeof_rpc_header = 8"

definition header_bytes :: "rpc_header \<Rightarrow> byte list" where
  "header_bytes h =
     le16_bytes (hdr_version h) @ le16_bytes (hdr_length h)
     @ [hdr_endpoint h, hdr_tag h, hdr_flags h, hdr_reserved h]"

text \<open>The cast of a buffer to \<open>rpc_header *\<close>: defined when the buffer holds a whole header.\<close>

fun parse_header :: "byte list \<Rightarrow> rpc_header option" where
  "parse_header (v0 # v1 # l0 # l1 # ep # tg # fl # rs # _) =
     Some \<lparr>hdr_version = le16_word v0 v1, hdr_length = le16_word l0 l1,
           hdr_endpoint = ep, hdr_tag = tg, hdr_flags = fl, hdr_reserved = rs\<rparr>"
| "parse_header _ = None"

text \<open>Message endpoints (\<open>enum rpc_endpoint\<close>).\<close>

definition kConfigQuery :: u8 where
  "kConfigQuery = 0x01"

definition kConfigUpdate :: u8 where
  "kConfigUpdate = 0x02"

lemmas rpc_constants = kRpcVersionLatest_def sizeof_rpc_header_def kConfigQuery_def
  kConfigUpdate_def

lemma length_header_bytes [simp]: "length (header_bytes h) = sizeof_rpc_header"
  by (simp add: header_bytes_def le16_bytes_def sizeof_rpc_header_def)

lemma parse_header_bytes [simp]: "parse_header (header_bytes h @ rest) = Some h"
  by (simp add: header_bytes_def le16_bytes_def)

lemma parse_header_bytes_exact [simp]: "parse_header (header_bytes h) = Some h"
  using parse_header_bytes [of h "[]"] by simp

lemma parse_header_Some_iff:
  "(\<exists>h. parse_header bs = Some h) \<longleftrightarrow> sizeof_rpc_header \<le> length bs"
  by (cases bs rule: parse_header.cases) (auto simp: sizeof_rpc_header_def)

lemma parse_header_short: "length bs < sizeof_rpc_header \<Longrightarrow> parse_header bs = None"
  using parse_header_Some_iff [of bs] by (cases "parse_header bs") auto

lemma parse_header_append:
  "parse_header bs = Some h \<Longrightarrow> parse_header (bs @ rest) = Some h"
  by (cases bs rule: parse_header.cases) auto

section \<open>The 16-bit length field\<close>

text \<open>
  \<open>hdr->length = msgSize\<close> stores a \<open>size_t\<close> into 16 bits: it is exact up to 65535 bytes and wraps
  above.
\<close>

definition u16_of_size :: "nat \<Rightarrow> u16" where
  "u16_of_size n = of_nat n"

lemma unat_u16_of_size: "unat (u16_of_size n) = n mod 65536"
  by (simp add: u16_of_size_def unat_of_nat)

lemma unat_u16_of_size_exact: "n < 65536 \<Longrightarrow> unat (u16_of_size n) = n"
  by (simp add: unat_u16_of_size)

lemma unat_u16_of_size_eq_iff: "unat (u16_of_size n) = n \<longleftrightarrow> n < 65536"
  using mod_less_divisor [of 65536 n] by (auto simp: unat_u16_of_size)

end
