(* ===== verification/Cbor.thy ===== *)
theory Cbor
  imports Confd_Prelude
begin

text \<open>
  The CBOR data model as libcbor presents it to the code: items, the accessors with their
  documented preconditions, and the interface \<open>cbor_codec\<close> to the parser and the serializer,
  which are not part of the repository. \<open>Utils/Cbor.h\<close> of pl-common (\<open>CborReadUint\<close>,
  \<open>CborMapGet\<close>) is modelled at the end.
\<close>

section \<open>Items\<close>

datatype cbor_int = CInt8 u8 | CInt16 u16 | CInt32 u32 | CInt64 u64

text \<open>
  A definite string has a handle, which is null when none has been set; an indefinite string or
  byte string is a list of chunks. \<open>CCtrl\<close> holds a simple value: 20 and 21 are the booleans, 22 is
  null. \<open>CHalf\<close> carries the single-precision value libcbor reports for a half.
\<close>

datatype cbor_item =
    CUint cbor_int
  | CNegint cbor_int
  | CBytes "byte list"
  | CBytesIndef "byte list list"
  | CString "string option"
  | CStringIndef "string list"
  | CArray "cbor_item list"
  | CMap "(cbor_item \<times> cbor_item) list"
  | CTag u64 cbor_item
  | CCtrl u8
  | CHalf f32
  | CSingle f32
  | CDouble f64

fun cbor_isa_uint :: "cbor_item \<Rightarrow> bool" where
  "cbor_isa_uint (CUint _) = True"
| "cbor_isa_uint _ = False"

fun cbor_isa_string :: "cbor_item \<Rightarrow> bool" where
  "cbor_isa_string (CString _) = True"
| "cbor_isa_string (CStringIndef _) = True"
| "cbor_isa_string _ = False"

fun cbor_string_is_definite :: "cbor_item \<Rightarrow> bool" where
  "cbor_string_is_definite (CString _) = True"
| "cbor_string_is_definite _ = False"

fun cbor_isa_bytestring :: "cbor_item \<Rightarrow> bool" where
  "cbor_isa_bytestring (CBytes _) = True"
| "cbor_isa_bytestring (CBytesIndef _) = True"
| "cbor_isa_bytestring _ = False"

fun cbor_isa_map :: "cbor_item \<Rightarrow> bool" where
  "cbor_isa_map (CMap _) = True"
| "cbor_isa_map _ = False"

fun cbor_isa_float_ctrl :: "cbor_item \<Rightarrow> bool" where
  "cbor_isa_float_ctrl (CCtrl _) = True"
| "cbor_isa_float_ctrl (CHalf _) = True"
| "cbor_isa_float_ctrl (CSingle _) = True"
| "cbor_isa_float_ctrl (CDouble _) = True"
| "cbor_isa_float_ctrl _ = False"

fun cbor_float_ctrl_is_ctrl :: "cbor_item \<Rightarrow> bool" where
  "cbor_float_ctrl_is_ctrl (CCtrl _) = True"
| "cbor_float_ctrl_is_ctrl _ = False"

fun cbor_is_bool :: "cbor_item \<Rightarrow> bool" where
  "cbor_is_bool (CCtrl v) = (v = 20 \<or> v = 21)"
| "cbor_is_bool _ = False"

fun cbor_is_null :: "cbor_item \<Rightarrow> bool" where
  "cbor_is_null (CCtrl v) = (v = 22)"
| "cbor_is_null _ = False"

definition cbor_build_bool :: "bool \<Rightarrow> cbor_item" where
  "cbor_build_bool b = CCtrl (if b then 21 else 20)"

definition cbor_new_null :: cbor_item where
  "cbor_new_null = CCtrl 22"

text \<open>\<open>cbor_build_string\<close> takes a C string.\<close>

definition cbor_build_string :: "string \<Rightarrow> cbor_item" where
  "cbor_build_string s = CString (Some (c_str s))"

definition cbor_build_uint64 :: "u64 \<Rightarrow> cbor_item" where
  "cbor_build_uint64 v = CUint (CInt64 v)"

text \<open>The string accessors are documented for definite items only.\<close>

fun cbor_string_handle :: "cbor_item \<Rightarrow> exn + string option" where
  "cbor_string_handle (CString h) = Inr h"
| "cbor_string_handle _ = Inl (Undefined ''cbor_string_handle'')"

text \<open>The four typed getters, chosen by the item's width, widened to \<open>uint64_t\<close>.\<close>

fun cbor_int_value :: "cbor_int \<Rightarrow> u64" where
  "cbor_int_value (CInt8 v) = ucast v"
| "cbor_int_value (CInt16 v) = ucast v"
| "cbor_int_value (CInt32 v) = ucast v"
| "cbor_int_value (CInt64 v) = v"

section \<open>Definite maps under construction\<close>

text \<open>
  \<open>cbor_new_definite_map(n)\<close> reserves room for \<open>n\<close> pairs; \<open>cbor_map_add\<close> on a full definite map
  fails and leaves it unchanged. The code ignores the result.
\<close>

record map_builder =
  mb_room :: nat
  mb_pairs :: "(cbor_item \<times> cbor_item) list"

definition cbor_new_definite_map :: "nat \<Rightarrow> map_builder" where
  "cbor_new_definite_map n = \<lparr>mb_room = n, mb_pairs = []\<rparr>"

definition cbor_map_add :: "map_builder \<Rightarrow> cbor_item \<Rightarrow> cbor_item \<Rightarrow> map_builder" where
  "cbor_map_add m k v =
     (if length (mb_pairs m) < mb_room m then m\<lparr>mb_pairs := mb_pairs m @ [(k, v)]\<rparr> else m)"

definition cbor_map_item :: "map_builder \<Rightarrow> cbor_item" where
  "cbor_map_item m = CMap (mb_pairs m)"

section \<open>The interface to libcbor\<close>

text \<open>
  What the code gets from outside: \<open>cbor_load\<close> (\<open>None\<close>: an error code is reported),
  \<open>cbor_serialize_alloc\<close>, the boolean \<open>cbor_get_bool\<close> returns for a simple value that is no
  boolean (its documentation requires one), and the conversions between \<open>float\<close> and \<open>double\<close>.
\<close>

record cbor_lib =
  cbor_load :: "byte list \<Rightarrow> cbor_item option"
  cbor_serialize :: "cbor_item \<Rightarrow> byte list"
  ctrl_as_bool :: "u8 \<Rightarrow> bool"
  float_widen :: "f32 \<Rightarrow> f64"
  float_narrow :: "f64 \<Rightarrow> f32"

fun cbor_get_bool :: "cbor_lib \<Rightarrow> cbor_item \<Rightarrow> exn + bool" where
  "cbor_get_bool lib (CCtrl v) =
     Inr (if v = 21 then True else if v = 20 then False else ctrl_as_bool lib v)"
| "cbor_get_bool lib _ = Inl (Undefined ''cbor_get_bool'')"

text \<open>\<open>cbor_float_get_float\<close>: the value of a float of any width as a \<open>double\<close>.\<close>

fun cbor_float_get_float :: "cbor_lib \<Rightarrow> cbor_item \<Rightarrow> exn + f64" where
  "cbor_float_get_float lib (CHalf x) = Inr (float_widen lib x)"
| "cbor_float_get_float lib (CSingle x) = Inr (float_widen lib x)"
| "cbor_float_get_float lib (CDouble x) = Inr x"
| "cbor_float_get_float lib _ = Inl (Undefined ''cbor_float_get_float'')"

text \<open>
  The messages whose encoding the round-trip law covers: definite strings, byte strings and
  maps, unsigned and negative integers, the four simple values and floats that are not NaN (an
  encoder may replace a NaN by the canonical one).
\<close>

definition f32_is_nan :: "f32 \<Rightarrow> bool" where
  "f32_is_nan x \<longleftrightarrow> unat x mod 2 ^ 31 > 0x7F800000"

definition f64_is_nan :: "f64 \<Rightarrow> bool" where
  "f64_is_nan x \<longleftrightarrow> unat x mod 2 ^ 63 > 0x7FF0000000000000"

function (sequential) encodable :: "cbor_item \<Rightarrow> bool"
  and encodable_pairs :: "(cbor_item \<times> cbor_item) list \<Rightarrow> bool" where
  "encodable (CUint _) = True"
| "encodable (CNegint _) = True"
| "encodable (CBytes bs) = (length bs < 2 ^ 32)"
| "encodable (CString (Some s)) = (length s < 2 ^ 32)"
| "encodable (CMap ps) = (length ps < 2 ^ 32 \<and> encodable_pairs ps)"
| "encodable (CCtrl v) = (v \<in> {20, 21, 22, 23})"
| "encodable (CSingle x) = (\<not> f32_is_nan x)"
| "encodable (CDouble x) = (\<not> f64_is_nan x)"
| "encodable _ = False"
| "encodable_pairs [] = True"
| "encodable_pairs ((k, v) # ps) = (encodable k \<and> encodable v \<and> encodable_pairs ps)"
  by pat_completeness auto
termination
  by (relation "measure (case_sum size (size_list (size_prod size size)))") auto

text \<open>
  The documented behaviour the RPC code relies on: an item that was serialized is loaded back
  unchanged, whatever follows it in the buffer, and an empty buffer holds no item.
\<close>

locale cbor_codec =
  fixes lib :: cbor_lib
  assumes load_serialize:
      "encodable x \<Longrightarrow> cbor_load lib (cbor_serialize lib x @ rest) = Some x"
    and load_empty: "cbor_load lib [] = None"
begin

lemma load_serialize_exact: "encodable x \<Longrightarrow> cbor_load lib (cbor_serialize lib x) = Some x"
  using load_serialize [of x "[]"] by simp

lemma serialize_nonempty: "encodable x \<Longrightarrow> cbor_serialize lib x \<noteq> []"
  using load_serialize_exact [of x] load_empty by auto

lemma serialize_inj:
  "encodable x \<Longrightarrow> encodable y \<Longrightarrow> cbor_serialize lib x = cbor_serialize lib y \<Longrightarrow> x = y"
  by (metis load_serialize_exact option.inject)

end

section \<open>The helpers of pl-common\<close>

definition CborReadUint :: "cbor_item \<Rightarrow> exn + u64" where
  "CborReadUint item =
     (case item of
        CUint i \<Rightarrow> Inr (cbor_int_value i)
      | _ \<Rightarrow> Inl (RuntimeError ''invalid type (expected uint)''))"

text \<open>
  \<open>CborMapGet\<close> compares whole keys, as \<open>std::string_view\<close> does; it calls \<open>cbor_string_handle\<close> on
  every key it passes without testing that the key is a string.
\<close>

fun CborMapGet_loop :: "(cbor_item \<times> cbor_item) list \<Rightarrow> string \<Rightarrow> exn + cbor_item option" where
  "CborMapGet_loop [] inKey = Inr None"
| "CborMapGet_loop ((k, v) # ps) inKey =
     bindS (cbor_string_handle k)
       (\<lambda>h. if (case h of None \<Rightarrow> '''' | Some s \<Rightarrow> s) = inKey then Inr (Some v)
             else CborMapGet_loop ps inKey)"

fun CborMapGet :: "cbor_item \<Rightarrow> string \<Rightarrow> exn + cbor_item option" where
  "CborMapGet (CMap ps) inKey = CborMapGet_loop ps inKey"
| "CborMapGet _ inKey = Inl (Undefined ''cbor_map_handle'')"

definition cbor_key :: "string \<Rightarrow> cbor_item" where
  "cbor_key s = CString (Some s)"

lemma CborMapGet_map_of:
  "CborMapGet (CMap (map (\<lambda>(k, v). (cbor_key k, v)) ps)) key = Inr (map_of ps key)"
  by (induction ps) (auto simp: cbor_key_def)

end
