(* ===== verification/Cbor_Codec.thy ===== *)
theory Cbor_Codec
  imports Cbor
begin

text \<open>
  A reference instance of the libcbor interface: the encoding of RFC 8949 for the items
  \<open>encodable\<close> admits, with a parser that returns the item and the bytes behind it. It shows that
  the laws of \<open>cbor_codec\<close> hold of the documented encoding, and it is the codec the witnesses of
  the development run on. It models no file of the repository.
\<close>

section \<open>Big-endian numbers\<close>

fun be_bytes :: "nat \<Rightarrow> nat \<Rightarrow> byte list" where
  "be_bytes 0 n = []"
| "be_bytes (Suc k) n = be_bytes k (n div 256) @ [of_nat (n mod 256)]"

definition be_nat :: "byte list \<Rightarrow> nat" where
  "be_nat bs = foldl (\<lambda>a b. a * 256 + unat b) 0 bs"

lemma length_be_bytes [simp]: "length (be_bytes k n) = k"
  by (induction k arbitrary: n) auto

lemma be_nat_be_bytes: "n < 256 ^ k \<Longrightarrow> be_nat (be_bytes k n) = n"
proof (induction k arbitrary: n)
  case 0
  then show ?case by (simp add: be_nat_def)
next
  case (Suc k)
  then have "n div 256 < 256 ^ k"
    by (simp add: less_mult_imp_div_less mult.commute)
  then have "be_nat (be_bytes k (n div 256)) = n div 256" by (rule Suc.IH)
  then show ?case
    by (simp add: be_nat_def unat_of_nat)
qed

section \<open>Heads\<close>

definition head_byte :: "nat \<Rightarrow> nat \<Rightarrow> byte" where
  "head_byte major info = of_nat (32 * major + info)"

text \<open>The shortest head for an argument, as used for the lengths of strings and maps.\<close>

definition enc_head :: "nat \<Rightarrow> nat \<Rightarrow> byte list" where
  "enc_head major n =
     (if n < 24 then [head_byte major n]
      else if n < 256 then head_byte major 24 # be_bytes 1 n
      else if n < 65536 then head_byte major 25 # be_bytes 2 n
      else if n < 2 ^ 32 then head_byte major 26 # be_bytes 4 n
      else head_byte major 27 # be_bytes 8 n)"

text \<open>Integers keep the width of the item.\<close>

fun enc_int :: "nat \<Rightarrow> cbor_int \<Rightarrow> byte list" where
  "enc_int major (CInt8 v) =
     (if unat v < 24 then [head_byte major (unat v)]
      else head_byte major 24 # be_bytes 1 (unat v))"
| "enc_int major (CInt16 v) = head_byte major 25 # be_bytes 2 (unat v)"
| "enc_int major (CInt32 v) = head_byte major 26 # be_bytes 4 (unat v)"
| "enc_int major (CInt64 v) = head_byte major 27 # be_bytes 8 (unat v)"

definition take_be :: "nat \<Rightarrow> byte list \<Rightarrow> (nat \<times> byte list) option" where
  "take_be k bs = (if length bs < k then None else Some (be_nat (take k bs), drop k bs))"

text \<open>The argument of a head: its width in bytes (0 when it is in the head), value and rest.\<close>

definition dec_arg :: "nat \<Rightarrow> byte list \<Rightarrow> (nat \<times> nat \<times> byte list) option" where
  "dec_arg info bs =
     (if info < 24 then Some (0, info, bs)
      else if info = 24 then map_option (Pair 1) (take_be 1 bs)
      else if info = 25 then map_option (Pair 2) (take_be 2 bs)
      else if info = 26 then map_option (Pair 4) (take_be 4 bs)
      else if info = 27 then map_option (Pair 8) (take_be 8 bs)
      else None)"

definition dec_int :: "nat \<Rightarrow> nat \<Rightarrow> cbor_int" where
  "dec_int w n =
     (if w \<le> 1 then CInt8 (of_nat n) else if w = 2 then CInt16 (of_nat n)
      else if w = 4 then CInt32 (of_nat n) else CInt64 (of_nat n))"

section \<open>Items\<close>

function (sequential) enc :: "cbor_item \<Rightarrow> byte list"
  and enc_pairs :: "(cbor_item \<times> cbor_item) list \<Rightarrow> byte list" where
  "enc (CUint i) = enc_int 0 i"
| "enc (CNegint i) = enc_int 1 i"
| "enc (CBytes bs) = enc_head 2 (length bs) @ bs"
| "enc (CString (Some s)) = enc_head 3 (length s) @ bytes_of_string s"
| "enc (CMap ps) = enc_head 5 (length ps) @ enc_pairs ps"
| "enc (CCtrl v) = [head_byte 7 (unat v)]"
| "enc (CSingle x) = head_byte 7 26 # be_bytes 4 (unat x)"
| "enc (CDouble x) = head_byte 7 27 # be_bytes 8 (unat x)"
| "enc _ = []"
| "enc_pairs [] = []"
| "enc_pairs ((k, v) # ps) = enc k @ enc v @ enc_pairs ps"
  by pat_completeness auto
termination
  by (relation "measure (case_sum size (size_list (size_prod size size)))") auto

fun dec :: "nat \<Rightarrow> byte list \<Rightarrow> (cbor_item \<times> byte list) option"
  and dec_pairs :: "nat \<Rightarrow> nat \<Rightarrow> byte list \<Rightarrow> ((cbor_item \<times> cbor_item) list \<times> byte list) option"
where
  "dec 0 _ = None"
| "dec (Suc f) [] = None"
| "dec (Suc f) (b # bs) =
     (let major = unat b div 32; info = unat b mod 32 in
      case dec_arg info bs of None \<Rightarrow> None
      | Some (w, n, rest) \<Rightarrow>
          if major = 0 then Some (CUint (dec_int w n), rest)
          else if major = 1 then Some (CNegint (dec_int w n), rest)
          else if major = 2 then
            (if n \<le> length rest then Some (CBytes (take n rest), drop n rest) else None)
          else if major = 3 then
            (if n \<le> length rest
             then Some (CString (Some (string_of_bytes (take n rest))), drop n rest) else None)
          else if major = 5 then
            (case dec_pairs f n rest of None \<Rightarrow> None | Some (ps, r) \<Rightarrow> Some (CMap ps, r))
          else if major = 7 then
            (if w = 0 \<and> 20 \<le> n then Some (CCtrl (of_nat n), rest)
             else if w = 4 then Some (CSingle (of_nat n), rest)
             else if w = 8 then Some (CDouble (of_nat n), rest)
             else None)
          else None)"
| "dec_pairs 0 _ _ = None"
| "dec_pairs (Suc f) n bs =
     (if n = 0 then Some ([], bs)
      else case dec f bs of None \<Rightarrow> None
      | Some (k, r1) \<Rightarrow>
          (case dec f r1 of None \<Rightarrow> None
           | Some (v, r2) \<Rightarrow>
               (case dec_pairs f (n - 1) r2 of None \<Rightarrow> None
                | Some (ps, r3) \<Rightarrow> Some ((k, v) # ps, r3))))"

text \<open>One unit of fuel per nesting level or pair: the length of the input is enough.\<close>

definition ref_load :: "byte list \<Rightarrow> cbor_item option" where
  "ref_load bs = map_option fst (dec (Suc (length bs)) bs)"

section \<open>Round trip\<close>

lemma unat_head_byte:
  "major < 8 \<Longrightarrow> info < 32 \<Longrightarrow> unat (head_byte major info) = 32 * major + info"
  by (simp add: head_byte_def unat_of_nat del: of_nat_add of_nat_mult)

lemma head_byte_split [simp]:
  assumes "major < 8" and "info < 32"
  shows "unat (head_byte major info) div 32 = major" and "unat (head_byte major info) mod 32 = info"
  using assms by (simp_all add: unat_head_byte)

lemma take_be_be_bytes [simp]:
  "n < 256 ^ k \<Longrightarrow> take_be k (be_bytes k n @ rest) = Some (n, rest)"
  by (simp add: take_be_def be_nat_be_bytes)

lemma take_be_one [simp]: "take_be (Suc 0) (b # rest) = Some (unat b, rest)"
  by (simp add: take_be_def be_nat_def)

lemma enc_head_decodes:
  assumes "n < 2 ^ 32" and "major < 8"
  obtains b bs w where "enc_head major n = b # bs" and "unat b div 32 = major"
    and "\<And>rest. dec_arg (unat b mod 32) (bs @ rest) = Some (w, n, rest)"
proof -
  have "\<exists>b bs w. enc_head major n = b # bs \<and> unat b div 32 = major
      \<and> (\<forall>rest. dec_arg (unat b mod 32) (bs @ rest) = Some (w, n, rest))"
    using assms by (auto simp: enc_head_def dec_arg_def unat_of_nat)
  with that show thesis by blast
qed

lemma unat_pow:
  "unat (v :: u8) < 256 ^ 1" "unat (v2 :: u16) < 256 ^ 2"
  "unat (v4 :: 32 word) < 256 ^ 4" "unat (v8 :: 64 word) < 256 ^ 8"
  using unat_less_pow [of v] unat_less_pow [of v2] unat_less_pow [of v4] unat_less_pow [of v8]
  by simp_all

lemma enc_int_decodes:
  assumes "major < 8"
  obtains b bs w where "enc_int major i = b # bs" and "unat b div 32 = major"
    and "\<And>rest. \<exists>n. dec_arg (unat b mod 32) (bs @ rest) = Some (w, n, rest) \<and> dec_int w n = i"
proof -
  have "\<exists>b bs w. enc_int major i = b # bs \<and> unat b div 32 = major
      \<and> (\<forall>rest. \<exists>n. dec_arg (unat b mod 32) (bs @ rest) = Some (w, n, rest) \<and> dec_int w n = i)"
    using assms unat_pow
    by (cases i) (auto simp: dec_arg_def dec_int_def)
  with that show thesis by blast
qed

lemma enc_head_nonempty [simp]: "enc_head major n \<noteq> []"
  by (simp add: enc_head_def)

lemma enc_int_nonempty [simp]: "enc_int major i \<noteq> []"
  by (cases i) auto

lemma enc_nonempty: "encodable x \<Longrightarrow> enc x \<noteq> []"
  by (cases x rule: encodable.cases) auto

lemma head_decodes_with:
  assumes "b # bs = enc_head major n" and "n < 2 ^ 32" and "major < 8"
  shows "\<exists>w. dec_arg (unat b mod 32) (bs @ rest) = Some (w, n, rest) \<and> unat b div 32 = major"
  using enc_head_decodes [OF assms(2,3)] assms(1) by (metis list.inject)

lemma dec_int_item:
  assumes "major < 2"
  shows "dec (Suc f) (enc_int major i @ rest)
         = Some (if major = 0 then CUint i else CNegint i, rest)"
proof -
  from assms have "major < 8" by simp
  then obtain b bs w where e: "enc_int major i = b # bs" and m: "unat b div 32 = major"
    and d: "\<And>rest. \<exists>n. dec_arg (unat b mod 32) (bs @ rest) = Some (w, n, rest) \<and> dec_int w n = i"
    by (rule enc_int_decodes) blast
  from d [of rest] obtain n where "dec_arg (unat b mod 32) (bs @ rest) = Some (w, n, rest)"
    and "dec_int w n = i" by blast
  with e m assms show ?thesis by auto
qed

lemma dec_head_item:
  assumes "n < 2 ^ 32" and "major < 8"
  shows "\<exists>b bs w. enc_head major n = b # bs \<and> unat b div 32 = major
    \<and> (\<forall>rest. dec_arg (unat b mod 32) (bs @ rest) = Some (w, n, rest))"
  using enc_head_decodes [OF assms] by metis

lemma dec_enc_map:
  assumes "length ps < 2 ^ 32" and "dec_pairs f (length ps) (enc_pairs ps @ rest) = Some (ps, rest)"
  shows "dec (Suc f) (enc (CMap ps) @ rest) = Some (CMap ps, rest)"
  using dec_head_item [OF assms(1), of 5] assms(2) by (auto simp: append_assoc)

lemma dec_enc:
  shows "encodable x \<Longrightarrow> length (enc x) < f \<Longrightarrow> dec f (enc x @ rest) = Some (x, rest)"
    and "encodable_pairs ps \<Longrightarrow> length (enc_pairs ps) < f \<Longrightarrow>
         dec_pairs f (length ps) (enc_pairs ps @ rest) = Some (ps, rest)"
proof (induction x and ps arbitrary: f rest and f rest rule: encodable_encodable_pairs.induct)
  case (1 i)
  then show ?case using dec_int_item [of 0 "f - 1" i rest] by (cases f) auto
next
  case (2 i)
  then show ?case using dec_int_item [of 1 "f - 1" i rest] by (cases f) auto
next
  case (3 bs)
  then show ?case using dec_head_item [of "length bs" 2] by (cases f) auto
next
  case (4 s)
  then show ?case using dec_head_item [of "length s" 3] by (cases f) auto
next
  case (5 ps)
  then obtain f' where f: "f = Suc f'" by (cases f) auto
  have "length (enc_head 5 (length ps)) \<ge> 1" by (simp add: Suc_leI)
  with "5.prems" f have "length (enc_pairs ps) < f'" by auto
  with "5.prems" have "dec_pairs f' (length ps) (enc_pairs ps @ rest) = Some (ps, rest)"
    by (intro "5.IH") auto
  with "5.prems" f show ?case by (simp add: dec_enc_map del: enc.simps)
next
  case (6 v)
  then show ?case by (cases f) (auto simp: dec_arg_def)
next
  case (7 x)
  then show ?case using unat_pow(3) [of x] by (cases f) (auto simp: dec_arg_def)
next
  case (8 x)
  then show ?case using unat_pow(4) [of x] by (cases f) (auto simp: dec_arg_def)
next
  case 10
  then show ?case by (cases f) auto
next
  case (11 k v ps)
  then obtain f' where f: "f = Suc f'" by (cases f) auto
  from "11.prems" have "enc k \<noteq> []" "enc v \<noteq> []" by (simp_all add: enc_nonempty)
  then have "0 < length (enc k)" "0 < length (enc v)" by simp_all
  moreover from "11.prems" f
  have "length (enc k) + length (enc v) + length (enc_pairs ps) < Suc f'" by simp
  ultimately have l: "length (enc k) < f'" "length (enc v) < f'" "length (enc_pairs ps) < f'"
    by linarith+
  with "11.prems" "11.IH" f show ?case by simp
qed auto

text \<open>The codec, with arbitrary answers where libcbor documents none.\<close>

definition ref_lib :: "(u8 \<Rightarrow> bool) \<Rightarrow> (f32 \<Rightarrow> f64) \<Rightarrow> (f64 \<Rightarrow> f32) \<Rightarrow> cbor_lib" where
  "ref_lib cb wi na =
     \<lparr>cbor_load = ref_load, cbor_serialize = enc, ctrl_as_bool = cb,
      float_widen = wi, float_narrow = na\<rparr>"

lemma ref_lib_simps [simp]:
  "cbor_load (ref_lib cb wi na) = ref_load"
  "cbor_serialize (ref_lib cb wi na) = enc"
  "ctrl_as_bool (ref_lib cb wi na) = cb"
  by (simp_all add: ref_lib_def)

interpretation ref_codec: cbor_codec "ref_lib cb wi na" for cb wi na
  by unfold_locales (simp_all add: ref_load_def dec_enc)

end
