(* ===== verification/Confd_Types.thy ===== *)
theory Confd_Types
  imports Confd_Prelude
begin

text \<open>
  The value type shared by the daemon (\<open>src/daemon/Types.h\<close>) and the contract between the RPC
  server and the data store behind it, \<open>config_store\<close>: what a read returns, what a write changes,
  and that a write that throws has changed nothing.
\<close>

section \<open>Property values\<close>

datatype PropertyValue =
    PVMonostate
  | PVNull
  | PVString string
  | PVBlob "byte list"
  | PVInteger u64
  | PVReal f64
  | PVBool bool

section \<open>The contract of the data store\<close>

text \<open>
  \<open>view\<close> is the abstract content, a map from key names to values; \<open>coerce\<close> says what becomes of
  a value that is stored (a boolean becomes an integer). \<open>room\<close> holds as long as fewer than
  \<open>2 ^ 32\<close> identifiers have been handed out: the store reads them into 32-bit variables.
\<close>

locale config_store =
  fixes store_get :: "string \<Rightarrow> ('s, PropertyValue) op"
    and store_put :: "string \<Rightarrow> PropertyValue \<Rightarrow> ('s, unit) op"
    and view :: "'s \<Rightarrow> string \<Rightarrow> PropertyValue option"
    and coerce :: "PropertyValue \<Rightarrow> PropertyValue"
    and invar :: "'s \<Rightarrow> bool"
    and room :: "'s \<Rightarrow> bool"
  assumes get_state: "snd (store_get n s) = s"
    and get_value: "invar s \<Longrightarrow> fst (store_get n s) = Inr v \<Longrightarrow>
          v = (case view s (c_str n) of None \<Rightarrow> PVMonostate | Some x \<Rightarrow> x)"
    and get_error: "invar s \<Longrightarrow> fst (store_get n s) = Inl e \<Longrightarrow> is_std_exception e"
    and put_atomic: "fst (store_put n v s) = Inl e \<Longrightarrow> snd (store_put n v s) = s"
    and put_error: "fst (store_put n v s) = Inl e \<Longrightarrow> is_std_exception e"
    and put_room: "room (snd (store_put n v s)) \<Longrightarrow> room s"
    and put_invar: "invar s \<Longrightarrow> room (snd (store_put n v s)) \<Longrightarrow> invar (snd (store_put n v s))"
    and put_view: "invar s \<Longrightarrow> store_put n v s = (Inr (), s') \<Longrightarrow>
          view s' = (view s)(c_str n \<mapsto> coerce v)"
begin

text \<open>A successful write is read back, coerced, and no other key is touched.\<close>

lemma get_after_put:
  assumes "invar s" and "store_put n v s = (Inr (), s')" and "room s'"
    and "fst (store_get m s') = Inr x"
  shows "x = (if c_str m = c_str n then coerce v
              else case view s (c_str m) of None \<Rightarrow> PVMonostate | Some y \<Rightarrow> y)"
proof -
  from assms(1-3) have "invar s'" using put_invar [of s n v] by simp
  then have "x = (case view s' (c_str m) of None \<Rightarrow> PVMonostate | Some y \<Rightarrow> y)"
    using assms(4) by (rule get_value)
  then show ?thesis using put_view [OF assms(1,2)] by simp
qed

text \<open>Whatever the outcome of a write, the content changes at most at the written key.\<close>

lemma put_frame:
  assumes "invar s" and "m \<noteq> c_str n"
  shows "view (snd (store_put n v s)) m = view s m"
proof (cases "store_put n v s")
  case (Pair r s')
  then show ?thesis
    using put_atomic [of n v s] put_view [of s n v s'] assms by (cases r) auto
qed

end

end
