(* ===== verification/DataStore.thy ===== *)
theory DataStore
  imports Confd_Types
begin

text \<open>
  The configuration data store: \<open>src/daemon/DataStore.cpp\<close>, \<open>DataStore.h\<close> and \<open>Types.h\<close> of confd.

  The class is a thin wrapper around an SQLite database, and most of what it does is written in
  SQL. Both languages are translated here: the tables of the schema are row lists in the record
  \<open>db\<close>, every SQL statement of the source is one operation on that record (with its unique
  indexes, its foreign key and its cascade), and the C++ around the statements is translated
  operation by operation. The engine below the statements is not in the repository; what the
  code can see of it is the parameter \<open>sql_env\<close>: which statements fail, what time it is, and what
  a REAL column gives back for a bound double.
\<close>

section \<open>Value types\<close>

text \<open>\<open>enum class PropertyValueType: uint32_t\<close>; a cast from any \<open>uint32_t\<close> is allowed.\<close>

type_synonym PropertyValueType = u32

definition vtNull :: PropertyValueType where "vtNull = 0"

definition vtString :: PropertyValueType where "vtString = 1"

definition vtBlob :: PropertyValueType where "vtBlob = 2"

definition vtInteger :: PropertyValueType where "vtInteger = 3"

definition vtReal :: PropertyValueType where "vtReal = 4"

lemmas value_type_defs = vtNull_def vtString_def vtBlob_def vtInteger_def vtReal_def

definition ValueTableName :: "PropertyValueType \<Rightarrow> string" where
  "ValueTableName t =
     (if t = vtString then ''PropertyValuesString''
      else if t = vtBlob then ''PropertyValuesBlob''
      else if t = vtInteger then ''PropertyValuesInteger''
      else if t = vtReal then ''PropertyValuesReal''
      else '''')"

fun TypeForValue :: "PropertyValue \<Rightarrow> PropertyValueType" where
  "TypeForValue PVNull = vtNull"
| "TypeForValue (PVString _) = vtString"
| "TypeForValue (PVBlob _) = vtBlob"
| "TypeForValue (PVInteger _) = vtInteger"
| "TypeForValue (PVReal _) = vtReal"
| "TypeForValue (PVBool _) = vtInteger"
| "TypeForValue PVMonostate = vtNull"

section \<open>The tables of the schema\<close>

datatype sqlval = SqlInt u64 | SqlReal f64 | SqlText string | SqlBlob "byte list" | SqlNull

record meta_row =
  mr_id :: nat
  mr_key :: string
  mr_value :: string

record key_row =
  kr_id :: nat
  kr_key :: string
  kr_type :: u32
  kr_createdAt :: nat
  kr_updatedAt :: nat

record val_row =
  vr_id :: nat
  vr_propertyId :: nat
  vr_value :: sqlval

text \<open>
  A database: the tables that exist, their rows, and per table the highest identifier that
  \<open>AUTOINCREMENT\<close> has handed out (the \<open>sqlite_sequence\<close> table).
\<close>

record db =
  db_tables :: "string list"
  db_meta :: "meta_row list"
  db_keys :: "key_row list"
  db_vals :: "string \<Rightarrow> val_row list"
  db_seq :: "string \<Rightarrow> nat"

definition empty_db :: db where
  "empty_db = \<lparr>db_tables = [], db_meta = [], db_keys = [], db_vals = (\<lambda>_. []), db_seq = (\<lambda>_. 0)\<rparr>"

definition kMetaTableName :: string where "kMetaTableName = ''MetaInfo''"

definition kPropertyKeys :: string where "kPropertyKeys = ''PropertyKeys''"

definition value_tables :: "string list" where
  "value_tables = [''PropertyValuesString'', ''PropertyValuesBlob'', ''PropertyValuesInteger'',
                   ''PropertyValuesReal'']"

lemmas table_names = kMetaTableName_def kPropertyKeys_def value_tables_def

text \<open>Identifiers are 64-bit signed integers: the largest that \<open>AUTOINCREMENT\<close> hands out.\<close>

definition max_rowid :: nat where "max_rowid = 2 ^ 63 - 1"

section \<open>The engine\<close>

datatype sql_stmt =
    SqlPragma
  | SqlBegin
  | SqlCommit
  | SqlCreate string
  | SqlSelect string
  | SqlInsert string
  | SqlUpdate string
  | SqlDelete string

text \<open>
  \<open>se_fault\<close> decides which statements fail in which state (a full disk, a lock, a damaged
  file); \<open>se_text\<close>, \<open>se_int\<close> and \<open>se_double\<close> convert a column read as another type than the one it
  holds.
\<close>

record sql_env =
  se_fault :: "sql_stmt \<Rightarrow> db \<Rightarrow> bool"
  se_now :: nat
  se_real :: "f64 \<Rightarrow> f64"
  se_text :: "sqlval \<Rightarrow> string"
  se_int :: "sqlval \<Rightarrow> u64"
  se_double :: "sqlval \<Rightarrow> f64"

text \<open>A statement that fails leaves the database as it was.\<close>

definition run_stmt :: "sql_env \<Rightarrow> sql_stmt \<Rightarrow> (db, 'a) op \<Rightarrow> (db, 'a) op" where
  "run_stmt env st body =
     (\<lambda>d. if se_fault env st d then (Inl (SqliteError ''statement failed''), d)
           else (case body d of (Inl e, _) \<Rightarrow> (Inl e, d) | (Inr x, d') \<Rightarrow> (Inr x, d')))"

text \<open>Preparing a statement: its table must be named and must exist.\<close>

definition on_table :: "string \<Rightarrow> (db, 'a) op \<Rightarrow> (db, 'a) op" where
  "on_table t body =
     (\<lambda>d. if t = '''' then (Inl (SqliteError ''syntax error''), d)
           else if t \<notin> set (db_tables d) then (Inl (SqliteError ''no such table''), d)
           else body d)"

definition sql :: "sql_env \<Rightarrow> (string \<Rightarrow> sql_stmt) \<Rightarrow> string \<Rightarrow> (db, 'a) op \<Rightarrow> (db, 'a) op" where
  "sql env k t body = run_stmt env (k t) (on_table t body)"

text \<open>
  \<open>SQLite::Transaction\<close>: the constructor begins the transaction, \<open>commit\<close> ends it, and the
  destructor rolls back when the commit was not reached or failed. The rollback is taken to succeed;
  one that fails is swallowed by the destructor and leaves the transaction open, which is not
  modelled.
\<close>

definition transaction :: "sql_env \<Rightarrow> (db, 'a) op \<Rightarrow> (db, 'a) op" where
  "transaction env body =
     (\<lambda>d. if se_fault env SqlBegin d then (Inl (SqliteError ''begin''), d)
           else (case body d of
                   (Inl e, _) \<Rightarrow> (Inl e, d)
                 | (Inr x, d') \<Rightarrow>
                     if se_fault env SqlCommit d' then (Inl (SqliteError ''commit''), d)
                     else (Inr x, d')))"

text \<open>Reading a column through SQLiteCpp's conversions.\<close>

fun column_text :: "sql_env \<Rightarrow> sqlval \<Rightarrow> string" where
  "column_text env (SqlText s) = s"
| "column_text env (SqlBlob b) = string_of_bytes b"
| "column_text env v = se_text env v"

fun column_int64 :: "sql_env \<Rightarrow> sqlval \<Rightarrow> u64" where
  "column_int64 env (SqlInt v) = v"
| "column_int64 env v = se_int env v"

fun column_double :: "sql_env \<Rightarrow> sqlval \<Rightarrow> f64" where
  "column_double env (SqlReal x) = x"
| "column_double env v = se_double env v"

text \<open>
  \<open>stmt.bind(name, ...)\<close> with a name that is no parameter of the statement throws. The code
  binds parameters of its statements everywhere but in \<open>hasChildren\<close>.
\<close>

definition sql_bind :: "string list \<Rightarrow> string \<Rightarrow> exn + unit" where
  "sql_bind params name =
     (if name \<in> set params then Inr () else Inl (SqliteError ''column index out of range''))"

section \<open>The statements of the source\<close>

text \<open>\<open>SELECT id, valueType FROM PropertyKeys WHERE key = :keyName\<close>\<close>

definition select_key_info :: "sql_env \<Rightarrow> string \<Rightarrow> (db, (nat \<times> u32) option) op" where
  "select_key_info env keyName =
     sql env SqlSelect kPropertyKeys
       (\<lambda>d. (Inr (map_option (\<lambda>r. (kr_id r, kr_type r))
                     (List.find (\<lambda>r. kr_key r = keyName) (db_keys d))), d))"

text \<open>\<open>SELECT id, propertyId, value FROM {} WHERE propertyId = :keyId\<close>\<close>

definition select_value :: "sql_env \<Rightarrow> string \<Rightarrow> nat \<Rightarrow> (db, sqlval option) op" where
  "select_value env tableName keyId =
     sql env SqlSelect tableName
       (\<lambda>d. (Inr (map_option vr_value
                     (List.find (\<lambda>v. vr_propertyId v = keyId) (db_vals d tableName))), d))"

text \<open>
  \<open>INSERT INTO PropertyKeys (key, valueType) VALUES (:key, :type)\<close>: the unique index on \<open>key\<close>, the
  next identifier, and the default time stamps. The result is the number of rows and the
  identifier \<open>getLastInsertRowid\<close> reports.
\<close>

definition insert_key_row :: "sql_env \<Rightarrow> string \<Rightarrow> u32 \<Rightarrow> (db, nat \<times> nat) op" where
  "insert_key_row env key type =
     sql env SqlInsert kPropertyKeys
       (\<lambda>d. if \<exists>r \<in> set (db_keys d). kr_key r = key
             then (Inl (SqliteError ''UNIQUE constraint failed: PropertyKeys.key''), d)
             else if max_rowid \<le> db_seq d kPropertyKeys
             then (Inl (SqliteError ''database or disk is full''), d)
             else let i = Suc (db_seq d kPropertyKeys) in
               (Inr (1, i),
                d\<lparr>db_keys := db_keys d @ [\<lparr>kr_id = i, kr_key = key, kr_type = type,
                                           kr_createdAt = se_now env, kr_updatedAt = se_now env\<rparr>],
                  db_seq := (db_seq d)(kPropertyKeys := i)\<rparr>))"

text \<open>
  \<open>INSERT INTO {} (propertyId, value) VALUES (:keyId, :value)\<close>, with the unique index on
  \<open>propertyId\<close> and the foreign key into \<open>PropertyKeys\<close>.
\<close>

definition insert_value_row :: "sql_env \<Rightarrow> string \<Rightarrow> nat \<Rightarrow> sqlval \<Rightarrow> (db, nat) op" where
  "insert_value_row env tableName keyId value =
     sql env SqlInsert tableName
       (\<lambda>d. if \<exists>v \<in> set (db_vals d tableName). vr_propertyId v = keyId
             then (Inl (SqliteError ''UNIQUE constraint failed: propertyId''), d)
             else if \<not> (\<exists>r \<in> set (db_keys d). kr_id r = keyId)
             then (Inl (SqliteError ''FOREIGN KEY constraint failed''), d)
             else if max_rowid \<le> db_seq d tableName
             then (Inl (SqliteError ''database or disk is full''), d)
             else let i = Suc (db_seq d tableName) in
               (Inr 1,
                d\<lparr>db_vals := (db_vals d)(tableName := db_vals d tableName
                       @ [\<lparr>vr_id = i, vr_propertyId = keyId, vr_value = value\<rparr>]),
                  db_seq := (db_seq d)(tableName := i)\<rparr>))"

text \<open>
  \<open>INSERT INTO {} (propertyId, value) VALUES (:keyId, :value) ON CONFLICT(propertyId) DO UPDATE
  SET value=:value\<close>
\<close>

definition upsert_value_row :: "sql_env \<Rightarrow> string \<Rightarrow> nat \<Rightarrow> sqlval \<Rightarrow> (db, nat) op" where
  "upsert_value_row env tableName keyId value =
     sql env SqlInsert tableName
       (\<lambda>d. if \<exists>v \<in> set (db_vals d tableName). vr_propertyId v = keyId
             then (Inr 1,
                   d\<lparr>db_vals := (db_vals d)(tableName :=
                       map (\<lambda>v. if vr_propertyId v = keyId then v\<lparr>vr_value := value\<rparr> else v)
                         (db_vals d tableName))\<rparr>)
             else if \<not> (\<exists>r \<in> set (db_keys d). kr_id r = keyId)
             then (Inl (SqliteError ''FOREIGN KEY constraint failed''), d)
             else if max_rowid \<le> db_seq d tableName
             then (Inl (SqliteError ''database or disk is full''), d)
             else let i = Suc (db_seq d tableName) in
               (Inr 1,
                d\<lparr>db_vals := (db_vals d)(tableName := db_vals d tableName
                       @ [\<lparr>vr_id = i, vr_propertyId = keyId, vr_value = value\<rparr>]),
                  db_seq := (db_seq d)(tableName := i)\<rparr>))"

text \<open>\<open>UPDATE PropertyKeys SET valueType = :newValueType WHERE id = :keyId\<close>; the result is the
  number of rows.\<close>

definition update_key_type :: "sql_env \<Rightarrow> nat \<Rightarrow> u32 \<Rightarrow> (db, nat) op" where
  "update_key_type env keyId newValueType =
     sql env SqlUpdate kPropertyKeys
       (\<lambda>d. (Inr (length (filter (\<lambda>r. kr_id r = keyId) (db_keys d))),
             d\<lparr>db_keys := map (\<lambda>r. if kr_id r = keyId then r\<lparr>kr_type := newValueType\<rparr> else r)
                            (db_keys d)\<rparr>))"

text \<open>\<open>DELETE FROM {} WHERE propertyId = :keyId\<close>\<close>

definition delete_value_row :: "sql_env \<Rightarrow> string \<Rightarrow> nat \<Rightarrow> (db, nat) op" where
  "delete_value_row env tableName keyId =
     sql env SqlDelete tableName
       (\<lambda>d. (Inr (length (filter (\<lambda>v. vr_propertyId v = keyId) (db_vals d tableName))),
             d\<lparr>db_vals := (db_vals d)(tableName :=
                 filter (\<lambda>v. vr_propertyId v \<noteq> keyId) (db_vals d tableName))\<rparr>))"

text \<open>\<open>UPDATE PropertyKeys SET updatedAt = strftime('%s','now') WHERE id = :keyId\<close>\<close>

definition touch_key :: "sql_env \<Rightarrow> nat \<Rightarrow> (db, nat) op" where
  "touch_key env keyId =
     sql env SqlUpdate kPropertyKeys
       (\<lambda>d. (Inr (length (filter (\<lambda>r. kr_id r = keyId) (db_keys d))),
             d\<lparr>db_keys := map (\<lambda>r. if kr_id r = keyId then r\<lparr>kr_updatedAt := se_now env\<rparr> else r)
                            (db_keys d)\<rparr>))"

text \<open>
  \<open>DELETE FROM PropertyKeys WHERE ...\<close>: the rows of the four value tables that refer to a deleted
  key go with it (\<open>ON DELETE CASCADE\<close>); the result counts the key rows.
\<close>

definition delete_key_rows :: "sql_env \<Rightarrow> (string \<Rightarrow> bool) \<Rightarrow> (db, nat) op" where
  "delete_key_rows env P =
     sql env SqlDelete kPropertyKeys
       (\<lambda>d. let gone = map kr_id (filter (\<lambda>r. P (kr_key r)) (db_keys d)) in
            (Inr (length gone),
             d\<lparr>db_keys := filter (\<lambda>r. \<not> P (kr_key r)) (db_keys d),
               db_vals := (\<lambda>t. if t \<in> set value_tables
                               then filter (\<lambda>v. vr_propertyId v \<notin> set gone) (db_vals d t)
                               else db_vals d t)\<rparr>))"

text \<open>\<open>SELECT id, key, value FROM MetaInfo WHERE key = :keyName\<close>\<close>

definition select_meta :: "sql_env \<Rightarrow> string \<Rightarrow> (db, string option) op" where
  "select_meta env keyName =
     sql env SqlSelect kMetaTableName
       (\<lambda>d. (Inr (map_option mr_value (List.find (\<lambda>r. mr_key r = keyName) (db_meta d))), d))"

text \<open>\<open>INSERT INTO MetaInfo(key, value) VALUES (:key, :value)\<close>; the column is text.\<close>

definition insert_meta :: "sql_env \<Rightarrow> string \<Rightarrow> string \<Rightarrow> (db, nat) op" where
  "insert_meta env key value =
     sql env SqlInsert kMetaTableName
       (\<lambda>d. if \<exists>r \<in> set (db_meta d). mr_key r = key
             then (Inl (SqliteError ''UNIQUE constraint failed: MetaInfo.key''), d)
             else let i = Suc (db_seq d kMetaTableName) in
               (Inr 1, d\<lparr>db_meta := db_meta d @ [\<lparr>mr_id = i, mr_key = key, mr_value = value\<rparr>],
                         db_seq := (db_seq d)(kMetaTableName := i)\<rparr>))"

text \<open>\<open>CREATE TABLE t\<close> with its indexes.\<close>

definition create_table :: "sql_env \<Rightarrow> string \<Rightarrow> (db, unit) op" where
  "create_table env t =
     run_stmt env (SqlCreate t)
       (\<lambda>d. if t \<in> set (db_tables d) then (Inl (SqliteError ''table already exists''), d)
             else (Inr (), d\<lparr>db_tables := db_tables d @ [t]\<rparr>))"

text \<open>
  SQL's \<open>LIKE\<close>: a percent sign matches any sequence, an underscore one character (SQLite reads
  the bytes as UTF-8), and the letters of ASCII match in either case.
\<close>

definition ascii_lower :: "char \<Rightarrow> char" where
  "ascii_lower c =
     (if 65 \<le> (of_char c :: nat) \<and> (of_char c :: nat) \<le> 90 then char_of (of_char c + (32::nat)) else c)"

definition utf8_cont :: "char \<Rightarrow> bool" where
  "utf8_cont c \<longleftrightarrow> 128 \<le> (of_char c :: nat) \<and> (of_char c :: nat) < 192"

definition utf8_skip :: "string \<Rightarrow> string" where
  "utf8_skip s =
     (case s of [] \<Rightarrow> []
      | c # cs \<Rightarrow> if 192 \<le> (of_char c :: nat) then dropWhile utf8_cont cs else cs)"

lemma length_utf8_skip: "length (utf8_skip (c # s)) \<le> length s"
  by (simp add: utf8_skip_def length_dropWhile_le)

function sql_like :: "string \<Rightarrow> string \<Rightarrow> bool" where
  "sql_like [] s = (s = [])"
| "sql_like (p # ps) s =
     (if p = CHR ''%'' then
        sql_like ps s \<or> (case s of [] \<Rightarrow> False | _ # cs \<Rightarrow> sql_like (p # ps) cs)
      else if p = CHR ''_'' then (case s of [] \<Rightarrow> False | _ # _ \<Rightarrow> sql_like ps (utf8_skip s))
      else (case s of [] \<Rightarrow> False
            | c # cs \<Rightarrow> ascii_lower p = ascii_lower c \<and> sql_like ps cs))"
  by pat_completeness auto
termination
  by (relation "measure (\<lambda>(p, s). length p + length s)")
    (auto intro!: le_imp_less_Suc le_SucI length_utf8_skip)

declare sql_like.simps [simp del]

section \<open>The operations of the class\<close>

text \<open>\<open>BindValue\<close>: booleans are bound as integers. SQLite stores a blob of no bytes that is passed by a
  null pointer as null; a column that holds it reads as the same empty blob.\<close>

fun BindValue :: "sql_env \<Rightarrow> PropertyValue \<Rightarrow> exn + sqlval" where
  "BindValue env (PVString s) = Inr (SqlText s)"
| "BindValue env (PVBlob b) = Inr (SqlBlob b)"
| "BindValue env (PVInteger v) = Inr (SqlInt v)"
| "BindValue env (PVReal x) = Inr (SqlReal (se_real env x))"
| "BindValue env (PVBool b) = Inr (SqlInt (if b then 1 else 0))"
| "BindValue env _ = Inl (LogicError ''invalid type for set'')"

text \<open>
  \<open>getKey\<close>. The key is bound as a C string; the identifier and the type are read into
  \<open>uint32_t\<close> variables.
\<close>

definition read_value :: "sql_env \<Rightarrow> PropertyValueType \<Rightarrow> sqlval \<Rightarrow> exn + PropertyValue" where
  "read_value env valueType x =
     (if valueType = vtString then Inr (PVString (column_text env x))
      else if valueType = vtBlob then Inr (PVBlob (bytes_of_string (column_text env x)))
      else if valueType = vtInteger then Inr (PVInteger (column_int64 env x))
      else if valueType = vtReal then Inr (PVReal (column_double env x))
      else Inl (LogicError ''unsupported value type''))"

definition getKey :: "sql_env \<Rightarrow> string \<Rightarrow> (db, PropertyValue) op" where
  "getKey env name =
     bindE (select_key_info env (c_str name)) (\<lambda>info.
       case info of None \<Rightarrow> ret PVMonostate
       | Some (rowid, valueType) \<Rightarrow>
           let keyId = (of_nat rowid :: u32); tableName = ValueTableName valueType in
           if valueType = vtNull then ret PVNull
           else if tableName = '''' then raise (LogicError ''unknown value table for type'')
           else bindE (select_value env tableName (unat keyId)) (\<lambda>v.
                  case v of None \<Rightarrow> raise (LogicError ''property has no value!'')
                  | Some x \<Rightarrow> lift (read_value env valueType x)))"

definition insertKey :: "sql_env \<Rightarrow> string \<Rightarrow> PropertyValue \<Rightarrow> (db, unit) op" where
  "insertKey env keyName value =
     (if keyName = '''' then raise (InvalidArgument ''invalid name'')
      else if value = PVMonostate then raise (InvalidArgument ''invalid value'')
      else transaction env
        (bindE (insert_key_row env (c_str keyName) (TypeForValue value)) (\<lambda>(err, keyId).
           if err = 0 then raise (RuntimeError ''failed to insert property key info'')
           else if TypeForValue value \<noteq> vtNull then
             bindE (lift (BindValue env value)) (\<lambda>x.
               bindE (insert_value_row env (ValueTableName (TypeForValue value)) keyId x) (\<lambda>err.
                 if err = 0 then raise (RuntimeError ''failed to insert property key value'')
                 else ret ()))
           else ret ())))"

definition updateKeyTimestamp :: "sql_env \<Rightarrow> u32 \<Rightarrow> (db, unit) op" where
  "updateKeyTimestamp env keyId =
     bindE (touch_key env (unat keyId)) (\<lambda>err.
       if err = 0 then raise (RuntimeError ''failed to update property key timestamp'')
       else ret ())"

text \<open>The first half of \<open>updateKey\<close>: a change of type updates the key's row and deletes the old
  value.\<close>

definition update_type_step :: "sql_env \<Rightarrow> u32 \<Rightarrow> PropertyValueType \<Rightarrow> PropertyValueType
    \<Rightarrow> (db, unit) op" where
  "update_type_step env keyId oldValueType newValueType =
     (if oldValueType \<noteq> newValueType then
        bindE (update_key_type env (unat keyId) newValueType) (\<lambda>n.
          if n = 0 then raise (RuntimeError ''failed to update property key type'')
          else bindE (delete_value_row env (ValueTableName oldValueType) (unat keyId)) (\<lambda>_. ret ()))
      else ret ())"

text \<open>The second half: insert or update the value row.\<close>

definition update_value_step :: "sql_env \<Rightarrow> u32 \<Rightarrow> PropertyValue \<Rightarrow> (db, unit) op" where
  "update_value_step env keyId newValue =
     (if TypeForValue newValue \<noteq> vtNull then
        bindE (lift (BindValue env newValue)) (\<lambda>x.
          bindE (upsert_value_row env (ValueTableName (TypeForValue newValue)) (unat keyId) x) (\<lambda>n.
            if n = 0 then raise (RuntimeError ''failed to upsert value'') else ret ()))
      else ret ())"

definition updateKey :: "sql_env \<Rightarrow> u32 \<Rightarrow> PropertyValueType \<Rightarrow> PropertyValue \<Rightarrow> (db, unit) op" where
  "updateKey env keyId oldValueType newValue =
     transaction env
       (bindE (update_type_step env keyId oldValueType (TypeForValue newValue)) (\<lambda>_.
          bindE (update_value_step env keyId newValue) (\<lambda>_.
            updateKeyTimestamp env keyId)))"

definition setKey :: "sql_env \<Rightarrow> string \<Rightarrow> PropertyValue \<Rightarrow> (db, unit) op" where
  "setKey env name value =
     bindE (select_key_info env (c_str name)) (\<lambda>info.
       case info of None \<Rightarrow> insertKey env name value
       | Some (rowid, oldValueType) \<Rightarrow>
           let keyId = (of_nat rowid :: u32) in
           if oldValueType = vtNull then updateKey env keyId oldValueType value
           else if value = PVNull then updateKey env keyId oldValueType value
           else if oldValueType = TypeForValue value then updateKey env keyId oldValueType value
           else raise (InvalidArgument ''changing type of key not allowed''))"

text \<open>
  \<open>hasChildren\<close> binds \<open>:keyPrefix\<close>, but the parameter of its statement is \<open>:keyName\<close>; and
  \<open>exec\<close> on a SELECT throws as soon as the statement yields a row, which a count always does.
\<close>

definition hasChildren :: "sql_env \<Rightarrow> string \<Rightarrow> (db, bool) op" where
  "hasChildren env name =
     bindE (lift (sql_bind ['':keyName''] '':keyPrefix'')) (\<lambda>_.
       raise (SqliteError ''exec() does not expect results''))"

definition deleteKey :: "sql_env \<Rightarrow> string \<Rightarrow> (db, nat) op" where
  "deleteKey env name =
     bindE (hasChildren env name) (\<lambda>b.
       if b then raise (RuntimeError ''key has children'')
       else delete_key_rows env (\<lambda>k. k = c_str name))"

definition deleteSubkeys :: "sql_env \<Rightarrow> string \<Rightarrow> (db, nat) op" where
  "deleteSubkeys env namePrefix =
     delete_key_rows env (sql_like (namePrefix @ ''.%''))"

text \<open>
  \<open>getMetaValue\<close>: for a missing key the code returns \<open>nullptr\<close> as an optional string, which
  builds a \<open>std::string\<close> from a null pointer.
\<close>

definition getMetaValue :: "sql_env \<Rightarrow> string \<Rightarrow> (db, string option) op" where
  "getMetaValue env key =
     bindE (select_meta env (c_str key)) (\<lambda>r.
       case r of None \<Rightarrow> raise (Undefined ''std::string(nullptr)'')
       | Some v \<Rightarrow> ret (Some v))"

definition kCurrentSchemaVersion :: nat where "kCurrentSchemaVersion = 1"

fun create_tables :: "sql_env \<Rightarrow> string list \<Rightarrow> (db, unit) op" where
  "create_tables env [] = ret ()"
| "create_tables env (t # ts) = bindE (create_table env t) (\<lambda>_. create_tables env ts)"

definition initSchema :: "sql_env \<Rightarrow> string \<Rightarrow> (db, unit) op" where
  "initSchema env kVersion =
     transaction env
       (bindE (create_tables env (kMetaTableName # kPropertyKeys # value_tables)) (\<lambda>_.
          bindE (insert_meta env ''creator.swversion'' kVersion) (\<lambda>_.
            bindE (insert_meta env ''creator.timestamp'' (show_nat (se_now env))) (\<lambda>_.
              bindE (insert_meta env ''schema.version'' (show_nat kCurrentSchemaVersion)) (\<lambda>_.
                ret ())))))"

text \<open>The constructor.\<close>

definition open_DataStore :: "sql_env \<Rightarrow> string \<Rightarrow> (db, unit) op" where
  "open_DataStore env kVersion =
     bindE (run_stmt env SqlPragma (ret ())) (\<lambda>_.
       bindE (run_stmt env (SqlSelect ''sqlite_master'')
                (\<lambda>d. (Inr (kMetaTableName \<in> set (db_tables d)), d))) (\<lambda>ex.
         bindE (if ex then ret () else initSchema env kVersion) (\<lambda>_.
           bindE (getMetaValue env ''schema.version'') (\<lambda>versionStr.
             case versionStr of None \<Rightarrow> raise (LogicError ''failed to get schema version!'')
             | Some str \<Rightarrow>
                 bindE (lift (c_stoul str)) (\<lambda>version.
                   if kCurrentSchemaVersion < unat version
                   then raise (RuntimeError ''unsupported schema version'') else ret ())))))"

end
