(* ===== verification/DataStore_Spec.thy ===== *)
theory DataStore_Spec
  imports DataStore
begin

text \<open>
  Correctness of the data store: the invariant of the tables, the abstract content
  \<open>store_view\<close>, and that \<open>getKey\<close> and \<open>setKey\<close> implement the contract \<open>config_store\<close> whatever
  statements the engine lets fail.
\<close>

section \<open>Exceptions and atomicity\<close>

lemma run_stmt_result:
  "run_stmt env st body d = (r, d') \<longleftrightarrow>
     (\<exists>e. r = Inl e \<and> d' = d \<and>
        (se_fault env st d \<and> e = SqliteError ''statement failed''
         \<or> \<not> se_fault env st d \<and> fst (body d) = Inl e))
     \<or> (\<exists>x. r = Inr x \<and> \<not> se_fault env st d \<and> body d = (Inr x, d'))"
  by (auto simp: run_stmt_def split: prod.splits sum.splits)

lemma on_table_result:
  "on_table t body d = (r, d') \<longleftrightarrow>
     (t = '''' \<and> r = Inl (SqliteError ''syntax error'') \<and> d' = d)
     \<or> (t \<noteq> '''' \<and> t \<notin> set (db_tables d) \<and> r = Inl (SqliteError ''no such table'') \<and> d' = d)
     \<or> (t \<noteq> '''' \<and> t \<in> set (db_tables d) \<and> body d = (r, d'))"
  by (auto simp: on_table_def)

text \<open>What a statement that succeeds has done.\<close>

lemma sql_ok_iff:
  "sql env k t body d = (Inr x, d') \<longleftrightarrow>
     \<not> se_fault env (k t) d \<and> t \<noteq> '''' \<and> t \<in> set (db_tables d) \<and> body d = (Inr x, d')"
  by (auto simp: sql_def run_stmt_result on_table_result)

lemma sql_err_state: "sql env k t body d = (Inl e, d') \<Longrightarrow> d' = d"
  by (auto simp: sql_def run_stmt_result)

lemma transaction_result:
  "transaction env body d = (r, d') \<longleftrightarrow>
     (\<exists>e. r = Inl e \<and> d' = d \<and>
        (se_fault env SqlBegin d \<and> e = SqliteError ''begin''
         \<or> \<not> se_fault env SqlBegin d \<and>
             (fst (body d) = Inl e
              \<or> (\<exists>x d1. body d = (Inr x, d1) \<and> se_fault env SqlCommit d1
                    \<and> e = SqliteError ''commit''))))
     \<or> (\<exists>x. r = Inr x \<and> \<not> se_fault env SqlBegin d \<and> body d = (Inr x, d')
           \<and> \<not> se_fault env SqlCommit d')"
  by (auto simp: transaction_def split: prod.splits sum.splits if_splits)

lemma transaction_ok_iff:
  "transaction env body d = (Inr x, d') \<longleftrightarrow>
     \<not> se_fault env SqlBegin d \<and> body d = (Inr x, d') \<and> \<not> se_fault env SqlCommit d'"
  by (auto simp: transaction_result)

lemma std_sql: "std_op body \<Longrightarrow> std_op (sql env k t body)"
  unfolding std_op_def sql_def
  by (auto simp: run_stmt_result on_table_def split: if_splits) (metis eq_fst_iff)

lemma std_transaction [op_intros]: "std_op body \<Longrightarrow> std_op (transaction env body)"
  unfolding std_op_def by (auto simp: transaction_result) (metis eq_fst_iff)+

lemma atomic_sql: "atomic_op (sql env k t body)"
  by (auto simp: atomic_op_def dest: sql_err_state)

lemma atomic_transaction [op_intros]: "atomic_op (transaction env body)"
  by (auto simp: atomic_op_def transaction_result)

lemmas statement_defs = select_key_info_def select_value_def insert_key_row_def
  insert_value_row_def upsert_value_row_def update_key_type_def delete_value_row_def
  touch_key_def delete_key_rows_def select_meta_def insert_meta_def

lemma std_statements [op_intros]:
  "std_op (select_key_info env n)" "std_op (select_value env t i)"
  "std_op (insert_key_row env n ty)" "std_op (insert_value_row env t i x)"
  "std_op (upsert_value_row env t i x)" "std_op (update_key_type env i ty)"
  "std_op (delete_value_row env t i)" "std_op (touch_key env i)" "std_op (delete_key_rows env P)"
  unfolding statement_defs by (rule std_sql; simp add: std_op_def Let_def)+

lemma read_statements [op_intros]:
  "reads_only (select_key_info env n)" "reads_only (select_value env t i)"
  "reads_only (select_meta env n)"
  by (auto simp: reads_only_def statement_defs sql_def run_stmt_result on_table_result)

lemma BindValue_std: "BindValue env v = Inl e \<Longrightarrow> is_std_exception e"
  by (cases v) auto

lemma read_value_std: "read_value env ty x = Inl e \<Longrightarrow> is_std_exception e"
  by (auto simp: read_value_def split: if_splits)

lemma getKey_reads_only: "reads_only (getKey env n)"
  unfolding getKey_def Let_def by (intro op_intros)

lemma updateKey_atomic [op_intros]: "atomic_op (updateKey env k ty v)"
  unfolding updateKey_def by (rule atomic_transaction)

lemma insertKey_atomic [op_intros]: "atomic_op (insertKey env n v)"
  unfolding insertKey_def by (intro op_intros)

lemma setKey_atomic: "atomic_op (setKey env n v)"
  unfolding setKey_def Let_def by (intro op_intros)

lemma updateKey_std [op_intros]: "std_op (updateKey env k ty v)"
  unfolding updateKey_def update_type_step_def update_value_step_def updateKeyTimestamp_def
  by (intro op_intros) (auto simp: BindValue_std)

lemma insertKey_std [op_intros]: "std_op (insertKey env n v)"
  unfolding insertKey_def by (intro op_intros) (auto simp: BindValue_std)

lemma setKey_std: "std_op (setKey env n v)"
  unfolding setKey_def Let_def by (intro op_intros) auto

lemma getKey_std: "std_op (getKey env n)"
  unfolding getKey_def Let_def by (intro op_intros) (auto simp: read_value_std)

section \<open>The abstract content\<close>

fun value_of :: "sqlval \<Rightarrow> PropertyValue" where
  "value_of (SqlInt v) = PVInteger v"
| "value_of (SqlReal x) = PVReal x"
| "value_of (SqlText s) = PVString s"
| "value_of (SqlBlob b) = PVBlob b"
| "value_of SqlNull = PVNull"

text \<open>The row of a key, and the value a property has in a table.\<close>

definition key_of :: "db \<Rightarrow> string \<Rightarrow> key_row option" where
  "key_of d n = List.find (\<lambda>r. kr_key r = n) (db_keys d)"

definition val_of :: "db \<Rightarrow> string \<Rightarrow> nat \<Rightarrow> sqlval option" where
  "val_of d t i = map_option vr_value (List.find (\<lambda>v. vr_propertyId v = i) (db_vals d t))"

definition store_view :: "db \<Rightarrow> string \<Rightarrow> PropertyValue option" where
  "store_view d n =
     (case key_of d n of None \<Rightarrow> None
      | Some r \<Rightarrow> if kr_type r = vtNull then Some PVNull
                   else map_option value_of (val_of d (ValueTableName (kr_type r)) (kr_id r)))"

text \<open>What becomes of a value that is stored.\<close>

fun stored_as :: "sql_env \<Rightarrow> PropertyValue \<Rightarrow> PropertyValue" where
  "stored_as env (PVBool b) = PVInteger (if b then 1 else 0)"
| "stored_as env (PVReal x) = PVReal (se_real env x)"
| "stored_as env PVMonostate = PVNull"
| "stored_as env v = v"

section \<open>The invariant\<close>

fun fits :: "u32 \<Rightarrow> sqlval \<Rightarrow> bool" where
  "fits ty (SqlText _) = (ty = vtString)"
| "fits ty (SqlBlob _) = (ty = vtBlob)"
| "fits ty (SqlInt _) = (ty = vtInteger)"
| "fits ty (SqlReal _) = (ty = vtReal)"
| "fits ty SqlNull = False"

definition tables_ok :: "db \<Rightarrow> bool" where
  "tables_ok d \<longleftrightarrow> kMetaTableName \<in> set (db_tables d) \<and> kPropertyKeys \<in> set (db_tables d)
     \<and> set value_tables \<subseteq> set (db_tables d)"

definition keys_ok :: "db \<Rightarrow> bool" where
  "keys_ok d \<longleftrightarrow> distinct (map kr_id (db_keys d)) \<and> distinct (map kr_key (db_keys d))
     \<and> (\<forall>r \<in> set (db_keys d). kr_id r \<le> db_seq d kPropertyKeys
           \<and> kr_type r \<in> {vtNull, vtString, vtBlob, vtInteger, vtReal})"

text \<open>No value row is orphaned, each is in the table of its key's type, and every key that is
  not null has one.\<close>

definition vals_ok :: "db \<Rightarrow> bool" where
  "vals_ok d \<longleftrightarrow>
     (\<forall>t \<in> set value_tables. distinct (map vr_propertyId (db_vals d t))
        \<and> (\<forall>v \<in> set (db_vals d t). \<exists>r \<in> set (db_keys d).
              kr_id r = vr_propertyId v \<and> ValueTableName (kr_type r) = t
              \<and> fits (kr_type r) (vr_value v)))
     \<and> (\<forall>r \<in> set (db_keys d). kr_type r \<noteq> vtNull \<longrightarrow>
           (\<exists>v \<in> set (db_vals d (ValueTableName (kr_type r))). vr_propertyId v = kr_id r))"

definition db_wf :: "db \<Rightarrow> bool" where
  "db_wf d \<longleftrightarrow> tables_ok d \<and> keys_ok d \<and> vals_ok d"

definition db_room :: "db \<Rightarrow> bool" where
  "db_room d \<longleftrightarrow> db_seq d kPropertyKeys < 2 ^ 32"

definition db_inv :: "db \<Rightarrow> bool" where
  "db_inv d \<longleftrightarrow> db_wf d \<and> db_room d"

lemma ValueTableName_in_tables:
  "ty \<in> {vtNull, vtString, vtBlob, vtInteger, vtReal} \<Longrightarrow> ty \<noteq> vtNull \<Longrightarrow>
   ValueTableName ty \<in> set value_tables \<and> ValueTableName ty \<noteq> ''''"
  by (auto simp: ValueTableName_def value_tables_def)

lemma ValueTableName_Null [simp]: "ValueTableName vtNull = ''''"
  by (simp add: ValueTableName_def value_type_defs)

lemma ValueTableName_inj:
  "ty \<in> {vtNull, vtString, vtBlob, vtInteger, vtReal} \<Longrightarrow>
   ty' \<in> {vtNull, vtString, vtBlob, vtInteger, vtReal} \<Longrightarrow>
   ValueTableName ty = ValueTableName ty' \<Longrightarrow> ty = ty'"
  by (auto simp: ValueTableName_def value_type_defs)

lemma TypeForValue_range: "TypeForValue v \<in> {vtNull, vtString, vtBlob, vtInteger, vtReal}"
  by (cases v) auto

lemma TypeForValue_Null_iff: "TypeForValue v = vtNull \<longleftrightarrow> v = PVNull \<or> v = PVMonostate"
  by (cases v) (auto simp: value_type_defs)

lemma BindValue_fits:
  "TypeForValue v \<noteq> vtNull \<Longrightarrow>
   \<exists>x. BindValue env v = Inr x \<and> fits (TypeForValue v) x \<and> value_of x = stored_as env v"
  by (cases v) auto

lemma read_value_fits: "fits ty x \<Longrightarrow> read_value env ty x = Inr (value_of x)"
  by (cases x) (auto simp: read_value_def value_type_defs)

lemma rowid_fits: "db_inv d \<Longrightarrow> r \<in> set (db_keys d) \<Longrightarrow> unat (of_nat (kr_id r) :: u32) = kr_id r"
proof -
  assume "db_inv d" and "r \<in> set (db_keys d)"
  then have "kr_id r < 2 ^ 32"
    by (auto simp: db_inv_def db_wf_def keys_ok_def db_room_def)
  then show ?thesis by (simp add: unat_of_nat)
qed

lemma key_of_SomeD: "key_of d n = Some r \<Longrightarrow> r \<in> set (db_keys d) \<and> kr_key r = n"
  by (auto simp: key_of_def dest: find_SomeD)

lemma wf_value:
  assumes "db_wf d" and "r \<in> set (db_keys d)" and "kr_type r \<noteq> vtNull"
  obtains x where "val_of d (ValueTableName (kr_type r)) (kr_id r) = Some x" and "fits (kr_type r) x"
proof -
  let ?t = "ValueTableName (kr_type r)"
  from assms have ty: "kr_type r \<in> {vtNull, vtString, vtBlob, vtInteger, vtReal}"
    by (auto simp: db_wf_def keys_ok_def)
  with assms(3) have t: "?t \<in> set value_tables" using ValueTableName_in_tables by blast
  from assms obtain v where v: "v \<in> set (db_vals d ?t)" "vr_propertyId v = kr_id r"
    by (auto simp: db_wf_def vals_ok_def)
  from assms(1) t have "distinct (map vr_propertyId (db_vals d ?t))"
    by (auto simp: db_wf_def vals_ok_def)
  with v have "List.find (\<lambda>w. vr_propertyId w = kr_id r) (db_vals d ?t) = Some v"
    by (intro find_unique)
  then have val: "val_of d ?t (kr_id r) = Some (vr_value v)" by (simp add: val_of_def)
  from assms(1) t v obtain r' where r': "r' \<in> set (db_keys d)" "kr_id r' = kr_id r"
    "fits (kr_type r') (vr_value v)"
    unfolding db_wf_def vals_ok_def by metis
  from assms(1) have "distinct (map kr_id (db_keys d))" by (simp add: db_wf_def keys_ok_def)
  with r' assms(2) have "r' = r" by (metis distinct_map inj_onD)
  with that val r' show thesis by simp
qed

section \<open>Reading\<close>

lemma select_key_info_ok:
  "select_key_info env n d = (Inr i, d') \<Longrightarrow>
   i = map_option (\<lambda>r. (kr_id r, kr_type r)) (key_of d n) \<and> d' = d"
  by (auto simp: select_key_info_def sql_ok_iff key_of_def)

lemma select_value_ok:
  "select_value env t i d = (Inr v, d') \<Longrightarrow> v = val_of d t i \<and> d' = d"
  by (auto simp: select_value_def sql_ok_iff val_of_def)

lemma store_view_type:
  assumes "db_wf d" and "key_of d n = Some r" and "kr_type r \<noteq> vtNull"
  obtains x where "val_of d (ValueTableName (kr_type r)) (kr_id r) = Some x" and "fits (kr_type r) x"
    and "store_view d n = Some (value_of x)"
  using wf_value [OF assms(1) _ assms(3)] key_of_SomeD [OF assms(2)] assms(2,3)
  by (auto simp: store_view_def)

lemma getKey_value:
  assumes "db_inv d" and "fst (getKey env n d) = Inr v"
  shows "v = (case store_view d (c_str n) of None \<Rightarrow> PVMonostate | Some x \<Rightarrow> x)"
proof (cases "key_of d (c_str n)")
  case None
  with assms(2) show ?thesis
    by (auto simp: getKey_def bindE_def store_view_def split: prod.splits sum.splits option.splits
        dest: select_key_info_ok)
next
  case (Some r)
  from assms(1) have wf: "db_wf d" by (simp add: db_inv_def)
  obtain d' where g: "getKey env n d = (Inr v, d')"
    using assms(2) by (cases "getKey env n d") auto
  then obtain i s1 where s: "select_key_info env (c_str n) d = (Inr i, s1)"
    unfolding getKey_def by (auto elim: bindE_InrE)
  with Some have i: "i = Some (kr_id r, kr_type r)" "s1 = d"
    using select_key_info_ok [OF s] by auto
  show ?thesis
  proof (cases "kr_type r = vtNull")
    case True
    with g s i Some show ?thesis by (simp add: getKey_def store_view_def)
  next
    case False
    obtain x where x: "val_of d (ValueTableName (kr_type r)) (kr_id r) = Some x"
      "fits (kr_type r) x" "store_view d (c_str n) = Some (value_of x)"
      using store_view_type [OF wf Some False] .
    from False g s i rowid_fits [OF assms(1)] key_of_SomeD [OF Some]
    show ?thesis
      using x read_value_fits [OF x(2)]
      by (auto simp: getKey_def bindE_result Let_def dest!: select_value_ok split: if_splits option.splits)
  qed
qed

text \<open>An engine that lets no statement fail.\<close>

definition no_fault :: "sql_env \<Rightarrow> bool" where
  "no_fault env \<longleftrightarrow> (\<forall>st d. \<not> se_fault env st d)"

lemma sql_no_fault:
  "no_fault env \<Longrightarrow> t \<noteq> '''' \<Longrightarrow> t \<in> set (db_tables d) \<Longrightarrow>
   sql env k t body d = (case body d of (Inl e, _) \<Rightarrow> (Inl e, d) | (Inr x, d') \<Rightarrow> (Inr x, d'))"
  by (simp add: no_fault_def sql_def run_stmt_def on_table_def)

lemma wf_tables:
  assumes "db_wf d"
  shows "kPropertyKeys \<noteq> ''''" "kMetaTableName \<noteq> ''''"
    "kPropertyKeys \<in> set (db_tables d)" "kMetaTableName \<in> set (db_tables d)"
    "t \<in> set value_tables \<Longrightarrow> t \<in> set (db_tables d) \<and> t \<noteq> ''''"
  using assms by (auto simp: db_wf_def tables_ok_def table_names)

lemma select_key_info_run:
  assumes "no_fault env" and "db_wf d"
  shows "select_key_info env n d
         = (Inr (map_option (\<lambda>r. (kr_id r, kr_type r)) (key_of d n)), d)"
  using assms wf_tables [OF assms(2)]
  by (simp add: select_key_info_def sql_no_fault key_of_def)

lemma getKey_runs:
  assumes "no_fault env" and "db_inv d"
  shows "\<exists>v. getKey env n d = (Inr v, d)"
proof (cases "key_of d (c_str n)")
  case None
  with assms show ?thesis
    by (simp add: getKey_def select_key_info_run db_inv_def)
next
  case (Some r)
  from assms have wf: "db_wf d" by (simp add: db_inv_def)
  show ?thesis
  proof (cases "kr_type r = vtNull")
    case True
    with assms wf Some show ?thesis by (simp add: getKey_def select_key_info_run Let_def)
  next
    case False
    let ?t = "ValueTableName (kr_type r)"
    obtain x where x: "val_of d ?t (kr_id r) = Some x" "fits (kr_type r) x"
      using store_view_type [OF wf Some False] .
    from wf key_of_SomeD [OF Some] have "kr_type r \<in> {vtNull, vtString, vtBlob, vtInteger, vtReal}"
      by (auto simp: db_wf_def keys_ok_def)
    then have t: "?t \<noteq> ''''" "?t \<in> set (db_tables d)"
      using ValueTableName_in_tables [OF _ False] wf_tables(5) [OF wf] by auto
    have "select_value env ?t (kr_id r) d = (Inr (Some x), d)"
      using x(1) by (auto simp: select_value_def val_of_def sql_no_fault [OF assms(1) t])
    with assms wf Some False t x key_of_SomeD [OF Some] show ?thesis
      by (simp add: getKey_def select_key_info_run Let_def rowid_fits read_value_fits)
  qed
qed

lemma getKey_correct:
  assumes "no_fault env" and "db_inv d"
  shows "getKey env n d
         = (Inr (case store_view d (c_str n) of None \<Rightarrow> PVMonostate | Some x \<Rightarrow> x), d)"
  using getKey_runs [OF assms, of n] getKey_value [OF assms(2), of env n] by auto

section \<open>Writing\<close>

text \<open>The database a successful \<open>updateKey\<close> leaves, in one step.\<close>

definition updated_rows :: "sql_env \<Rightarrow> nat \<Rightarrow> u32 \<Rightarrow> key_row list \<Rightarrow> key_row list" where
  "updated_rows env i ty ks =
     map (\<lambda>r. if kr_id r = i then r\<lparr>kr_type := ty, kr_updatedAt := se_now env\<rparr> else r) ks"

definition after_update :: "sql_env \<Rightarrow> nat \<Rightarrow> u32 \<Rightarrow> PropertyValue \<Rightarrow> db \<Rightarrow> db" where
  "after_update env i old v d =
     (let new = TypeForValue v; t = ValueTableName new; t0 = ValueTableName old in
      d\<lparr>db_keys := updated_rows env i new (db_keys d),
        db_vals :=
          (if new \<noteq> vtNull then
             (db_vals d)(t := map (\<lambda>w. if vr_propertyId w = i
                                       then w\<lparr>vr_value := projr (BindValue env v)\<rparr> else w)
                                (db_vals d t))
           else if old \<noteq> new then
             (db_vals d)(t0 := filter (\<lambda>w. vr_propertyId w \<noteq> i) (db_vals d t0))
           else db_vals d)\<rparr>)"

lemma updated_rows_simps [simp]:
  "map kr_id (updated_rows env i ty ks) = map kr_id ks"
  "map kr_key (updated_rows env i ty ks) = map kr_key ks"
  by (simp_all add: updated_rows_def comp_def if_distrib cong: if_cong)

lemma updated_rows_same_type:
  "(\<And>r. r \<in> set ks \<Longrightarrow> kr_id r = i \<Longrightarrow> kr_type r = ty) \<Longrightarrow>
   map (\<lambda>r. if kr_id r = i then r\<lparr>kr_updatedAt := se_now env\<rparr> else r) ks = updated_rows env i ty ks"
  by (auto simp: updated_rows_def)

lemma touch_after_type:
  "map (\<lambda>r. if kr_id r = i then r\<lparr>kr_updatedAt := se_now env\<rparr> else r)
     (map (\<lambda>r. if kr_id r = i then r\<lparr>kr_type := ty\<rparr> else r) ks) = updated_rows env i ty ks"
  by (auto simp: updated_rows_def)

text \<open>
  A change from null to another type never succeeds: the DELETE that is to remove the old value
  names no table. (\<open>ValueTableName\<close> is empty for null.)
\<close>

lemma update_from_null_fails:
  assumes "TypeForValue v \<noteq> vtNull"
  shows "\<exists>e. updateKey env k vtNull v d = (Inl e, d) \<and> is_std_exception e"
proof (cases "updateKey env k vtNull v d")
  case (Pair r d')
  have "r \<noteq> Inr ()"
  proof
    assume "r = Inr ()"
    with Pair assms show False
      by (auto simp: updateKey_def transaction_ok_iff update_type_step_def delete_value_row_def
          sql_ok_iff elim!: bindE_InrE split: if_splits)
  qed
  then obtain e where "r = Inl e" by (cases r) auto
  with Pair updateKey_atomic [of env k vtNull v] updateKey_std [of env k vtNull v]
  show ?thesis by (auto dest: atomic_opD std_opD)
qed

lemma update_value_step_ok:
  assumes "update_value_step env k v d = (Inr (), d')"
    and "TypeForValue v \<noteq> vtNull"
    and "\<exists>w \<in> set (db_vals d (ValueTableName (TypeForValue v))). vr_propertyId w = unat k"
  shows "d' = d\<lparr>db_vals := (db_vals d)(ValueTableName (TypeForValue v) :=
            map (\<lambda>w. if vr_propertyId w = unat k then w\<lparr>vr_value := projr (BindValue env v)\<rparr> else w)
              (db_vals d (ValueTableName (TypeForValue v))))\<rparr>"
  using assms
  by (auto simp: update_value_step_def upsert_value_row_def sql_ok_iff
      elim!: bindE_InrE split: if_splits cong: if_cong)

lemma updateKeyTimestamp_ok:
  "updateKeyTimestamp env k d = (Inr (), d') \<Longrightarrow>
   d' = d\<lparr>db_keys := map (\<lambda>r. if kr_id r = unat k then r\<lparr>kr_updatedAt := se_now env\<rparr> else r)
                       (db_keys d)\<rparr>"
  by (auto simp: updateKeyTimestamp_def touch_key_def sql_ok_iff elim!: bindE_InrE split: if_splits)

lemma update_type_step_ok:
  "update_type_step env k old new d = (Inr (), d') \<Longrightarrow> old \<noteq> new \<Longrightarrow>
   d' = d\<lparr>db_keys := map (\<lambda>r. if kr_id r = unat k then r\<lparr>kr_type := new\<rparr> else r) (db_keys d),
          db_vals := (db_vals d)(ValueTableName old :=
            filter (\<lambda>w. vr_propertyId w \<noteq> unat k) (db_vals d (ValueTableName old)))\<rparr>"
  by (auto simp: update_type_step_def update_key_type_def delete_value_row_def sql_ok_iff
      elim!: bindE_InrE split: if_splits)

lemma updateKey_success:
  assumes ok: "updateKey env k (kr_type r) v d = (Inr (), d')"
    and wf: "db_wf d" and r: "r \<in> set (db_keys d)" "kr_id r = unat k"
    and allowed: "TypeForValue v = vtNull \<or> TypeForValue v = kr_type r"
  shows "d' = after_update env (unat k) (kr_type r) v d"
proof -
  let ?new = "TypeForValue v"
  from ok obtain d1 d2 where 1: "update_type_step env k (kr_type r) ?new d = (Inr (), d1)"
    and 2: "update_value_step env k v d1 = (Inr (), d2)"
    and 3: "updateKeyTimestamp env k d2 = (Inr (), d')"
    by (auto simp: updateKey_def transaction_ok_iff elim!: bindE_InrE)
  have uniq: "s = r" if "s \<in> set (db_keys d)" "kr_id s = unat k" for s
    using that r wf by (auto simp: db_wf_def keys_ok_def distinct_map inj_on_def)
  show ?thesis
  proof (cases "?new = kr_type r")
    case True
    with 1 have d1: "d1 = d" by (simp add: update_type_step_def)
    have t: "map (\<lambda>s. if kr_id s = unat k then s\<lparr>kr_updatedAt := se_now env\<rparr> else s) (db_keys d)
             = updated_rows env (unat k) ?new (db_keys d)"
      using uniq True by (intro updated_rows_same_type) auto
    show ?thesis
    proof (cases "?new = vtNull")
      case True
      with 2 d1 have "d2 = d" by (simp add: update_value_step_def)
      with updateKeyTimestamp_ok [OF 3] t True \<open>?new = kr_type r\<close> show ?thesis
        by (simp add: after_update_def Let_def)
    next
      case False
      from wf r(1) False True have "\<exists>w \<in> set (db_vals d (ValueTableName ?new)). vr_propertyId w = kr_id r"
        unfolding db_wf_def vals_ok_def by metis
      then have "\<exists>w \<in> set (db_vals d1 (ValueTableName ?new)). vr_propertyId w = unat k"
        by (simp add: d1 r(2))
      from update_value_step_ok [OF 2 False this] updateKeyTimestamp_ok [OF 3] t d1 False
      show ?thesis by (simp add: after_update_def Let_def)
    qed
  next
    case False
    with allowed have null: "?new = vtNull" by simp
    with 2 have "d2 = d1" by (simp add: update_value_step_def)
    with update_type_step_ok [OF 1] False updateKeyTimestamp_ok [OF 3] null show ?thesis
      by (auto simp: after_update_def Let_def updated_rows_def)
  qed
qed

subsection \<open>The invariant and the content after an update\<close>

lemma wf_same_id: "db_wf d \<Longrightarrow> r \<in> set (db_keys d) \<Longrightarrow> s \<in> set (db_keys d) \<Longrightarrow> kr_id r = kr_id s \<Longrightarrow> r = s"
  by (auto simp: db_wf_def keys_ok_def distinct_map inj_on_def)

lemma wf_same_key: "db_wf d \<Longrightarrow> r \<in> set (db_keys d) \<Longrightarrow> s \<in> set (db_keys d) \<Longrightarrow> kr_key r = kr_key s \<Longrightarrow> r = s"
  by (auto simp: db_wf_def keys_ok_def distinct_map inj_on_def)

lemma key_of_row: "db_wf d \<Longrightarrow> r \<in> set (db_keys d) \<Longrightarrow> key_of d (kr_key r) = Some r"
  unfolding key_of_def by (rule find_unique) (auto simp: db_wf_def keys_ok_def)

lemma key_of_updated:
  "key_of (d\<lparr>db_keys := updated_rows env i ty (db_keys d), db_vals := vs\<rparr>) n
   = map_option (\<lambda>r. if kr_id r = i then r\<lparr>kr_type := ty, kr_updatedAt := se_now env\<rparr> else r)
       (key_of d n)"
  unfolding key_of_def updated_rows_def by (simp add: find_map_pres)

lemma find_map_value:
  "List.find (\<lambda>v. vr_propertyId v = j)
     (map (\<lambda>w. if vr_propertyId w = i then w\<lparr>vr_value := x\<rparr> else w) ws)
   = map_option (\<lambda>w. if vr_propertyId w = i then w\<lparr>vr_value := x\<rparr> else w)
       (List.find (\<lambda>v. vr_propertyId v = j) ws)"
  by (rule find_map_pres) simp

lemma val_of_map_update:
  "val_of (d\<lparr>db_keys := ks, db_vals := (db_vals d)(t :=
      map (\<lambda>w. if vr_propertyId w = i then w\<lparr>vr_value := x\<rparr> else w) (db_vals d t))\<rparr>) t' j
   = (if t' = t \<and> j = i then map_option (\<lambda>_. x) (val_of d t i) else val_of d t' j)"
  by (cases "List.find (\<lambda>v. vr_propertyId v = j) (db_vals d t)")
    (auto simp: val_of_def find_map_value dest: find_SomeD)

lemma val_of_filter:
  "j \<noteq> i \<Longrightarrow>
   val_of (d\<lparr>db_keys := ks, db_vals := (db_vals d)(t :=
      filter (\<lambda>w. vr_propertyId w \<noteq> i) (db_vals d t))\<rparr>) t' j = val_of d t' j"
  by (simp add: val_of_def find_filter_neq)

lemma after_update_view:
  assumes wf: "db_wf d" and r: "r \<in> set (db_keys d)"
    and allowed: "TypeForValue v = vtNull \<or> TypeForValue v = kr_type r"
  shows "store_view (after_update env (kr_id r) (kr_type r) v d)
         = (store_view d)(kr_key r \<mapsto> stored_as env v)"
proof
  fix n
  let ?d' = "after_update env (kr_id r) (kr_type r) v d" and ?new = "TypeForValue v"
  show "store_view ?d' n = ((store_view d)(kr_key r \<mapsto> stored_as env v)) n"
  proof (cases "n = kr_key r")
    case True
    with key_of_row [OF wf r] have k: "key_of ?d' n
        = Some (r\<lparr>kr_type := ?new, kr_updatedAt := se_now env\<rparr>)"
      by (simp add: after_update_def Let_def key_of_updated)
    show ?thesis
    proof (cases "?new = vtNull")
      case new: True
      with k True show ?thesis by (auto simp: store_view_def TypeForValue_Null_iff)
    next
      case False
      then have nn: "kr_type r \<noteq> vtNull" and t: "?new = kr_type r" using allowed by auto
      obtain x0 where "val_of d (ValueTableName (kr_type r)) (kr_id r) = Some x0"
        using wf_value [OF wf r nn] .
      moreover obtain x where "BindValue env v = Inr x" "value_of x = stored_as env v"
        using BindValue_fits [OF False, of env] by auto
      ultimately show ?thesis using k True False t
        by (simp add: store_view_def after_update_def Let_def val_of_map_update)
    qed
  next
    case False
    then have "kr_id s \<noteq> kr_id r" if "key_of d n = Some s" for s
      using wf_same_id [OF wf r] key_of_SomeD [OF that] by metis
    with False show ?thesis
      by (cases "key_of d n")
        (auto simp: store_view_def after_update_def Let_def key_of_updated val_of_map_update
          val_of_filter, auto simp: val_of_def)
  qed
qed

lemma after_update_tables: "tables_ok (after_update env i old v d) = tables_ok d"
  by (simp add: tables_ok_def after_update_def Let_def)

lemma after_update_seq [simp]: "db_seq (after_update env i old v d) = db_seq d"
  by (simp add: after_update_def Let_def)

lemma after_update_keys:
  "db_keys (after_update env i old v d) = updated_rows env i (TypeForValue v) (db_keys d)"
  by (simp add: after_update_def Let_def)

lemma after_update_keys_ok: "keys_ok d \<Longrightarrow> keys_ok (after_update env i old v d)"
  using TypeForValue_range [of v]
  by (auto simp: keys_ok_def after_update_keys updated_rows_simps)
    (auto simp: updated_rows_def split: if_splits)

lemma updated_rows_other: "r \<in> set ks \<Longrightarrow> kr_id r \<noteq> i \<Longrightarrow> r \<in> set (updated_rows env i ty ks)"
  by (force simp: updated_rows_def)

lemma updated_rows_this:
  "r \<in> set ks \<Longrightarrow> kr_id r = i \<Longrightarrow>
   r\<lparr>kr_type := ty, kr_updatedAt := se_now env\<rparr> \<in> set (updated_rows env i ty ks)"
  by (force simp: updated_rows_def)

lemma updated_rowsE:
  assumes "s \<in> set (updated_rows env i ty ks)"
  obtains "s \<in> set ks" "kr_id s \<noteq> i"
  | r where "r \<in> set ks" "kr_id r = i" "s = r\<lparr>kr_type := ty, kr_updatedAt := se_now env\<rparr>"
  using assms by (auto simp: updated_rows_def split: if_splits)

text \<open>The value rows of one table after an update, and that each still has its key row.\<close>

lemma after_update_vals:
  "db_vals (after_update env i old v d) t =
     (if TypeForValue v \<noteq> vtNull then
        (if t = ValueTableName (TypeForValue v)
         then map (\<lambda>w. if vr_propertyId w = i then w\<lparr>vr_value := projr (BindValue env v)\<rparr> else w)
                (db_vals d t)
         else db_vals d t)
      else if old \<noteq> TypeForValue v \<and> t = ValueTableName old
      then filter (\<lambda>w. vr_propertyId w \<noteq> i) (db_vals d t)
      else db_vals d t)"
  by (auto simp: after_update_def Let_def)

lemma map_property_map_value:
  "map vr_propertyId (map (\<lambda>w. if vr_propertyId w = i then w\<lparr>vr_value := x\<rparr> else w) ws)
   = map vr_propertyId ws"
  by simp

lemma after_update_distinct:
  "distinct (map vr_propertyId (db_vals d t)) \<Longrightarrow>
   distinct (map vr_propertyId (db_vals (after_update env i old v d) t))"
  unfolding after_update_vals
  by (simp only: map_property_map_value distinct_map_filter split: if_split) simp

lemma after_update_owned:
  assumes wf: "db_wf d" and r: "r \<in> set (db_keys d)"
    and allowed: "TypeForValue v = vtNull \<or> TypeForValue v = kr_type r"
    and t: "t \<in> set value_tables"
    and w: "w \<in> set (db_vals (after_update env (kr_id r) (kr_type r) v d) t)"
  shows "\<exists>s \<in> set (updated_rows env (kr_id r) (TypeForValue v) (db_keys d)).
           kr_id s = vr_propertyId w \<and> ValueTableName (kr_type s) = t \<and> fits (kr_type s) (vr_value w)"
proof -
  let ?new = "TypeForValue v"
  let ?r' = "r\<lparr>kr_type := ?new, kr_updatedAt := se_now env\<rparr>"
  from t have "t \<noteq> ''''" by (auto simp: value_tables_def)
  with w obtain w0 where w0: "w0 \<in> set (db_vals d t)" "vr_propertyId w0 = vr_propertyId w"
    and ww: "vr_propertyId w \<noteq> kr_id r \<Longrightarrow> w = w0"
    and wr: "vr_propertyId w = kr_id r \<Longrightarrow> t = ValueTableName (kr_type r) \<Longrightarrow>
             ?new \<noteq> vtNull \<and> vr_value w = projr (BindValue env v)"
    using allowed by (auto simp: after_update_vals split: if_splits)
  from wf t w0 obtain s where s: "s \<in> set (db_keys d)" "kr_id s = vr_propertyId w"
    "ValueTableName (kr_type s) = t" "fits (kr_type s) (vr_value w0)"
    unfolding db_wf_def vals_ok_def by metis
  show ?thesis
  proof (cases "vr_propertyId w = kr_id r")
    case False
    with s ww show ?thesis by (intro bexI [of _ s]) (auto intro: updated_rows_other)
  next
    case True
    with s wf_same_id [OF wf s(1) r] have "s = r" by simp
    with s wr True have new: "?new \<noteq> vtNull" "vr_value w = projr (BindValue env v)" by auto
    with allowed have eq: "?new = kr_type r" by simp
    have "fits ?new (vr_value w)" using BindValue_fits [OF new(1), of env] new(2) by auto
    moreover have "ValueTableName ?new = t" using s eq \<open>s = r\<close> by simp
    moreover have "?r' \<in> set (updated_rows env (kr_id r) ?new (db_keys d))"
      using r by (rule updated_rows_this) simp
    ultimately show ?thesis using True by (intro bexI [of _ ?r']) simp_all
  qed
qed

lemma after_update_has_value:
  assumes wf: "db_wf d" and r: "r \<in> set (db_keys d)"
    and allowed: "TypeForValue v = vtNull \<or> TypeForValue v = kr_type r"
    and s: "s \<in> set (updated_rows env (kr_id r) (TypeForValue v) (db_keys d))"
    and nn: "kr_type s \<noteq> vtNull"
  shows "\<exists>w \<in> set (db_vals (after_update env (kr_id r) (kr_type r) v d) (ValueTableName (kr_type s))).
           vr_propertyId w = kr_id s"
  using s
proof (cases rule: updated_rowsE)
  case 1
  with wf nn obtain w where "w \<in> set (db_vals d (ValueTableName (kr_type s)))"
    "vr_propertyId w = kr_id s"
    unfolding db_wf_def vals_ok_def by metis
  with 1 show ?thesis by (force simp: after_update_vals)
next
  case (2 r0)
  with wf_same_id [OF wf _ r] have "r0 = r" by simp
  with 2 nn have new: "TypeForValue v \<noteq> vtNull" by simp
  with allowed have eq: "TypeForValue v = kr_type r" by simp
  from wf r new eq obtain w where "w \<in> set (db_vals d (ValueTableName (kr_type r)))"
    "vr_propertyId w = kr_id r"
    unfolding db_wf_def vals_ok_def by metis
  with 2 new eq \<open>r0 = r\<close> show ?thesis
    by (intro bexI [of _ "w\<lparr>vr_value := projr (BindValue env v)\<rparr>"])
      (auto simp: after_update_vals intro!: image_eqI [of _ _ w])
qed

lemma after_update_wf:
  assumes wf: "db_wf d" and r: "r \<in> set (db_keys d)"
    and allowed: "TypeForValue v = vtNull \<or> TypeForValue v = kr_type r"
  shows "db_wf (after_update env (kr_id r) (kr_type r) v d)"
proof -
  let ?d' = "after_update env (kr_id r) (kr_type r) v d"
  have "vals_ok ?d'"
    unfolding vals_ok_def after_update_keys
  proof (intro conjI ballI impI)
    fix t assume "t \<in> set value_tables"
    with wf show "distinct (map vr_propertyId (db_vals ?d' t))"
      by (intro after_update_distinct) (simp add: db_wf_def vals_ok_def)
  qed (use after_update_owned [OF assms] after_update_has_value [OF assms] in blast)+
  with wf show ?thesis by (simp add: db_wf_def after_update_tables after_update_keys_ok)
qed

subsection \<open>The invariant and the content after an insertion\<close>

definition new_key_row :: "sql_env \<Rightarrow> string \<Rightarrow> PropertyValue \<Rightarrow> db \<Rightarrow> key_row" where
  "new_key_row env key v d =
     \<lparr>kr_id = Suc (db_seq d kPropertyKeys), kr_key = key, kr_type = TypeForValue v,
      kr_createdAt = se_now env, kr_updatedAt = se_now env\<rparr>"

definition after_insert :: "sql_env \<Rightarrow> string \<Rightarrow> PropertyValue \<Rightarrow> db \<Rightarrow> db" where
  "after_insert env key v d =
     (let i = Suc (db_seq d kPropertyKeys); t = ValueTableName (TypeForValue v);
          d1 = d\<lparr>db_keys := db_keys d @ [new_key_row env key v d],
                 db_seq := (db_seq d)(kPropertyKeys := i)\<rparr>
      in if TypeForValue v = vtNull then d1
         else d1\<lparr>db_vals := (db_vals d)(t := db_vals d t
                    @ [\<lparr>vr_id = Suc (db_seq d t), vr_propertyId = i,
                        vr_value = projr (BindValue env v)\<rparr>]),
                 db_seq := (db_seq d1)(t := Suc (db_seq d t))\<rparr>)"

lemma value_table_not_keys: "TypeForValue v \<noteq> vtNull \<Longrightarrow> ValueTableName (TypeForValue v) \<noteq> kPropertyKeys"
  using TypeForValue_range [of v]
  by (auto simp: ValueTableName_def kPropertyKeys_def)

lemma insertKey_success:
  assumes "insertKey env name v d = (Inr (), d')"
  shows "d' = after_insert env (c_str name) v d" and "key_of d (c_str name) = None"
    and "name \<noteq> ''''" and "v \<noteq> PVMonostate"
proof -
  show n: "name \<noteq> ''''" and m: "v \<noteq> PVMonostate"
    using assms by (auto simp: insertKey_def split: if_splits)
  show "key_of d (c_str name) = None"
    using assms by (auto simp: insertKey_def transaction_ok_iff insert_key_row_def sql_ok_iff key_of_def
        find_None_iff_all elim!: bindE_InrE split: if_splits)
  show "d' = after_insert env (c_str name) v d"
    using assms value_table_not_keys [of v]
    by (auto simp: insertKey_def transaction_ok_iff insert_key_row_def insert_value_row_def sql_ok_iff
        after_insert_def new_key_row_def Let_def elim!: bindE_InrE split: if_splits)
qed

lemma after_insert_keys:
  "db_keys (after_insert env key v d) = db_keys d @ [new_key_row env key v d]"
  by (simp add: after_insert_def Let_def)

lemma after_insert_seq_keys [simp]:
  "db_seq (after_insert env key v d) kPropertyKeys = Suc (db_seq d kPropertyKeys)"
  using value_table_not_keys [of v] by (auto simp: after_insert_def Let_def)

lemma after_insert_vals:
  "db_vals (after_insert env key v d) t =
     (if TypeForValue v \<noteq> vtNull \<and> t = ValueTableName (TypeForValue v)
      then db_vals d t @ [\<lparr>vr_id = Suc (db_seq d t), vr_propertyId = Suc (db_seq d kPropertyKeys),
                           vr_value = projr (BindValue env v)\<rparr>]
      else db_vals d t)"
  by (auto simp: after_insert_def Let_def)

lemma wf_fresh_id:
  assumes "db_wf d"
  shows "r \<in> set (db_keys d) \<Longrightarrow> kr_id r \<noteq> Suc (db_seq d kPropertyKeys)"
    and "t \<in> set value_tables \<Longrightarrow> w \<in> set (db_vals d t) \<Longrightarrow>
         vr_propertyId w \<noteq> Suc (db_seq d kPropertyKeys)"
proof -
  show 1: "r \<in> set (db_keys d) \<Longrightarrow> kr_id r \<noteq> Suc (db_seq d kPropertyKeys)" for r
    using assms by (force simp: db_wf_def keys_ok_def)
  assume "t \<in> set value_tables" "w \<in> set (db_vals d t)"
  then obtain s where "s \<in> set (db_keys d)" "kr_id s = vr_propertyId w"
    using assms unfolding db_wf_def vals_ok_def by metis
  with 1 show "vr_propertyId w \<noteq> Suc (db_seq d kPropertyKeys)" by metis
qed

lemma after_insert_wf:
  assumes wf: "db_wf d" and fresh: "key_of d key = None"
  shows "db_wf (after_insert env key v d)"
proof -
  let ?d' = "after_insert env key v d" and ?r = "new_key_row env key v d"
  have "tables_ok ?d'"
    using wf by (simp add: db_wf_def tables_ok_def after_insert_def Let_def)
  moreover have "keys_ok ?d'"
  proof -
    have "key \<notin> kr_key ` set (db_keys d)"
      using fresh by (auto simp: key_of_def find_None_iff_all)
    moreover have "Suc (db_seq d kPropertyKeys) \<notin> kr_id ` set (db_keys d)"
      using wf_fresh_id(1) [OF wf] by (metis imageE)
    ultimately show ?thesis
      using wf TypeForValue_range [of v]
      by (auto simp: keys_ok_def after_insert_keys new_key_row_def db_wf_def le_SucI)
  qed
  moreover have "vals_ok ?d'"
  proof -
    have "distinct (map vr_propertyId (db_vals ?d' t))" if "t \<in> set value_tables" for t
      using that wf wf_fresh_id(2) [OF wf that]
      by (fastforce simp: after_insert_vals db_wf_def vals_ok_def)
    moreover have "\<exists>s \<in> set (db_keys ?d'). kr_id s = vr_propertyId w
        \<and> ValueTableName (kr_type s) = t \<and> fits (kr_type s) (vr_value w)"
      if t: "t \<in> set value_tables" and w: "w \<in> set (db_vals ?d' t)" for t w
    proof (cases "w \<in> set (db_vals d t)")
      case True
      with wf t show ?thesis
        unfolding after_insert_keys db_wf_def vals_ok_def by (metis Un_iff set_append)
    next
      case False
      with w have "TypeForValue v \<noteq> vtNull" "t = ValueTableName (TypeForValue v)"
        "vr_propertyId w = kr_id ?r" "vr_value w = projr (BindValue env v)"
        by (auto simp: after_insert_vals new_key_row_def split: if_splits)
      with BindValue_fits [of v env] show ?thesis
        by (intro bexI [of _ ?r]) (auto simp: after_insert_keys, auto simp: new_key_row_def)
    qed
    moreover have "\<exists>w \<in> set (db_vals ?d' (ValueTableName (kr_type s))). vr_propertyId w = kr_id s"
      if s: "s \<in> set (db_keys ?d')" and nn: "kr_type s \<noteq> vtNull" for s
    proof (cases "s \<in> set (db_keys d)")
      case True
      with wf nn obtain w where "w \<in> set (db_vals d (ValueTableName (kr_type s)))"
        "vr_propertyId w = kr_id s"
        unfolding db_wf_def vals_ok_def by metis
      then show ?thesis by (intro bexI [of _ w]) (auto simp: after_insert_vals)
    next
      case False
      with s nn show ?thesis by (auto simp: after_insert_keys after_insert_vals new_key_row_def)
    qed
    ultimately show ?thesis by (simp add: vals_ok_def)
  qed
  ultimately show ?thesis by (simp add: db_wf_def)
qed

lemma after_insert_key_of:
  "key_of d key = None \<Longrightarrow>
   key_of (after_insert env key v d) n
   = (if n = key then Some (new_key_row env key v d) else key_of d n)"
  by (auto simp: key_of_def after_insert_keys find_append new_key_row_def split: option.splits)

lemma after_insert_val_of:
  assumes "db_wf d" and "i \<noteq> Suc (db_seq d kPropertyKeys)"
  shows "val_of (after_insert env key v d) t i = val_of d t i"
  using assms(2) by (auto simp: val_of_def after_insert_vals find_append split: option.splits)

lemma after_insert_val_new:
  assumes "db_wf d" and "TypeForValue v \<noteq> vtNull"
  shows "val_of (after_insert env key v d) (ValueTableName (TypeForValue v))
           (Suc (db_seq d kPropertyKeys)) = Some (projr (BindValue env v))"
proof -
  have "ValueTableName (TypeForValue v) \<in> set value_tables"
    using ValueTableName_in_tables [OF TypeForValue_range assms(2)] by blast
  then have "List.find (\<lambda>w. vr_propertyId w = Suc (db_seq d kPropertyKeys))
      (db_vals d (ValueTableName (TypeForValue v))) = None"
    using wf_fresh_id(2) [OF assms(1)] by (simp add: find_None_iff_all)
  with assms(2) show ?thesis by (simp add: val_of_def after_insert_vals find_append)
qed

lemma after_insert_view:
  assumes wf: "db_wf d" and fresh: "key_of d key = None"
  shows "store_view (after_insert env key v d) = (store_view d)(key \<mapsto> stored_as env v)"
proof
  fix n
  let ?d' = "after_insert env key v d"
  show "store_view ?d' n = ((store_view d)(key \<mapsto> stored_as env v)) n"
  proof (cases "n = key")
    case True
    show ?thesis
    proof (cases "TypeForValue v = vtNull")
      case null: True
      with True fresh show ?thesis
        by (auto simp: store_view_def after_insert_key_of new_key_row_def TypeForValue_Null_iff)
    next
      case False
      with BindValue_fits [OF False, of env] True fresh after_insert_val_new [OF wf False]
      show ?thesis by (auto simp: store_view_def after_insert_key_of) (auto simp: new_key_row_def)
    qed
  next
    case False
    show ?thesis
    proof (cases "key_of d n")
      case None
      with False fresh show ?thesis by (simp add: store_view_def after_insert_key_of)
    next
      case (Some s)
      then have "kr_id s \<noteq> Suc (db_seq d kPropertyKeys)"
        using wf_fresh_id(1) [OF wf] key_of_SomeD by blast
      with Some False fresh after_insert_val_of [OF wf] show ?thesis
        by (simp add: store_view_def after_insert_key_of)
    qed
  qed
qed

section \<open>The contract of the store\<close>

lemma setKey_success:
  assumes ok: "setKey env name v d = (Inr (), d')" and inv: "db_inv d"
  shows "db_wf d' \<and> store_view d' = (store_view d)(c_str name \<mapsto> stored_as env v)"
proof (cases "key_of d (c_str name)")
  case None
  with ok have "insertKey env name v d = (Inr (), d')"
    by (auto simp: setKey_def elim!: bindE_InrE dest!: select_key_info_ok)
  with inv None show ?thesis
    by (auto simp: db_inv_def dest!: insertKey_success(1) intro: after_insert_wf after_insert_view)
next
  case (Some r)
  from inv have wf: "db_wf d" by (simp add: db_inv_def)
  let ?k = "of_nat (kr_id r) :: u32"
  from Some have r: "r \<in> set (db_keys d)" "kr_key r = c_str name" by (auto dest: key_of_SomeD)
  with inv have id: "kr_id r = unat ?k" by (simp add: rowid_fits)
  from ok Some have up: "updateKey env ?k (kr_type r) v d = (Inr (), d')"
    and cond: "kr_type r = vtNull \<or> v = PVNull \<or> kr_type r = TypeForValue v"
    by (auto simp: setKey_def Let_def elim!: bindE_InrE dest!: select_key_info_ok split: if_splits)
  have allowed: "TypeForValue v = vtNull \<or> TypeForValue v = kr_type r"
  proof (cases "kr_type r = vtNull")
    case True
    have "TypeForValue v = vtNull"
    proof (rule ccontr)
      assume "TypeForValue v \<noteq> vtNull"
      from update_from_null_fails [OF this, of env ?k d] True up show False by auto
    qed
    then show ?thesis by simp
  qed (use cond in auto)
  have "d' = after_update env (kr_id r) (kr_type r) v d"
    using updateKey_success [OF up wf r(1) id allowed] id by simp
  with after_update_wf [OF wf r(1) allowed] after_update_view [OF wf r(1) allowed] r(2)
  show ?thesis by simp
qed

text \<open>No operation takes an identifier back.\<close>

definition ids_grow :: "db \<Rightarrow> db \<Rightarrow> bool" where
  "ids_grow d d' \<longleftrightarrow> db_seq d kPropertyKeys \<le> db_seq d' kPropertyKeys"

lemma ids_grow_order: "reflp ids_grow" "transp ids_grow"
  by (auto simp: ids_grow_def reflp_def transp_def)

lemmas ids_grow_closure = grows_bindE [OF ids_grow_order(2)] grows_if grows_option grows_prod

lemma ids_grow_sql: "grows ids_grow body \<Longrightarrow> grows ids_grow (sql env k t body)"
  unfolding grows_def sql_def
  by (auto simp: run_stmt_result on_table_result ids_grow_def)

lemma ids_grow_transaction: "grows ids_grow body \<Longrightarrow> grows ids_grow (transaction env body)"
  unfolding grows_def by (auto simp: transaction_result) (auto simp: ids_grow_def)

lemma ids_grow_statements:
  "grows ids_grow (select_key_info env n)" "grows ids_grow (insert_key_row env n ty)"
  "grows ids_grow (update_key_type env i ty)" "grows ids_grow (touch_key env i)"
  "t \<noteq> kPropertyKeys \<Longrightarrow> grows ids_grow (insert_value_row env t i x)"
  "t \<noteq> kPropertyKeys \<Longrightarrow> grows ids_grow (upsert_value_row env t i x)"
  "grows ids_grow (delete_value_row env t i)"
  unfolding statement_defs
  by (rule ids_grow_sql; auto simp: grows_def ids_grow_def Let_def split: if_splits)+

lemma ids_grow_basic: "grows ids_grow (ret x)" "grows ids_grow (raise e)" "grows ids_grow (lift r)"
  by (simp_all add: grows_def ids_grow_def)

lemma ValueTableName_not_keys: "ValueTableName ty \<noteq> kPropertyKeys"
  by (auto simp: ValueTableName_def kPropertyKeys_def)

lemma setKey_ids_grow: "grows ids_grow (setKey env name v)"
  unfolding setKey_def insertKey_def updateKey_def update_type_step_def update_value_step_def
    updateKeyTimestamp_def Let_def
  by (intro ids_grow_closure ids_grow_transaction ids_grow_statements ids_grow_basic
      ValueTableName_not_keys)

lemma db_invD: "db_inv d \<Longrightarrow> db_wf d" "db_inv d \<Longrightarrow> db_room d"
  by (simp_all add: db_inv_def)

text \<open>The data store meets its contract, whatever statements fail.\<close>

interpretation store: config_store "getKey env" "setKey env" store_view "stored_as env" db_inv db_room
  for env
proof unfold_locales
  fix n d show "snd (getKey env n d) = d"
    using getKey_reads_only [of env n] by (cases "getKey env n d") (auto dest: reads_onlyD)
next
  fix d n v assume "db_inv d" "fst (getKey env n d) = Inr v"
  then show "v = (case store_view d (c_str n) of None \<Rightarrow> PVMonostate | Some x \<Rightarrow> x)"
    by (rule getKey_value)
next
  fix d n e assume "fst (getKey env n d) = Inl e"
  then show "is_std_exception e"
    using getKey_std [of env n] by (cases "getKey env n d") (auto dest: std_opD)
next
  fix d n v e assume "fst (setKey env n v d) = Inl e"
  then show "snd (setKey env n v d) = d"
    using setKey_atomic [of env n v] by (cases "setKey env n v d") (auto dest: atomic_opD)
next
  fix d n v e assume "fst (setKey env n v d) = Inl e"
  then show "is_std_exception e"
    using setKey_std [of env n v] by (cases "setKey env n v d") (auto dest: std_opD)
next
  fix d n v assume "db_room (snd (setKey env n v d))"
  then show "db_room d"
    using setKey_ids_grow [of env n v] growsD [of ids_grow "setKey env n v" d]
    by (cases "setKey env n v d") (fastforce simp: db_room_def ids_grow_def)
next
  fix d n v assume d: "db_inv d" and r: "db_room (snd (setKey env n v d))"
  show "db_inv (snd (setKey env n v d))"
  proof (cases "setKey env n v d")
    case (Pair res d')
    show ?thesis
    proof (cases res)
      case Inl
      with Pair d setKey_atomic [of env n v] show ?thesis by (auto dest: atomic_opD)
    next
      case (Inr u)
      with Pair d r setKey_success [of env n v d d'] show ?thesis by (simp add: db_inv_def)
    qed
  qed
next
  fix d n v d' assume "db_inv d" "setKey env n v d = (Inr (), d')"
  then show "store_view d' = (store_view d)(c_str n \<mapsto> stored_as env v)"
    using setKey_success by blast
qed

end
