(* ===== verification/DataStore_Run.thy ===== *)
theory DataStore_Run
  imports DataStore_Spec
begin

text \<open>
  The exact behaviour of the data store on an engine that lets no statement fail: what every
  branch of \<open>setKey\<close> returns, opening and creating a database, and the two deletions; and the
  properties of the component.
\<close>

section \<open>The specification of a write\<close>

text \<open>
  What \<open>setKey\<close> does to the abstract content. A key that is null accepts only null: the branch
  that is to give it another type ends in a statement SQLite does not accept.
\<close>

definition set_spec :: "sql_env \<Rightarrow> (string \<Rightarrow> PropertyValue option) \<Rightarrow> string \<Rightarrow> PropertyValue
    \<Rightarrow> exn + (string \<Rightarrow> PropertyValue option)" where
  "set_spec env m name v =
     (case m (c_str name) of
        None \<Rightarrow>
          if name = '''' then Inl (InvalidArgument ''invalid name'')
          else if v = PVMonostate then Inl (InvalidArgument ''invalid value'')
          else Inr (m(c_str name \<mapsto> stored_as env v))
      | Some old \<Rightarrow>
          if old = PVNull then
            (if v = PVNull \<or> v = PVMonostate then Inr (m(c_str name \<mapsto> PVNull))
             else Inl (SqliteError ''syntax error''))
          else if v = PVNull \<or> TypeForValue v = TypeForValue old
          then Inr (m(c_str name \<mapsto> stored_as env v))
          else Inl (InvalidArgument ''changing type of key not allowed''))"

text \<open>No value table has run out of identifiers.\<close>

definition not_full :: "db \<Rightarrow> bool" where
  "not_full d \<longleftrightarrow> (\<forall>t \<in> set value_tables. db_seq d t < max_rowid)"

lemma no_faultD [simp]: "no_fault env \<Longrightarrow> \<not> se_fault env st d"
  by (simp add: no_fault_def)

lemma transaction_run:
  "no_fault env \<Longrightarrow>
   transaction env body d = (case body d of (Inl e, _) \<Rightarrow> (Inl e, d) | (Inr x, d') \<Rightarrow> (Inr x, d'))"
  by (simp add: transaction_def split: prod.splits sum.splits)

lemma find_None_ex: "List.find P xs = None \<Longrightarrow> \<not> (\<exists>x \<in> set xs. P x)"
  by (simp add: find_None_iff_all)

lemma insertKey_runs:
  assumes nf: "no_fault env" and inv: "db_inv d" and fresh: "key_of d (c_str name) = None"
    and n: "name \<noteq> ''''" and v: "v \<noteq> PVMonostate" and room: "not_full d"
  shows "insertKey env name v d = (Inr (), after_insert env (c_str name) v d)"
proof -
  let ?i = "Suc (db_seq d kPropertyKeys)" and ?t = "ValueTableName (TypeForValue v)"
  let ?d1 = "d\<lparr>db_keys := db_keys d @ [new_key_row env (c_str name) v d],
               db_seq := (db_seq d)(kPropertyKeys := ?i)\<rparr>"
  have wf: "db_wf d" using inv by (rule db_invD)
  note tab = wf_tables [OF wf]
  have "db_seq d kPropertyKeys < max_rowid"
    using inv by (simp add: db_inv_def db_room_def max_rowid_def)
  then have key: "insert_key_row env (c_str name) (TypeForValue v) d = (Inr (1, ?i), ?d1)"
    using tab fresh
    by (simp add: insert_key_row_def sql_no_fault [OF nf] key_of_def find_None_iff_all Let_def
        new_key_row_def)
  show ?thesis
  proof (cases "TypeForValue v = vtNull")
    case True
    with n v key show ?thesis
      by (simp add: insertKey_def transaction_run [OF nf] after_insert_def Let_def)
  next
    case False
    then have t: "?t \<in> set value_tables" "?t \<noteq> ''''"
      using ValueTableName_in_tables [OF TypeForValue_range] by auto
    obtain x where x: "BindValue env v = Inr x"
      using BindValue_fits [OF False, of env] by auto
    have free: "\<not> (\<exists>w \<in> set (db_vals d ?t). vr_propertyId w = ?i)"
      using wf_fresh_id(2) [OF wf t(1)] by auto
    have seq: "\<not> max_rowid \<le> db_seq d ?t" using room t by (auto simp: not_full_def)
    have "insert_value_row env ?t ?i x ?d1 = (Inr 1, after_insert env (c_str name) v d)"
      using tab(5) [OF t(1)] free seq False x value_table_not_keys [OF False]
      by (simp add: insert_value_row_def sql_no_fault [OF nf] after_insert_def Let_def new_key_row_def)
    with n v key x False show ?thesis
      by (simp add: insertKey_def transaction_run [OF nf])
  qed
qed

lemma rows_with_id:
  assumes "r \<in> set ks" and "kr_id r = i"
  shows "0 < length (filter (\<lambda>s. kr_id s = i) ks)"
  using assms by (auto simp: filter_empty_conv)

lemma touch_runs:
  assumes "no_fault env" and "kPropertyKeys \<in> set (db_tables d)"
    and "r \<in> set (db_keys d)" and "kr_id r = unat k"
  shows "\<exists>d'. updateKeyTimestamp env k d = (Inr (), d')"
  using assms rows_with_id [OF assms(3,4)]
  by (simp add: updateKeyTimestamp_def touch_key_def sql_no_fault kPropertyKeys_def)

lemma updateKey_runs:
  assumes nf: "no_fault env" and wf: "db_wf d" and r: "r \<in> set (db_keys d)" "kr_id r = unat k"
    and allowed: "TypeForValue v = vtNull \<or> TypeForValue v = kr_type r"
  shows "\<exists>d'. updateKey env k (kr_type r) v d = (Inr (), d')"
proof -
  let ?new = "TypeForValue v" and ?old = "kr_type r"
  note tab = wf_tables [OF wf]
  show ?thesis
  proof (cases "?new = ?old")
    case True
    then have s1: "update_type_step env k ?old ?new d = (Inr (), d)"
      by (simp add: update_type_step_def)
    show ?thesis
    proof (cases "?new = vtNull")
      case null: True
      then have "update_value_step env k v d = (Inr (), d)" by (simp add: update_value_step_def)
      with s1 touch_runs [OF nf tab(3) r] show ?thesis
        by (auto simp: updateKey_def transaction_run [OF nf])
    next
      case False
      then have t: "ValueTableName ?new \<in> set value_tables"
        using ValueTableName_in_tables [OF TypeForValue_range] by auto
      obtain x where x: "BindValue env v = Inr x"
        using BindValue_fits [OF False, of env] by auto
      have "\<exists>w \<in> set (db_vals d (ValueTableName ?new)). vr_propertyId w = kr_id r"
        using wf r(1) False True unfolding db_wf_def vals_ok_def by metis
      then obtain vs where "update_value_step env k v d = (Inr (), d\<lparr>db_vals := vs\<rparr>)"
        using tab(5) [OF t] False x r(2)
        by (simp add: update_value_step_def upsert_value_row_def sql_no_fault [OF nf])
      with s1 touch_runs [OF nf, of "d\<lparr>db_vals := vs\<rparr>" r k] tab(3) r show ?thesis
        by (auto simp: updateKey_def transaction_run [OF nf])
    qed
  next
    case False
    with allowed have null: "?new = vtNull" by simp
    from wf r have "?old \<in> {vtNull, vtString, vtBlob, vtInteger, vtReal}"
      by (auto simp: db_wf_def keys_ok_def)
    with False null have t: "ValueTableName ?old \<in> set value_tables"
      using ValueTableName_in_tables by auto
    let ?ks = "map (\<lambda>s. if kr_id s = unat k then s\<lparr>kr_type := ?new\<rparr> else s) (db_keys d)"
    obtain vs where s1: "update_type_step env k ?old ?new d
        = (Inr (), d\<lparr>db_keys := ?ks, db_vals := vs\<rparr>)"
      using False tab tab(5) [OF t] rows_with_id [OF r]
      by (simp add: update_type_step_def update_key_type_def delete_value_row_def
          sql_no_fault [OF nf])
    have new: "r\<lparr>kr_type := ?new\<rparr> \<in> set ?ks" using r by force
    have "\<exists>d'. updateKeyTimestamp env k (d\<lparr>db_keys := ?ks, db_vals := vs\<rparr>) = (Inr (), d')"
      by (rule touch_runs [OF nf, where r = "r\<lparr>kr_type := ?new\<rparr>"])
        (use new tab(3) r in simp_all)
    with s1 null show ?thesis
      by (auto simp: updateKey_def transaction_run [OF nf] update_value_step_def)
  qed
qed

lemma delete_value_row_unnamed:
  "no_fault env \<Longrightarrow> delete_value_row env '''' i d = (Inl (SqliteError ''syntax error''), d)"
  by (simp add: delete_value_row_def sql_def run_stmt_def on_table_def)

lemma updateKey_from_null_runs:
  assumes nf: "no_fault env" and wf: "db_wf d" and r: "r \<in> set (db_keys d)" "kr_id r = unat k"
    and new: "TypeForValue v \<noteq> vtNull"
  shows "updateKey env k vtNull v d = (Inl (SqliteError ''syntax error''), d)"
  using wf_tables [OF wf] rows_with_id [OF r] new nf
  by (simp add: updateKey_def transaction_run [OF nf] update_type_step_def update_key_type_def
      delete_value_row_unnamed [OF nf] sql_no_fault [OF nf] bindE_app)

lemma store_view_key_type:
  assumes wf: "db_wf d" and k: "key_of d n = Some r" and old: "store_view d n = Some old"
  shows "TypeForValue old = kr_type r" and "old = PVNull \<longleftrightarrow> kr_type r = vtNull"
    and "old \<noteq> PVMonostate"
proof -
  have "TypeForValue old = kr_type r \<and> (old = PVNull \<longleftrightarrow> kr_type r = vtNull) \<and> old \<noteq> PVMonostate"
  proof (cases "kr_type r = vtNull")
    case True
    with k old show ?thesis by (auto simp: store_view_def)
  next
    case False
    obtain x where x: "fits (kr_type r) x" "store_view d n = Some (value_of x)"
      using store_view_type [OF wf k False] .
    with old False show ?thesis by (cases x) auto
  qed
  then show "TypeForValue old = kr_type r" and "old = PVNull \<longleftrightarrow> kr_type r = vtNull"
    and "old \<noteq> PVMonostate" by auto
qed

lemma store_view_None_iff: "db_wf d \<Longrightarrow> store_view d n = None \<longleftrightarrow> key_of d n = None"
proof -
  assume wf: "db_wf d"
  show ?thesis
  proof (cases "key_of d n")
    case None
    then show ?thesis by (simp add: store_view_def)
  next
    case (Some r)
    then show ?thesis
      using store_view_type [OF wf Some] by (cases "kr_type r = vtNull") (auto simp: store_view_def)
  qed
qed

lemma setKey_exact:
  assumes nf: "no_fault env" and inv: "db_inv d" and room: "not_full d"
  shows "(case set_spec env (store_view d) name v of
            Inl e \<Rightarrow> setKey env name v d = (Inl e, d)
          | Inr m \<Rightarrow> \<exists>d'. setKey env name v d = (Inr (), d') \<and> store_view d' = m)"
proof (cases "key_of d (c_str name)")
  case None
  have wf: "db_wf d" using inv by (rule db_invD)
  have set: "setKey env name v d = insertKey env name v d"
    using None by (simp add: setKey_def select_key_info_run [OF nf wf])
  have view: "store_view d (c_str name) = None" using None by (simp add: store_view_def)
  show ?thesis
  proof (cases "name = '''' \<or> v = PVMonostate")
    case True
    then show ?thesis using set view by (auto simp: set_spec_def insertKey_def)
  next
    case False
    with insertKey_runs [OF nf inv None _ _ room] after_insert_view [OF wf None]
    show ?thesis by (simp add: set view set_spec_def)
  qed
next
  case (Some r)
  have wf: "db_wf d" using inv by (rule db_invD)
  let ?k = "of_nat (kr_id r) :: u32"
  from Some have r: "r \<in> set (db_keys d)" by (auto dest: key_of_SomeD)
  with inv have id: "kr_id r = unat ?k" by (simp add: rowid_fits)
  obtain old where old: "store_view d (c_str name) = Some old"
    using Some store_view_None_iff [OF wf, of "c_str name"] by auto
  note ty = store_view_key_type [OF wf Some old]
  have set: "setKey env name v d =
      (if kr_type r = vtNull \<or> v = PVNull \<or> kr_type r = TypeForValue v
       then updateKey env ?k (kr_type r) v d
       else (Inl (InvalidArgument ''changing type of key not allowed''), d))"
    using Some by (simp add: setKey_def select_key_info_run [OF nf wf] Let_def)
  show ?thesis
  proof (cases "kr_type r = vtNull \<and> TypeForValue v \<noteq> vtNull")
    case True
    with updateKey_from_null_runs [OF nf wf r id] ty old set show ?thesis
      by (auto simp: set_spec_def TypeForValue_Null_iff)
  next
    case False
    show ?thesis
    proof (cases "kr_type r = vtNull \<or> v = PVNull \<or> kr_type r = TypeForValue v")
      case upd: True
      have "TypeForValue v = vtNull \<or> TypeForValue v = kr_type r"
        using upd False by (auto simp: TypeForValue_Null_iff)
      from updateKey_runs [OF nf wf r id this] upd set
      obtain d' where d': "setKey env name v d = (Inr (), d')" by auto
      from setKey_success [OF d' inv]
      have "store_view d' = (store_view d)(c_str name \<mapsto> stored_as env v)" by simp
      with d' old ty upd False show ?thesis
        by (auto simp: set_spec_def TypeForValue_Null_iff)
    next
      case no: False
      with set old ty show ?thesis by (auto simp: set_spec_def)
    qed
  qed
qed

section \<open>Deleting\<close>

definition after_delete :: "(string \<Rightarrow> bool) \<Rightarrow> db \<Rightarrow> db" where
  "after_delete P d =
     (let gone = map kr_id (filter (\<lambda>r. P (kr_key r)) (db_keys d)) in
      d\<lparr>db_keys := filter (\<lambda>r. \<not> P (kr_key r)) (db_keys d),
        db_vals := (\<lambda>t. if t \<in> set value_tables
                        then filter (\<lambda>v. vr_propertyId v \<notin> set gone) (db_vals d t)
                        else db_vals d t)\<rparr>)"

lemma delete_key_rows_result:
  "delete_key_rows env P d = (r, d') \<Longrightarrow>
   (\<exists>e. r = Inl e \<and> d' = d \<and> is_std_exception e)
   \<or> (r = Inr (length (filter (\<lambda>r. P (kr_key r)) (db_keys d))) \<and> d' = after_delete P d)"
  by (auto simp: delete_key_rows_def sql_def run_stmt_result on_table_def after_delete_def Let_def
      split: if_splits)

lemma delete_key_rows_runs:
  "no_fault env \<Longrightarrow> db_wf d \<Longrightarrow>
   delete_key_rows env P d
   = (Inr (length (filter (\<lambda>r. P (kr_key r)) (db_keys d))), after_delete P d)"
  using wf_tables [of d] by (simp add: delete_key_rows_def sql_no_fault after_delete_def Let_def)

lemma after_delete_simps [simp]:
  "db_keys (after_delete P d) = filter (\<lambda>r. \<not> P (kr_key r)) (db_keys d)"
  "db_tables (after_delete P d) = db_tables d"
  "db_meta (after_delete P d) = db_meta d"
  "db_seq (after_delete P d) = db_seq d"
  by (simp_all add: after_delete_def Let_def)

lemma gone_iff:
  assumes "db_wf d" and "r \<in> set (db_keys d)"
  shows "(\<exists>s \<in> set (db_keys d). P (kr_key s) \<and> kr_id s = kr_id r) \<longleftrightarrow> P (kr_key r)"
proof -
  have "distinct (map kr_id (db_keys d))" using assms(1) by (simp add: db_wf_def keys_ok_def)
  then have "s = r" if "s \<in> set (db_keys d)" "kr_id s = kr_id r" for s
    using that assms(2) by (metis distinct_map inj_onD)
  with assms(2) show ?thesis by blast
qed

lemma after_delete_vals:
  assumes "db_wf d" and "t \<in> set value_tables"
  shows "set (db_vals (after_delete P d) t)
         = {v \<in> set (db_vals d t). \<exists>r \<in> set (db_keys d). kr_id r = vr_propertyId v \<and> \<not> P (kr_key r)}"
proof -
  have "vr_propertyId v \<in> kr_id ` {s \<in> set (db_keys d). P (kr_key s)}
        \<longleftrightarrow> \<not> (\<exists>r \<in> set (db_keys d). kr_id r = vr_propertyId v \<and> \<not> P (kr_key r))"
    if v: "v \<in> set (db_vals d t)" for v
  proof -
    obtain s where s: "s \<in> set (db_keys d)" "kr_id s = vr_propertyId v"
      using assms v unfolding db_wf_def vals_ok_def by metis
    have "kr_id s \<in> kr_id ` {s \<in> set (db_keys d). P (kr_key s)}
          \<longleftrightarrow> (\<exists>x \<in> set (db_keys d). P (kr_key x) \<and> kr_id x = kr_id s)"
      by (fastforce simp: image_iff)
    moreover have "(\<exists>r \<in> set (db_keys d). kr_id r = kr_id s \<and> \<not> P (kr_key r)) \<longleftrightarrow> \<not> P (kr_key s)"
      using gone_iff [OF assms(1) s(1), of "\<lambda>k. \<not> P k"] by blast
    ultimately show ?thesis
      unfolding s(2) [symmetric] using gone_iff [OF assms(1) s(1), of P] by (simp only: not_not)
  qed
  with assms(2) show ?thesis by (auto simp: after_delete_def Let_def)
qed

lemma after_delete_wf:
  assumes wf: "db_wf d"
  shows "db_wf (after_delete P d)"
proof -
  let ?d' = "after_delete P d"
  have "tables_ok ?d'" and "keys_ok ?d'"
    using wf by (auto simp: db_wf_def tables_ok_def keys_ok_def distinct_map_filter)
  moreover have "vals_ok ?d'"
    unfolding vals_ok_def
  proof (intro conjI ballI impI)
    fix t assume t: "t \<in> set value_tables"
    with wf show "distinct (map vr_propertyId (db_vals ?d' t))"
      by (simp add: after_delete_def Let_def db_wf_def vals_ok_def distinct_map_filter)
    fix v assume "v \<in> set (db_vals ?d' t)"
    then obtain r where v: "v \<in> set (db_vals d t)"
      and r: "r \<in> set (db_keys d)" "kr_id r = vr_propertyId v" "\<not> P (kr_key r)"
      by (auto simp: after_delete_vals [OF wf t])
    from wf t v obtain s where s: "s \<in> set (db_keys d)" "kr_id s = vr_propertyId v"
      "ValueTableName (kr_type s) = t" "fits (kr_type s) (vr_value v)"
      unfolding db_wf_def vals_ok_def by metis
    have "distinct (map kr_id (db_keys d))" using wf by (simp add: db_wf_def keys_ok_def)
    with r s have "s = r" by (metis distinct_map inj_onD)
    with r s show "\<exists>r\<in>set (db_keys ?d'). kr_id r = vr_propertyId v \<and>
          ValueTableName (kr_type r) = t \<and> fits (kr_type r) (vr_value v)" by auto
  next
    fix r assume r: "r \<in> set (db_keys ?d')" and nn: "kr_type r \<noteq> vtNull"
    then have r': "r \<in> set (db_keys d)" "\<not> P (kr_key r)" by auto
    from wf r'(1) have "kr_type r \<in> {vtNull, vtString, vtBlob, vtInteger, vtReal}"
      by (auto simp: db_wf_def keys_ok_def)
    then have t: "ValueTableName (kr_type r) \<in> set value_tables"
      using ValueTableName_in_tables nn by blast
    obtain v where "v \<in> set (db_vals d (ValueTableName (kr_type r)))" "vr_propertyId v = kr_id r"
      using wf r'(1) nn unfolding db_wf_def vals_ok_def by metis
    with r' show "\<exists>v\<in>set (db_vals ?d' (ValueTableName (kr_type r))). vr_propertyId v = kr_id r"
      unfolding after_delete_vals [OF wf t] by (metis (mono_tags, lifting) mem_Collect_eq)
  qed
  ultimately show ?thesis by (simp add: db_wf_def)
qed

lemma after_delete_key_of:
  "key_of (after_delete P d) n = (if P n then None else key_of d n)"
  by (auto simp: key_of_def find_filter find_None_iff_all intro!: arg_cong [where f = "\<lambda>p. List.find p _"])

lemma after_delete_val_of:
  assumes wf: "db_wf d" and r: "r \<in> set (db_keys d)" "\<not> P (kr_key r)"
  shows "val_of (after_delete P d) t (kr_id r) = val_of d t (kr_id r)"
proof -
  have "kr_id r \<notin> kr_id ` {x \<in> set (db_keys d). P (kr_key x)}"
    using gone_iff [OF wf r(1), of P] r(2) by (metis (mono_tags, lifting) imageE mem_Collect_eq)
  then have "(vr_propertyId v \<notin> kr_id ` {x \<in> set (db_keys d). P (kr_key x)}
              \<and> vr_propertyId v = kr_id r) = (vr_propertyId v = kr_id r)" for v :: val_row by metis
  then show ?thesis by (simp add: val_of_def after_delete_def Let_def find_filter)
qed

lemma after_delete_view:
  assumes wf: "db_wf d"
  shows "store_view (after_delete P d) n = (if P n then None else store_view d n)"
proof (cases "P n")
  case True
  then show ?thesis by (simp add: store_view_def after_delete_key_of)
next
  case False
  then show ?thesis
    using after_delete_val_of [OF wf, of _ P] key_of_SomeD [of d n]
    by (auto simp: store_view_def after_delete_key_of split: option.splits)
qed



section \<open>Opening\<close>

lemma run_stmt_runs:
  "no_fault env \<Longrightarrow>
   run_stmt env st body d = (case body d of (Inl e, _) \<Rightarrow> (Inl e, d) | (Inr x, d') \<Rightarrow> (Inr x, d'))"
  by (simp add: run_stmt_def)

text \<open>The database \<open>initSchema\<close> builds.\<close>

definition fresh_db :: "sql_env \<Rightarrow> string \<Rightarrow> db" where
  "fresh_db env ver =
     empty_db\<lparr>db_tables := kMetaTableName # kPropertyKeys # value_tables,
              db_meta := [\<lparr>mr_id = 1, mr_key = ''creator.swversion'', mr_value = ver\<rparr>,
                          \<lparr>mr_id = 2, mr_key = ''creator.timestamp'', mr_value = show_nat (se_now env)\<rparr>,
                          \<lparr>mr_id = 3, mr_key = ''schema.version'', mr_value = show_nat 1\<rparr>],
              db_seq := (\<lambda>_. 0)(kMetaTableName := 3)\<rparr>"

lemma create_table_runs:
  "no_fault env \<Longrightarrow> t \<notin> set (db_tables d) \<Longrightarrow>
   create_table env t d = (Inr (), d\<lparr>db_tables := db_tables d @ [t]\<rparr>)"
  by (simp add: create_table_def run_stmt_runs)

lemma create_tables_runs:
  "no_fault env \<Longrightarrow> distinct ts \<Longrightarrow> set ts \<inter> set (db_tables d) = {} \<Longrightarrow>
   create_tables env ts d = (Inr (), d\<lparr>db_tables := db_tables d @ ts\<rparr>)"
  by (induction ts arbitrary: d) (auto simp: create_table_runs)

lemma initSchema_runs:
  assumes nf: "no_fault env"
  shows "initSchema env ver empty_db = (Inr (), fresh_db env ver)"
proof -
  have "create_tables env (kMetaTableName # kPropertyKeys # value_tables) empty_db
        = (Inr (), empty_db\<lparr>db_tables := kMetaTableName # kPropertyKeys # value_tables\<rparr>)"
    by (subst create_tables_runs [OF nf]) (simp_all add: table_names empty_db_def)
  then show ?thesis
    by (simp add: initSchema_def transaction_run [OF nf] insert_meta_def sql_no_fault [OF nf]
        fresh_db_def kMetaTableName_def kCurrentSchemaVersion_def empty_db_def Let_def
        fun_eq_iff numeral_eq_Suc)
qed

definition schema_version_row :: "db \<Rightarrow> string option" where
  "schema_version_row d =
     map_option mr_value (List.find (\<lambda>r. mr_key r = ''schema.version'') (db_meta d))"

definition schema_ok :: "db \<Rightarrow> bool" where
  "schema_ok d \<longleftrightarrow> kMetaTableName \<in> set (db_tables d)
     \<and> schema_version_row d = Some (show_nat kCurrentSchemaVersion)"

lemma open_existing:
  assumes nf: "no_fault env" and d: "kMetaTableName \<in> set (db_tables d)"
  shows "open_DataStore env ver d =
     ((case schema_version_row d of None \<Rightarrow> Inl (Undefined ''std::string(nullptr)'')
       | Some str \<Rightarrow> bindS (c_stoul str) (\<lambda>version.
           if kCurrentSchemaVersion < unat version
           then Inl (RuntimeError ''unsupported schema version'') else Inr ())), d)"
proof -
  have "c_str ''schema.version'' = ''schema.version''"
    by (simp add: NUL_def)
  then show ?thesis
    using d nf by (auto simp: open_DataStore_def run_stmt_runs schema_version_row_def getMetaValue_def
        select_meta_def sql_no_fault bindE_app bindS_def kMetaTableName_def split: sum.splits
        option.splits)
qed

lemma reopen_runs:
  assumes nf: "no_fault env" and d: "schema_ok d"
  shows "open_DataStore env ver d = (Inr (), d)"
proof -
  have "c_stoul (show_nat kCurrentSchemaVersion) = Inr 1"
    using stoul_show_nat [of 1] by (simp add: kCurrentSchemaVersion_def)
  with d show ?thesis
    by (simp add: open_existing [OF nf] schema_ok_def) (simp add: kCurrentSchemaVersion_def)
qed

lemma fresh_db_ok: "db_inv (fresh_db env ver)" "schema_ok (fresh_db env ver)"
  "not_full (fresh_db env ver)" "store_view (fresh_db env ver) = Map.empty"
  by (auto simp: db_inv_def db_wf_def tables_ok_def keys_ok_def vals_ok_def db_room_def fresh_db_def
      empty_db_def schema_ok_def schema_version_row_def kCurrentSchemaVersion_def not_full_def
      max_rowid_def table_names store_view_def key_of_def)

lemma open_fresh_runs:
  assumes nf: "no_fault env"
  shows "open_DataStore env ver empty_db = (Inr (), fresh_db env ver)"
proof -
  have "open_DataStore env ver empty_db = open_DataStore env ver (fresh_db env ver)"
    using initSchema_runs [OF nf, of ver]
    by (simp add: open_DataStore_def run_stmt_runs [OF nf] bindE_app)
       (simp add: empty_db_def fresh_db_def)
  also have "\<dots> = (Inr (), fresh_db env ver)"
    by (rule reopen_runs [OF nf fresh_db_ok(2)])
  finally show ?thesis .
qed

section \<open>One write hands out at most one identifier\<close>

definition same_ids :: "db \<Rightarrow> db \<Rightarrow> bool" where
  "same_ids d d' \<longleftrightarrow> db_seq d' kPropertyKeys = db_seq d kPropertyKeys"

lemma same_ids_order: "reflp same_ids" "transp same_ids"
  by (auto simp: same_ids_def reflp_def transp_def)

lemmas same_ids_closure = grows_bindE [OF same_ids_order(2)] grows_if grows_option grows_prod

lemma same_ids_sql: "grows same_ids body \<Longrightarrow> grows same_ids (sql env k t body)"
  unfolding grows_def sql_def by (auto simp: run_stmt_result on_table_result same_ids_def)

lemma same_ids_transaction: "grows same_ids body \<Longrightarrow> grows same_ids (transaction env body)"
  unfolding grows_def by (auto simp: transaction_result) (auto simp: same_ids_def)

lemma same_ids_statements:
  "grows same_ids (update_key_type env i ty)" "grows same_ids (touch_key env i)"
  "t \<noteq> kPropertyKeys \<Longrightarrow> grows same_ids (upsert_value_row env t i x)"
  "grows same_ids (delete_value_row env t i)"
  unfolding statement_defs
  by (rule same_ids_sql; auto simp: grows_def same_ids_def Let_def split: if_splits)+

lemma same_ids_basic: "grows same_ids (ret x)" "grows same_ids (raise e)" "grows same_ids (lift r)"
  by (simp_all add: grows_def same_ids_def)

lemma updateKey_same_ids: "grows same_ids (updateKey env k ty v)"
  unfolding updateKey_def update_type_step_def update_value_step_def updateKeyTimestamp_def
  by (intro same_ids_closure same_ids_transaction same_ids_statements same_ids_basic
      ValueTableName_not_keys)

lemma setKey_one_id:
  assumes "setKey env n v d = (Inr (), d')"
  shows "db_seq d' kPropertyKeys \<le> Suc (db_seq d kPropertyKeys)"
proof -
  obtain info d1 where sel: "select_key_info env (c_str n) d = (Inr info, d1)"
    using assms by (auto simp: setKey_def elim: bindE_InrE)
  have d1: "d1 = d" using reads_onlyD [OF read_statements(1) sel] .
  show ?thesis
  proof (cases info)
    case None
    with assms sel d1 have "insertKey env n v d = (Inr (), d')" by (simp add: setKey_def)
    from insertKey_success(1) [OF this] show ?thesis by simp
  next
    case (Some p)
    obtain rowid ty where "p = (rowid, ty)" by (cases p)
    with assms sel d1 Some have "updateKey env (of_nat rowid) ty v d = (Inr (), d')"
      by (auto simp: setKey_def Let_def split: if_splits)
    from growsD [OF updateKey_same_ids this] show ?thesis by (simp add: same_ids_def)
  qed
qed

end
