(* ===== verification/DataStore_Correct.thy ===== *)
theory DataStore_Correct
  imports DataStore_Run
begin

text \<open>
  The properties of the data store: a write refines its specification, a read returns the content,
  a write is read back and is all or nothing under any faults, the invariant holds after any
  sequence of calls, the content survives a restart, and the two defects of the component (a null
  key cannot be given a value, a key cannot be deleted).
\<close>

section \<open>The pattern of \<open>deleteSubkeys\<close>\<close>

definition like_plain :: "string \<Rightarrow> bool" where
  "like_plain p \<longleftrightarrow> CHR ''%'' \<notin> set p \<and> CHR ''_'' \<notin> set p"

lemma sql_like_percent: "sql_like ''%'' s"
  by (induction s) (simp_all add: sql_like.simps)

lemma sql_like_plain:
  "like_plain p \<Longrightarrow>
   sql_like (p @ q) s \<longleftrightarrow>
     length p \<le> length s \<and> map ascii_lower p = map ascii_lower (take (length p) s)
     \<and> sql_like q (drop (length p) s)"
proof (induction p arbitrary: s)
  case (Cons c p)
  then have "like_plain p" "c \<noteq> CHR ''%''" "c \<noteq> CHR ''_''" by (auto simp: like_plain_def)
  with Cons.IH show ?case
    by (cases s) (auto simp: sql_like.simps(2) [of c])
qed simp

lemma sql_like_children:
  assumes "like_plain p"
  shows "sql_like (p @ ''.%'') s \<longleftrightarrow> prefix (map ascii_lower (p @ ''.'')) (map ascii_lower s)"
proof -
  have "like_plain (p @ ''.'')" using assms by (simp add: like_plain_def)
  from sql_like_plain [OF this, of "''%''" s]
  have "sql_like (p @ ''.%'') s \<longleftrightarrow>
        length (p @ ''.'') \<le> length s
        \<and> map ascii_lower (p @ ''.'') = map ascii_lower (take (length (p @ ''.'')) s)"
    by (simp add: sql_like_percent)
  also have "\<dots> \<longleftrightarrow> prefix (map ascii_lower (p @ ''.'')) (map ascii_lower s)"
    unfolding prefix_iff_take [of "map ascii_lower (p @ ''.'')"] by (simp add: take_map)
  finally show ?thesis .
qed

section \<open>Sequences of calls\<close>

datatype store_call =
    GetKey string
  | SetKey string PropertyValue
  | DeleteKey string
  | DeleteSubkeys string

fun run_call :: "sql_env \<Rightarrow> store_call \<Rightarrow> db \<Rightarrow> db" where
  "run_call env (GetKey n) d = snd (getKey env n d)"
| "run_call env (SetKey n v) d = snd (setKey env n v d)"
| "run_call env (DeleteKey n) d = snd (deleteKey env n d)"
| "run_call env (DeleteSubkeys p) d = snd (deleteSubkeys env p d)"

text \<open>Every call runs on an engine of its own: what fails may change from call to call.\<close>

fun run_calls :: "(sql_env \<times> store_call) list \<Rightarrow> db \<Rightarrow> db" where
  "run_calls [] d = d"
| "run_calls ((env, c) # cs) d = run_calls cs (run_call env c d)"

lemma deleteKey_fails:
  "deleteKey env n d = (Inl (SqliteError ''column index out of range''), d)"
  by (simp add: deleteKey_def hasChildren_def sql_bind_def bindE_app)

lemma deleteSubkeys_cases:
  "snd (deleteSubkeys env p d) = d
   \<or> snd (deleteSubkeys env p d) = after_delete (sql_like (p @ ''.%'')) d"
  using delete_key_rows_result [of env "sql_like (p @ ''.%'')" d]
  by (cases "deleteSubkeys env p d") (auto simp: deleteSubkeys_def)

text \<open>What no call changes: the tables and the meta data.\<close>

definition same_schema :: "db \<Rightarrow> db \<Rightarrow> bool" where
  "same_schema d d' \<longleftrightarrow> db_tables d' = db_tables d \<and> db_meta d' = db_meta d"

lemma same_schema_order: "reflp same_schema" "transp same_schema"
  by (auto simp: same_schema_def reflp_def transp_def)

lemmas same_schema_closure = grows_bindE [OF same_schema_order(2)] grows_if grows_option grows_prod

lemma same_schema_sql: "grows same_schema body \<Longrightarrow> grows same_schema (sql env k t body)"
  unfolding grows_def sql_def by (auto simp: run_stmt_result on_table_result same_schema_def)

lemma same_schema_transaction:
  "grows same_schema body \<Longrightarrow> grows same_schema (transaction env body)"
  unfolding grows_def by (auto simp: transaction_result) (auto simp: same_schema_def)

lemma same_schema_statements:
  "grows same_schema (select_key_info env n)" "grows same_schema (insert_key_row env n ty)"
  "grows same_schema (update_key_type env i ty)" "grows same_schema (touch_key env i)"
  "grows same_schema (insert_value_row env t i x)" "grows same_schema (upsert_value_row env t i x)"
  "grows same_schema (delete_value_row env t i)"
  unfolding statement_defs
  by (rule same_schema_sql; auto simp: grows_def same_schema_def Let_def split: if_splits)+

lemma same_schema_basic:
  "grows same_schema (ret x)" "grows same_schema (raise e)" "grows same_schema (lift r)"
  by (simp_all add: grows_def same_schema_def)

lemma setKey_same_schema: "grows same_schema (setKey env name v)"
  unfolding setKey_def insertKey_def updateKey_def update_type_step_def update_value_step_def
    updateKeyTimestamp_def Let_def
  by (intro same_schema_closure same_schema_transaction same_schema_statements same_schema_basic)

lemma run_call_mono:
  "ids_grow d (run_call env c d) \<and> same_schema d (run_call env c d)"
proof (cases c)
  case (SetKey n v)
  then show ?thesis
    using growsD [OF setKey_ids_grow [of env n v], of d] growsD [OF setKey_same_schema [of env n v], of d]
    by (cases "setKey env n v d") auto
next
  case (DeleteSubkeys p)
  then show ?thesis
    using deleteSubkeys_cases [of env p d] by (auto simp: ids_grow_def same_schema_def)
qed (simp_all add: store.get_state deleteKey_fails ids_grow_def same_schema_def)

lemma run_calls_mono:
  "ids_grow d (run_calls cs d) \<and> same_schema d (run_calls cs d)"
proof (induction cs arbitrary: d)
  case Nil
  then show ?case by (simp add: ids_grow_def same_schema_def)
next
  case (Cons ec cs)
  then show ?case
    using run_call_mono [of d "fst ec" "snd ec"] ids_grow_order(2) same_schema_order(2)
    by (cases ec) (auto dest: transpD)
qed

lemma run_call_inv:
  assumes d: "db_inv d" and room: "db_room (run_call env c d)"
  shows "db_inv (run_call env c d)"
proof (cases c)
  case (SetKey n v)
  with store.put_invar [OF d, of env n v] room show ?thesis by simp
next
  case (DeleteSubkeys p)
  with deleteSubkeys_cases [of env p d] d show ?thesis
    by (auto simp: db_inv_def db_room_def after_delete_wf)
qed (use d in \<open>simp_all add: store.get_state deleteKey_fails\<close>)

lemma run_calls_inv:
  assumes "db_inv d" and "db_room (run_calls cs d)"
  shows "db_inv (run_calls cs d)"
  using assms
proof (induction cs arbitrary: d)
  case (Cons ec cs)
  obtain env c where ec: "ec = (env, c)" by (cases ec)
  let ?d = "run_call env c d"
  have "db_room ?d"
    using Cons.prems(2) run_calls_mono [of ?d cs] by (auto simp: ec db_room_def ids_grow_def)
  with Cons show ?case by (simp add: ec run_call_inv)
qed simp
text \<open>A write to a key that is null.\<close>

lemma set_on_null:
  assumes inv: "db_inv d" and null: "store_view d (c_str k) = Some PVNull"
  shows "\<forall>env v. v \<noteq> PVNull \<and> v \<noteq> PVMonostate \<longrightarrow> (\<exists>e. setKey env k v d = (Inl e, d))"
proof (intro allI impI)
  fix env v assume v: "v \<noteq> PVNull \<and> v \<noteq> PVMonostate"
  have wf: "db_wf d" using inv by (rule db_invD)
  obtain r where r: "key_of d (c_str k) = Some r"
    using null store_view_None_iff [OF wf, of "c_str k"] by (cases "key_of d (c_str k)") auto
  with store_view_key_type(2) [OF wf r null] have ty: "kr_type r = vtNull" by simp
  show "\<exists>e. setKey env k v d = (Inl e, d)"
  proof (cases "select_key_info env (c_str k) d")
    case (Pair res d1)
    with reads_onlyD [OF read_statements(1) Pair] have d1: "d1 = d" by simp
    show ?thesis
    proof (cases res)
      case (Inl e)
      with Pair d1 show ?thesis by (simp add: setKey_def)
    next
      case (Inr i)
      with Pair d1 r select_key_info_ok [of env "c_str k" d i d1]
      have "setKey env k v d = updateKey env (of_nat (kr_id r)) vtNull v d"
        by (simp add: setKey_def ty)
      with update_from_null_fails [of v env "of_nat (kr_id r)" d] v show ?thesis
        by (auto simp: TypeForValue_Null_iff)
    qed
  qed
qed

lemma set_on_null_view:
  assumes inv: "db_inv d" and null: "store_view d (c_str k) = Some PVNull"
  shows "store_view (snd (setKey env k v d)) (c_str k) = Some PVNull"
proof (cases "setKey env k v d")
  case (Pair r d')
  show ?thesis
  proof (cases r)
    case Inl
    with Pair null store.put_atomic [of env k v d] show ?thesis by simp
  next
    case (Inr u)
    have "v = PVNull \<or> v = PVMonostate"
    proof (rule ccontr)
      assume "\<not> (v = PVNull \<or> v = PVMonostate)"
      with set_on_null [OF inv null] obtain e where "setKey env k v d = (Inl e, d)" by blast
      with Pair Inr show False by simp
    qed
    with Pair Inr store.put_view [OF inv, of env k v d'] show ?thesis by auto
  qed
qed

section \<open>Properties\<close>

text \<open>An engine for the witnesses: nothing fails, the clock stands still.\<close>

definition quiet :: sql_env where
  "quiet = \<lparr>se_fault = (\<lambda>_ _. False), se_now = 0, se_real = (\<lambda>x. x), se_text = (\<lambda>_. ''''),
            se_int = (\<lambda>_. 0), se_double = (\<lambda>_. 0)\<rparr>"

lemma quiet_no_fault [simp]: "no_fault quiet"
  by (simp add: quiet_def no_fault_def)

definition demo_db :: db where
  "demo_db = fresh_db quiet ''1.0''"

lemma demo_db_ok [simp]: "db_inv demo_db" "not_full demo_db" "schema_ok demo_db"
  "store_view demo_db = Map.empty"
  by (simp_all add: demo_db_def fresh_db_ok)

lemma demo_set:
  assumes "n \<noteq> ''''" and "v \<noteq> PVMonostate"
  obtains d' where "setKey quiet n v demo_db = (Inr (), d')" and "db_inv d'"
    and "store_view d' = [c_str n \<mapsto> stored_as quiet v]" and "schema_ok d'"
proof -
  have k: "key_of demo_db (c_str n) = None"
    by (simp add: demo_db_def fresh_db_def empty_db_def key_of_def)
  have set: "setKey quiet n v demo_db = (Inr (), after_insert quiet (c_str n) v demo_db)"
    using insertKey_runs [OF quiet_no_fault demo_db_ok(1) k assms demo_db_ok(2)] k
    by (simp add: setKey_def select_key_info_run db_invD [OF demo_db_ok(1)])
  have "db_room (after_insert quiet (c_str n) v demo_db)"
    by (simp add: db_room_def) (simp add: demo_db_def fresh_db_def table_names)
  moreover have "schema_ok (after_insert quiet (c_str n) v demo_db)"
    using growsD [OF setKey_same_schema set] demo_db_ok(3)
    by (simp add: schema_ok_def same_schema_def schema_version_row_def)
  ultimately show thesis
    using that [OF set] setKey_success [OF set demo_db_ok(1)] by (simp add: db_inv_def)
qed

text \<open>C4. On an engine that lets no statement fail, \<open>setKey\<close> implements its specification exactly:
  the content changes at the written key only, to the stored form of the value, and every
  rejected write (an empty name, no value, a change of type, a null key) raises the stated
  exception and leaves the database as it was.\<close>

theorem setKey_refines_spec:
  assumes "no_fault env" and "db_inv d" and "not_full d"
  shows "(case set_spec env (store_view d) name v of
            Inl e \<Rightarrow> setKey env name v d = (Inl e, d)
          | Inr m \<Rightarrow> \<exists>d'. setKey env name v d = (Inr (), d') \<and> store_view d' = m)"
  using assms by (rule setKey_exact)

lemma setKey_refines_spec_witness:
  "\<exists>d'. setKey quiet ''a.b'' (PVBool True) demo_db = (Inr (), d')
        \<and> store_view d' = [''a.b'' \<mapsto> PVInteger 1]"
  using setKey_refines_spec [of quiet demo_db "''a.b''" "PVBool True"]
  by (simp add: set_spec_def NUL_def)

text \<open>C11. \<open>getKey\<close> never changes the database; a value it returns is the content of the key (the
  empty alternative for a key that is not there); what it throws is a standard exception; and on
  an engine that lets no statement fail it returns.\<close>

theorem getKey_returns_content:
  assumes "db_inv d" and "getKey env n d = (r, d')"
  shows "d' = d
    \<and> (case r of Inl e \<Rightarrow> is_std_exception e
        | Inr v \<Rightarrow> v = (case store_view d (c_str n) of None \<Rightarrow> PVMonostate | Some x \<Rightarrow> x))
    \<and> (no_fault env \<longrightarrow> (\<exists>v. r = Inr v))"
  using store.get_state [of env n d] store.get_error [OF assms(1), of env n]
    store.get_value [OF assms(1), of env n] getKey_correct [OF _ assms(1), of env n] assms(2)
  by (cases r) auto

lemma getKey_returns_content_witness:
  "\<exists>d. db_inv d \<and> getKey quiet ''k'' d = (Inr (PVString ''v''), d)"
proof -
  obtain d where "db_inv d" "store_view d = [''k'' \<mapsto> PVString ''v'']"
    using demo_set [of "''k''" "PVString ''v''"] by (auto simp: NUL_def)
  with getKey_returns_content [of d quiet "''k''" "fst (getKey quiet ''k'' d)" "snd (getKey quiet ''k'' d)"]
  show ?thesis
    by (intro exI [of _ d]) (auto simp: NUL_def split: sum.splits intro: prod_eqI)
qed

text \<open>C5. Round trip: after a write that succeeded, reading the same key gives the stored form of
  the value that was written, and reading any other key gives what it gave before, whatever
  statements the engine let fail on the way.\<close>

theorem set_get_roundtrip:
  assumes "db_inv d" and "setKey env n v d = (Inr (), d')" and "db_room d'"
    and "getKey env' m d' = (Inr x, d'')"
  shows "x = (if c_str m = c_str n then stored_as env v
              else case store_view d (c_str m) of None \<Rightarrow> PVMonostate | Some y \<Rightarrow> y)
    \<and> d'' = d'"
  using store.get_value [OF store.put_invar [OF assms(1), of env n v], of env' m x]
    store.put_view [OF assms(1,2)] store.get_state [of env' m d'] assms(2-4)
  by simp

lemma set_get_roundtrip_witness:
  "\<exists>d d'. setKey quiet ''k'' (PVBool True) d = (Inr (), d')
          \<and> getKey quiet ''k'' d' = (Inr (PVInteger 1), d')"
proof -
  obtain d' where d': "setKey quiet ''k'' (PVBool True) demo_db = (Inr (), d')" "db_inv d'"
    using demo_set [of "''k''" "PVBool True"] by (auto simp: NUL_def)
  obtain x where x: "getKey quiet ''k'' d' = (Inr x, d')"
    using getKey_runs [OF quiet_no_fault d'(2)] by blast
  from set_get_roundtrip [OF demo_db_ok(1) d'(1) db_invD(2) [OF d'(2)] x] d'(1) x
  show ?thesis by (intro exI [of _ demo_db] exI [of _ d']) simp
qed

text \<open>C6. A write is all or nothing: whatever statements the engine lets fail, and in whatever
  state the database is, a \<open>setKey\<close> that throws has left every table as it was, and what it throws
  is a standard exception.\<close>

theorem setKey_all_or_nothing:
  "setKey env n v d = (r, d') \<Longrightarrow>
   case r of Inl e \<Rightarrow> d' = d \<and> is_std_exception e | Inr _ \<Rightarrow> True"
  using store.put_atomic [of env n v d] store.put_error [of env n v d] by (cases r) auto

lemma setKey_all_or_nothing_witness:
  "case fst (setKey quiet '''' PVNull demo_db) of
     Inl e \<Rightarrow> snd (setKey quiet '''' PVNull demo_db) = demo_db \<and> is_std_exception e | Inr _ \<Rightarrow> True"
  using setKey_all_or_nothing [of quiet "''''" PVNull demo_db] by simp

text \<open>C10. The invariant of the tables (unique keys, unique identifiers, no orphaned value row,
  every value in the table of its key's type) holds after any sequence of calls on a database the
  constructor created, whatever statements fail in which call, as long as fewer than \<open>2 ^ 32\<close>
  identifiers were handed out.\<close>

theorem store_invariant:
  assumes "no_fault env" and "open_DataStore env ver empty_db = (Inr (), d)"
    and "db_room (run_calls cs d)"
  shows "db_inv (run_calls cs d)"
  using run_calls_inv [of "fresh_db env ver" cs] open_fresh_runs [OF assms(1), of ver] assms(2,3)
  by (simp add: fresh_db_ok)

lemma store_invariant_witness:
  "db_inv (run_calls [(quiet, GetKey ''a''), (quiet, DeleteKey ''a'')] (fresh_db quiet ''1.0''))"
  by (rule store_invariant [OF quiet_no_fault open_fresh_runs [OF quiet_no_fault]])
    (simp add: store.get_state deleteKey_fails db_invD fresh_db_ok)

text \<open>C20. Restart: opening an empty database creates the schema and an empty store; opening the
  database again, after any sequence of calls and with any software version, succeeds and changes
  nothing, so that the content survives.\<close>

theorem open_then_reopen:
  assumes "no_fault env"
  shows "\<exists>d. open_DataStore env ver empty_db = (Inr (), d) \<and> store_view d = Map.empty
    \<and> (\<forall>cs ver'. open_DataStore env ver' (run_calls cs d) = (Inr (), run_calls cs d))"
proof -
  have "schema_ok (run_calls cs (fresh_db env ver))" for cs
    using run_calls_mono [of "fresh_db env ver" cs] fresh_db_ok(2) [of env ver]
    by (simp add: same_schema_def schema_ok_def schema_version_row_def)
  with open_fresh_runs [OF assms, of ver] reopen_runs [OF assms] fresh_db_ok(4) [of env ver]
  show ?thesis by blast
qed

lemma open_then_reopen_witness:
  "\<exists>d. open_DataStore quiet ''1.0'' empty_db = (Inr (), d) \<and> store_view d = Map.empty"
  using open_then_reopen [of quiet "''1.0''"] by auto

text \<open>The version check: a database that has the meta table is opened without a change; a schema
  newer than the code's is refused with an exception, a version that is no number with the
  exception of \<open>std::stoul\<close>, and a meta table without a version row makes the code build a
  \<open>std::string\<close> from a null pointer.\<close>

theorem open_checks_version:
  assumes "no_fault env" and "kMetaTableName \<in> set (db_tables d)"
  shows "\<exists>r. open_DataStore env ver d = (r, d)
    \<and> (r = Inr () \<longleftrightarrow> (\<exists>str version. schema_version_row d = Some str \<and> c_stoul str = Inr version
           \<and> unat version \<le> 1))
    \<and> (\<forall>n. schema_version_row d = Some (show_nat n) \<and> 1 < n \<and> n < 2 ^ 32 \<longrightarrow>
           r = Inl (RuntimeError ''unsupported schema version''))
    \<and> (schema_version_row d = None \<longrightarrow> r = Inl (Undefined ''std::string(nullptr)''))"
  by (auto simp: open_existing [OF assms] kCurrentSchemaVersion_def stoul_show_nat unat_of_nat
      bindS_Inr_conv not_less split: option.splits if_splits)

lemma open_checks_version_witness:
  "\<exists>r. open_DataStore quiet ''1.0'' demo_db = (r, demo_db)"
  using open_checks_version [of quiet demo_db "''1.0''"] demo_db_ok(3)
  by (auto simp: schema_ok_def)

text \<open>C21. A key that is null stays null: no sequence of reads, writes and deletions by name, on
  whatever engine, gives it another value, and every write of another value to it throws. (The
  comments of \<open>setKey\<close> promise the opposite: that a key whose value is null takes a value of any
  type.)\<close>

theorem null_key_stays_null:
  assumes "db_inv d" and "store_view d (c_str k) = Some PVNull"
    and "\<forall>ec \<in> set cs. \<forall>p. snd ec \<noteq> DeleteSubkeys p"
    and "db_room (run_calls cs d)"
  shows "store_view (run_calls cs d) (c_str k) = Some PVNull
    \<and> (\<forall>env v. v \<noteq> PVNull \<and> v \<noteq> PVMonostate \<longrightarrow>
         (\<exists>e. setKey env k v (run_calls cs d) = (Inl e, run_calls cs d)))"
  using assms
proof (induction cs arbitrary: d)
  case Nil
  show ?case using set_on_null [OF Nil(1,2)] Nil(2) by simp
next
  case (Cons ec cs)
  obtain env c where ec: "ec = (env, c)" by (cases ec)
  let ?d = "run_call env c d"
  have room: "db_room ?d"
    using Cons.prems(4) run_calls_mono [of ?d cs] by (auto simp: ec db_room_def ids_grow_def)
  have "store_view ?d (c_str k) = Some PVNull"
  proof (cases c)
    case (SetKey n v)
    show ?thesis
    proof (cases "c_str n = c_str k")
      case True
      with set_on_null_view [OF Cons.prems(1), of n env v] Cons.prems(2) SetKey show ?thesis by simp
    next
      case False
      with store.put_frame [OF Cons.prems(1), of "c_str k" n env v] Cons.prems(2) SetKey
      show ?thesis by simp
    qed
  qed (use Cons.prems in \<open>simp_all add: ec store.get_state deleteKey_fails\<close>)
  with Cons run_call_inv [OF Cons.prems(1) room] show ?case by (simp add: ec)
qed


lemma null_key_stays_null_witness:
  "\<exists>d. db_inv d \<and> store_view d ''k'' = Some PVNull
       \<and> (\<exists>e. setKey quiet ''k'' (PVInteger 1) d = (Inl e, d))"
proof -
  obtain d where d: "db_inv d" "store_view d = [''k'' \<mapsto> PVNull]"
    using demo_set [of "''k''" PVNull] by (auto simp: NUL_def)
  with null_key_stays_null [of d "''k''" "[]"] show ?thesis
    by (intro exI [of _ d]) (auto simp: NUL_def db_invD)
qed

text \<open>C25. \<open>deleteSubkeys\<close> removes exactly the keys that match the pattern, together with their
  values, reports their number and keeps the invariant. For a prefix without a percent sign or an
  underscore these are the keys below the prefix, but in any mixture of upper and lower case.\<close>

theorem deleteSubkeys_exact:
  assumes "no_fault env" and "db_inv d"
  shows "\<exists>d'. deleteSubkeys env p d
        = (Inr (length (filter (\<lambda>r. sql_like (p @ ''.%'') (kr_key r)) (db_keys d))), d')
     \<and> db_inv d'
     \<and> store_view d' = (\<lambda>n. if sql_like (p @ ''.%'') n then None else store_view d n)
     \<and> (like_plain p \<longrightarrow> (\<forall>n. sql_like (p @ ''.%'') n
            \<longleftrightarrow> prefix (map ascii_lower (p @ ''.'')) (map ascii_lower n)))"
proof -
  have wf: "db_wf d" and room: "db_room d" using assms(2) by (simp_all add: db_invD)
  let ?d' = "after_delete (sql_like (p @ ''.%'')) d"
  have "db_inv ?d'" using after_delete_wf [OF wf] room by (simp add: db_inv_def db_room_def)
  with delete_key_rows_runs [OF assms(1) wf] after_delete_view [OF wf] sql_like_children
  show ?thesis by (intro exI [of _ ?d']) (auto simp: deleteSubkeys_def)
qed

lemma deleteSubkeys_exact_witness:
  "\<exists>d d'. store_view d = [''A.b'' \<mapsto> PVNull] \<and> snd (deleteSubkeys quiet ''a'' d) = d'
     \<and> store_view d' = Map.empty"
proof -
  obtain d where d: "db_inv d" "store_view d = [''A.b'' \<mapsto> PVNull]"
    using demo_set [of "''A.b''" PVNull] by (auto simp: NUL_def)
  have "sql_like ''a.%'' ''A.b''" by (simp add: sql_like.simps ascii_lower_def) (simp add: char_of_def bit_0)
  moreover have "store_view (snd (deleteSubkeys quiet ''a'' d))
      = (\<lambda>n. if sql_like ''a.%'' n then None else store_view d n)"
    using deleteSubkeys_exact [OF quiet_no_fault d(1), of "''a''"] by auto
  ultimately show ?thesis
    using d(2) by (intro exI [of _ d] exI [of _ "snd (deleteSubkeys quiet ''a'' d)"]) (simp add: fun_eq_iff)
qed

end
