(* ===== verification/RpcServer.thy ===== *)
theory RpcServer
  imports Rpc_Types Cbor Confd_Types
begin

text \<open>
  The RPC server of confd: \<open>src/daemon/RpcServer.cpp\<close> and \<open>RpcServer.h\<close>.

  The state is the server object: its clients (keyed by their buffer event, as in the code), the
  data store behind it, the descriptors it owns, and the packets handed to libevent. What lies
  outside is the parameter \<open>srv_env\<close>: libcbor, the data store's two operations, the memory that
  happens to follow two heap buffers the code reads past, and whether \<open>bufferevent_write\<close> takes a
  packet.
\<close>

unbundle bit_operations_syntax

section \<open>State and environment\<close>

text \<open>A \<open>bufferevent *\<close> is an address.\<close>

type_synonym bev = nat

record client =
  cl_socket :: int
  cl_event :: bev
  cl_receiveBuf :: "byte list"
  cl_transmitBuf :: "byte list"

record 's server =
  sv_clients :: "bev \<Rightarrow> client option"
  sv_store :: 's
  sv_sent :: "(bev \<times> byte list) list"
  sv_fds :: "int list"
  sv_gRun :: bool
  sv_loop_break :: bool
  sv_kicks :: nat

record 's srv_env =
  sr_lib :: cbor_lib
  sr_get :: "string \<Rightarrow> ('s, PropertyValue) op"
  sr_put :: "string \<Rightarrow> PropertyValue \<Rightarrow> ('s, unit) op"
  sr_after_buf :: "byte list"
  sr_after_str :: string
  sr_drain_ok :: bool
  sr_write_ok :: bool

definition on_store :: "('s, 'a) op \<Rightarrow> ('s server, 'a) op" where
  "on_store m = (\<lambda>s. case m (sv_store s) of (r, st) \<Rightarrow> (r, s\<lparr>sv_store := st\<rparr>))"

text \<open>\<open>enum Flags: uintptr_t\<close>\<close>

type_synonym Flags = u32

definition FlagNone :: Flags where "FlagNone = 0"

definition SinglePrecisionFloat :: Flags where "SinglePrecisionFloat = 1"

definition IsSetRequest :: Flags where "IsSetRequest = 2"

definition ExcludeValue :: Flags where "ExcludeValue = 4"

lemmas Flags_defs = FlagNone_def SinglePrecisionFloat_def IsSetRequest_def ExcludeValue_def

definition has_flag :: "Flags \<Rightarrow> Flags \<Rightarrow> bool" where
  "has_flag fs f \<longleftrightarrow> fs AND f \<noteq> 0"

section \<open>Reading a request\<close>

text \<open>
  The keys of a request are compared by \<open>strncmp\<close> with the length of the received string, see
  \<open>strncmp_eq_iff\<close>. The last matching entry wins.
\<close>

definition map_key :: "cbor_item \<Rightarrow> exn + string" where
  "map_key k =
     (if \<not> cbor_isa_string k then Inl (RuntimeError ''invalid map key type (expected string)'')
      else bindS (cbor_string_handle k) (\<lambda>h.
        case h of None \<Rightarrow> Inl (RuntimeError ''failed to get map key string'')
        | Some keyStr \<Rightarrow> Inr keyStr))"

definition key_name_value :: "cbor_item \<Rightarrow> exn + string" where
  "key_name_value v =
     (if \<not> cbor_isa_string v then Inl (RuntimeError ''invalid type for `key` (expected string)'')
      else if \<not> cbor_string_is_definite v then Inl (RuntimeError ''indefinite strings not supported'')
      else bindS (cbor_string_handle v) (\<lambda>h.
        case h of None \<Rightarrow> Inl (RuntimeError ''failed to get key name string'')
        | Some s \<Rightarrow> Inr s))"

fun ExtractKeyName_loop :: "(cbor_item \<times> cbor_item) list \<Rightarrow> string \<Rightarrow> exn + string" where
  "ExtractKeyName_loop [] keyName = Inr keyName"
| "ExtractKeyName_loop ((k, v) # ps) keyName =
     bindS (map_key k) (\<lambda>keyStr.
       if strncmp_eq keyStr ''key'' (length keyStr)
       then bindS (key_name_value v) (\<lambda>s. ExtractKeyName_loop ps s)
       else ExtractKeyName_loop ps keyName)"

fun ExtractKeyName :: "cbor_item \<Rightarrow> exn + string" where
  "ExtractKeyName (CMap ps) =
     (if ps = [] then Inl (RuntimeError ''invalid payload: map has no keys'')
      else ExtractKeyName_loop ps '''')"
| "ExtractKeyName _ = Inl (Undefined ''cbor_map_size'')"

fun getCfgQueryFlags_loop :: "cbor_lib \<Rightarrow> (cbor_item \<times> cbor_item) list \<Rightarrow> Flags \<Rightarrow> exn + Flags" where
  "getCfgQueryFlags_loop lib [] outFlags = Inr outFlags"
| "getCfgQueryFlags_loop lib ((k, v) # ps) outFlags =
     bindS (map_key k) (\<lambda>keyStr.
       if strncmp_eq keyStr ''forceFloat'' (length keyStr) then
         if \<not> cbor_isa_float_ctrl v \<or> \<not> cbor_is_bool v
         then Inl (RuntimeError ''invalid type for `key` (expected bool)'')
         else bindS (cbor_get_bool lib v) (\<lambda>b.
           getCfgQueryFlags_loop lib ps (if b then outFlags OR SinglePrecisionFloat else outFlags))
       else getCfgQueryFlags_loop lib ps outFlags)"

fun getCfgQueryFlags :: "cbor_lib \<Rightarrow> cbor_item \<Rightarrow> Flags \<Rightarrow> exn + Flags" where
  "getCfgQueryFlags lib (CMap ps) outFlags = getCfgQueryFlags_loop lib ps outFlags"
| "getCfgQueryFlags lib _ outFlags = Inl (Undefined ''cbor_map_handle'')"

text \<open>
  The value of an update. A string is taken from its buffer as a C string: the bytes libcbor
  stores carry no terminator, so the read goes on into what follows them, up to the first zero.
\<close>

fun update_value :: "cbor_lib \<Rightarrow> string \<Rightarrow> cbor_item \<Rightarrow> exn + PropertyValue" where
  "update_value lib after (CString None) = Inl (Undefined ''std::string(nullptr)'')"
| "update_value lib after (CString (Some s)) =
     (case read_c_str (s @ after) of
        None \<Rightarrow> Inl (Undefined ''unterminated string'')
      | Some t \<Rightarrow> Inr (PVString t))"
| "update_value lib after (CStringIndef _) = Inl (RuntimeError ''indefinite strings not supported'')"
| "update_value lib after (CBytes b) = Inr (PVBlob b)"
| "update_value lib after (CBytesIndef _) =
     Inl (RuntimeError ''indefinite bytestrings not supported'')"
| "update_value lib after (CUint i) = Inr (PVInteger (cbor_int_value i))"
| "update_value lib after v =
     (if cbor_isa_float_ctrl v then
        if cbor_float_ctrl_is_ctrl v
        then bindS (cbor_get_bool lib v) (\<lambda>b. Inr (PVBool b))
        else bindS (cbor_float_get_float lib v) (\<lambda>x. Inr (PVReal x))
      else Inl (InvalidArgument ''invalid value type''))"

fun update_value_loop :: "cbor_lib \<Rightarrow> string \<Rightarrow> (cbor_item \<times> cbor_item) list \<Rightarrow> PropertyValue
    \<Rightarrow> exn + PropertyValue" where
  "update_value_loop lib after [] value = Inr value"
| "update_value_loop lib after ((k, v) # ps) value =
     bindS (map_key k) (\<lambda>keyStr.
       if strncmp_eq keyStr ''value'' (length keyStr)
       then bindS (update_value lib after v) (\<lambda>x. update_value_loop lib after ps x)
       else update_value_loop lib after ps value)"

section \<open>Writing a reply\<close>

definition resize :: "nat \<Rightarrow> byte list \<Rightarrow> byte list" where
  "resize n bs = take n bs @ replicate (n - length bs) 0"

text \<open>Writing bytes over a buffer from an offset on.\<close>

definition overwrite :: "byte list \<Rightarrow> nat \<Rightarrow> byte list \<Rightarrow> byte list" where
  "overwrite buf off bs = take off buf @ bs @ drop (off + length bs) buf"

text \<open>The header of a reply as the code fills it in; the length is stored into 16 bits.\<close>

definition reply_header :: "rpc_header \<Rightarrow> nat \<Rightarrow> rpc_header" where
  "reply_header req msgSize =
     \<lparr>hdr_version = kRpcVersionLatest, hdr_length = u16_of_size msgSize,
      hdr_endpoint = hdr_endpoint req, hdr_tag = hdr_tag req, hdr_flags = 1, hdr_reserved = 0\<rparr>"

definition reply_buffer :: "rpc_header \<Rightarrow> byte list \<Rightarrow> byte list \<Rightarrow> byte list" where
  "reply_buffer req payload transmitBuf =
     (let msgSize = sizeof_rpc_header + length payload;
          buf1 = resize msgSize transmitBuf;
          buf2 = overwrite buf1 0 (replicate sizeof_rpc_header 0);
          buf3 = overwrite buf2 0 (header_bytes (reply_header req msgSize))
      in if payload \<noteq> [] then overwrite buf3 sizeof_rpc_header payload else buf3)"

text \<open>\<open>Client::send\<close> and \<open>Client::replyTo\<close>. The client is alive for as long as the handler runs.\<close>

definition Client_send :: "'s srv_env \<Rightarrow> bev \<Rightarrow> byte list \<Rightarrow> ('s server, unit) op" where
  "Client_send env ev buf =
     (\<lambda>s. if sr_write_ok env then (Inr (), s\<lparr>sv_sent := sv_sent s @ [(ev, buf)]\<rparr>)
           else (Inl (SystemError (-1) ''write rpc reply''), s))"

definition replyTo :: "'s srv_env \<Rightarrow> bev \<Rightarrow> rpc_header \<Rightarrow> byte list \<Rightarrow> ('s server, unit) op" where
  "replyTo env ev req payload =
     (\<lambda>s. case sv_clients s ev of
             None \<Rightarrow> (Inl (Undefined ''client''), s)
           | Some cl \<Rightarrow>
               let buf = reply_buffer req payload (cl_transmitBuf cl)
               in Client_send env ev buf
                    (s\<lparr>sv_clients := (sv_clients s)(ev \<mapsto> cl\<lparr>cl_transmitBuf := buf\<rparr>)\<rparr>))"

text \<open>The value entry of a reply; the empty alternative has none.\<close>

fun value_item :: "cbor_lib \<Rightarrow> Flags \<Rightarrow> PropertyValue \<Rightarrow> cbor_item option" where
  "value_item lib flags PVNull = Some cbor_new_null"
| "value_item lib flags (PVString s) = Some (cbor_build_string s)"
| "value_item lib flags (PVBlob b) = Some (CBytes b)"
| "value_item lib flags (PVInteger v) = Some (cbor_build_uint64 v)"
| "value_item lib flags (PVReal x) =
     Some (if has_flag flags SinglePrecisionFloat then CSingle (float_narrow lib x) else CDouble x)"
| "value_item lib flags (PVBool b) = Some (cbor_build_bool b)"
| "value_item lib flags PVMonostate = None"

definition reply_map :: "cbor_lib \<Rightarrow> string \<Rightarrow> PropertyValue \<Rightarrow> Flags \<Rightarrow> cbor_item" where
  "reply_map lib key value flags =
     (let found = (value \<noteq> PVMonostate);
          outputValue = (\<not> has_flag flags ExcludeValue);
          root0 = cbor_new_definite_map ((if found then 3 else 2) - (if outputValue then 0 else 1));
          root1 = cbor_map_add root0 (cbor_build_string ''key'') (cbor_build_string key);
          root2 = (if outputValue then
                     (case value_item lib flags value of
                        None \<Rightarrow> root1
                      | Some x \<Rightarrow> cbor_map_add root1 (cbor_build_string ''value'') x)
                   else root1);
          hasValue = (value \<noteq> PVMonostate);
          root3 = cbor_map_add root2
                    (cbor_build_string (if has_flag flags IsSetRequest then ''updated'' else ''found''))
                    (cbor_build_bool hasValue)
      in cbor_map_item root3)"

definition sendKeyValue :: "'s srv_env \<Rightarrow> rpc_header \<Rightarrow> bev \<Rightarrow> string \<Rightarrow> PropertyValue \<Rightarrow> Flags
    \<Rightarrow> ('s server, unit) op" where
  "sendKeyValue env hdr ev key value flags =
     replyTo env ev hdr (cbor_serialize (sr_lib env) (reply_map (sr_lib env) key value flags))"

section \<open>The request handlers\<close>

definition doCfgQuery :: "'s srv_env \<Rightarrow> rpc_header \<Rightarrow> cbor_item \<Rightarrow> bev \<Rightarrow> ('s server, unit) op" where
  "doCfgQuery env hdr item ev =
     (if \<not> cbor_isa_map item then raise (InvalidArgument ''invalid payload: expected map'')
      else bindE (lift (ExtractKeyName item)) (\<lambda>keyName.
        if keyName = '''' then raise (RuntimeError ''failed to get key name (wtf)'')
        else bindE (lift (getCfgQueryFlags (sr_lib env) item FlagNone)) (\<lambda>flags.
          bindE (on_store (sr_get env keyName)) (\<lambda>result.
            sendKeyValue env hdr ev keyName result flags))))"

definition doCfgUpdate :: "'s srv_env \<Rightarrow> rpc_header \<Rightarrow> cbor_item \<Rightarrow> bev \<Rightarrow> ('s server, unit) op" where
  "doCfgUpdate env hdr item ev =
     (case item of
        CMap ps \<Rightarrow>
          bindE (lift (ExtractKeyName item)) (\<lambda>keyName.
            if keyName = '''' then raise (RuntimeError ''failed to get key name (wtf)'')
            else bindE (lift (update_value_loop (sr_lib env) (sr_after_str env) ps PVMonostate))
              (\<lambda>value.
                bindE (on_store (sr_put env keyName value)) (\<lambda>_.
                  sendKeyValue env hdr ev keyName value (IsSetRequest OR ExcludeValue))))
      | _ \<Rightarrow> raise (InvalidArgument ''invalid payload: expected map''))"

text \<open>
  The checks \<open>handleClientRead\<close> makes on the packet, up to the decoded payload. The bound on the
  payload's length is the size of the whole buffer, header included, so that up to eight bytes
  behind the buffer may be handed to the parser.
\<close>

definition decode_request :: "cbor_lib \<Rightarrow> byte list \<Rightarrow> byte list \<Rightarrow> exn + (rpc_header \<times> cbor_item)" where
  "decode_request lib after buf =
     (case parse_header buf of
        None \<Rightarrow> Inl (RuntimeError ''read too few bytes from client'')
      | Some hdr \<Rightarrow>
          if hdr_version hdr \<noteq> kRpcVersionLatest then Inl (RuntimeError ''unsupported rpc version'')
          else if unat (hdr_length hdr) < sizeof_rpc_header
          then Inl (RuntimeError ''invalid header length (too short)'')
          else let payloadLen = unat (hdr_length hdr) - sizeof_rpc_header in
            if length buf < payloadLen then Inl (RuntimeError ''invalid header length (too long)'')
            else (case cbor_load lib (take payloadLen (drop sizeof_rpc_header (buf @ after))) of
                    None \<Rightarrow> Inl (RuntimeError ''cbor_load failed'')
                  | Some item \<Rightarrow> Inr (hdr, item)))"

text \<open>
  \<open>handleClientRead\<close>: \<open>pending\<close> is what the buffer event holds. The receive buffer is overwritten;
  when the bytes cannot be drained it has only been resized.
\<close>

definition handleClientRead :: "'s srv_env \<Rightarrow> bev \<Rightarrow> byte list \<Rightarrow> ('s server, unit) op" where
  "handleClientRead env ev pending =
     (\<lambda>s. case sv_clients s ev of
             None \<Rightarrow> (Inl (OutOfRange ''unordered_map::at''), s)
           | Some cl \<Rightarrow>
               let buf = (if sr_drain_ok env then pending
                          else resize (length pending) (cl_receiveBuf cl));
                   s1 = s\<lparr>sv_clients := (sv_clients s)(ev \<mapsto> cl\<lparr>cl_receiveBuf := buf\<rparr>)\<rparr>
               in if \<not> sr_drain_ok env
                  then (Inl (RuntimeError ''failed to drain client read buffer''), s1)
                  else bindE (lift (decode_request (sr_lib env) (sr_after_buf env) buf))
                    (\<lambda>(hdr, item).
                      if hdr_endpoint hdr = kConfigQuery then doCfgQuery env hdr item ev
                      else if hdr_endpoint hdr = kConfigUpdate then doCfgUpdate env hdr item ev
                      else raise (RuntimeError ''unknown rpc endpoint'')) s1)"

section \<open>The life of a client\<close>

text \<open>Removing a client from the map destroys it: its event is freed and its socket closed.\<close>

definition erase_client :: "bev \<Rightarrow> 's server \<Rightarrow> 's server" where
  "erase_client ev s =
     (case sv_clients s ev of
        None \<Rightarrow> s
      | Some cl \<Rightarrow>
          s\<lparr>sv_clients := (sv_clients s)(ev := None),
            sv_fds := (if cl_socket cl \<noteq> -1 then remove1 (cl_socket cl) (sv_fds s) else sv_fds s)\<rparr>)"

definition abortClient :: "bev \<Rightarrow> 's server \<Rightarrow> 's server" where
  "abortClient ev s = erase_client ev s"

definition handleClientEvent :: "bev \<Rightarrow> u32 \<Rightarrow> ('s server, unit) op" where
  "handleClientEvent ev flags =
     (\<lambda>s. case sv_clients s ev of
             None \<Rightarrow> (Inl (OutOfRange ''unordered_map::at''), s)
           | Some _ \<Rightarrow> (Inr (), erase_client ev s))"

text \<open>What the system calls and libevent answer when a client connects.\<close>

record accept_env =
  ac_fd :: int
  ac_nonblocking :: bool
  ac_bev :: "bev option"
  ac_enable :: bool

text \<open>
  The constructor of a client. When it throws, the object was never constructed and its
  destructor does not run: nobody closes the descriptor.
\<close>

definition new_Client :: "accept_env \<Rightarrow> int \<Rightarrow> exn + client" where
  "new_Client ae fd =
     (case ac_bev ae of
        None \<Rightarrow> Inl (RuntimeError ''failed to create bufferevent'')
      | Some ev \<Rightarrow>
          if \<not> ac_enable ae then Inl (RuntimeError ''failed to enable bufferevent'')
          else Inr \<lparr>cl_socket = fd, cl_event = ev, cl_receiveBuf = [], cl_transmitBuf = []\<rparr>)"

definition acceptClient :: "accept_env \<Rightarrow> ('s server, unit) op" where
  "acceptClient ae =
     (\<lambda>s. if ac_fd ae = -1 then (Inl (SystemError (-1) ''accept''), s)
           else
             let s1 = s\<lparr>sv_fds := ac_fd ae # sv_fds s\<rparr> in
             if \<not> ac_nonblocking ae
             then (Inl (SystemError (-1) ''evutil_make_socket_nonblocking''), s1)
             else (case new_Client ae (ac_fd ae) of
                     Inl e \<Rightarrow> (Inl e, s1)
                   | Inr cl \<Rightarrow>
                       (case sv_clients s1 (cl_event cl) of
                          None \<Rightarrow> (Inr (), s1\<lparr>sv_clients := (sv_clients s1)(cl_event cl \<mapsto> cl)\<rparr>)
                        | Some _ \<Rightarrow> (Inr (), s))))"

definition handleTermination :: "'s server \<Rightarrow> 's server" where
  "handleTermination s = s\<lparr>sv_gRun := False, sv_loop_break := True\<rparr>"

section \<open>The event loop\<close>

text \<open>
  The callbacks installed with libevent. Each catches \<open>std::exception\<close>: a failed read or event
  drops the client, a failed accept is logged.
\<close>

datatype srv_event =
    EvConnect accept_env
  | EvReadable bev "byte list"
  | EvStatus bev u32
  | EvSignal
  | EvWatchdog

definition catching :: "('s \<Rightarrow> 's) \<Rightarrow> ('s, unit) op \<Rightarrow> ('s, unit) op" where
  "catching handler m =
     (\<lambda>s. case m s of
             (Inr x, s') \<Rightarrow> (Inr x, s')
           | (Inl e, s') \<Rightarrow> if is_std_exception e then (Inr (), handler s') else (Inl e, s'))"

definition callback :: "'s srv_env \<Rightarrow> srv_event \<Rightarrow> ('s server, unit) op" where
  "callback env e =
     (case e of
        EvConnect ae \<Rightarrow> catching (\<lambda>s. s) (acceptClient ae)
      | EvReadable ev pending \<Rightarrow> catching (abortClient ev) (handleClientRead env ev pending)
      | EvStatus ev flags \<Rightarrow> catching (abortClient ev) (handleClientEvent ev flags)
      | EvSignal \<Rightarrow> (\<lambda>s. (Inr (), handleTermination s))
      | EvWatchdog \<Rightarrow> (\<lambda>s. (Inr (), s\<lparr>sv_kicks := sv_kicks s + 1\<rparr>)))"

text \<open>\<open>run\<close>: \<open>event_base_dispatch\<close> hands the events to their callbacks until the loop is broken.\<close>

fun RpcServer_run :: "('s srv_env \<times> srv_event) list \<Rightarrow> ('s server, unit) op" where
  "RpcServer_run [] = ret ()"
| "RpcServer_run ((env, e) # es) =
     bindE (callback env e) (\<lambda>_ s. if sv_loop_break s then (Inr (), s) else RpcServer_run es s)"

text \<open>The destructor closes every client.\<close>

definition shutdown :: "int \<Rightarrow> 's server \<Rightarrow> 's server" where
  "shutdown listenSock s =
     s\<lparr>sv_fds := filter (\<lambda>fd. fd \<noteq> listenSock
                  \<and> \<not> (\<exists>ev \<in> dom (sv_clients s). cl_socket (the (sv_clients s ev)) = fd)) (sv_fds s),
       sv_clients := Map.empty\<rparr>"

end
