(* ===== verification/RpcServer_Spec.thy ===== *)
theory RpcServer_Spec
  imports RpcServer
begin

text \<open>
  What the RPC server does: the packets it sends, the outcome of every kind of request, which
  parts of the state a client's request can touch, and the client map over all sequences of
  events. Rests on the contracts of the data store (\<open>config_store\<close>) and of libcbor
  (\<open>cbor_codec\<close>), joined in the locale \<open>config_server\<close>.
\<close>

section \<open>The packet of a reply\<close>

lemma length_resize [simp]: "length (resize n bs) = n"
  by (simp add: resize_def)

lemma overwrite_0: "length bs \<le> length buf \<Longrightarrow> overwrite buf 0 bs = bs @ drop (length bs) buf"
  by (simp add: overwrite_def)

lemma reply_buffer_eq:
  "reply_buffer req payload tx
   = header_bytes (reply_header req (sizeof_rpc_header + length payload)) @ payload"
proof -
  let ?n = "sizeof_rpc_header + length payload"
  let ?h = "header_bytes (reply_header req ?n)"
  have 1: "overwrite (overwrite (resize ?n tx) 0 (replicate sizeof_rpc_header 0)) 0 ?h
           = ?h @ drop sizeof_rpc_header (resize ?n tx)"
    by (simp add: overwrite_0)
  have 2: "overwrite (?h @ drop sizeof_rpc_header (resize ?n tx)) sizeof_rpc_header payload = ?h @ payload"
    by (simp add: overwrite_def)
  show ?thesis
    using 1 2 by (cases "payload = []") (simp_all add: reply_buffer_def Let_def)
qed

definition reply_packet :: "rpc_header \<Rightarrow> byte list \<Rightarrow> byte list" where
  "reply_packet req payload =
     header_bytes (reply_header req (sizeof_rpc_header + length payload)) @ payload"

lemma parse_reply_packet:
  "parse_header (reply_packet req payload)
   = Some (reply_header req (sizeof_rpc_header + length payload))"
  "drop sizeof_rpc_header (reply_packet req payload) = payload"
  "length (reply_packet req payload) = sizeof_rpc_header + length payload"
  by (simp_all add: reply_packet_def)

lemma replyTo_run:
  "sv_clients s ev = Some cl \<Longrightarrow>
   replyTo env ev req payload s =
     (let pkt = reply_packet req payload;
          s1 = s\<lparr>sv_clients := (sv_clients s)(ev \<mapsto> cl\<lparr>cl_transmitBuf := pkt\<rparr>)\<rparr>
      in if sr_write_ok env then (Inr (), s1\<lparr>sv_sent := sv_sent s @ [(ev, pkt)]\<rparr>)
         else (Inl (SystemError (-1) ''write rpc reply''), s1))"
  by (simp add: replyTo_def Client_send_def reply_buffer_eq reply_packet_def Let_def)

section \<open>The payload of a reply\<close>

lemma has_flag_None [simp]: "\<not> has_flag FlagNone f"
  by (simp add: has_flag_def FlagNone_def)

lemma has_flag_set [simp]:
  "has_flag (IsSetRequest OR ExcludeValue) IsSetRequest"
  "has_flag (IsSetRequest OR ExcludeValue) ExcludeValue"
  "\<not> has_flag SinglePrecisionFloat IsSetRequest"
  "\<not> has_flag SinglePrecisionFloat ExcludeValue"
  "has_flag SinglePrecisionFloat SinglePrecisionFloat"
  by (simp_all add: has_flag_def Flags_defs)

lemma value_item_None_iff: "value_item lib fl v = None \<longleftrightarrow> v = PVMonostate"
  by (cases v) auto

lemmas reply_map_defs = reply_map_def cbor_new_definite_map_def cbor_map_add_def cbor_map_item_def

lemma reply_map_found:
  assumes "\<not> has_flag fl ExcludeValue" and "\<not> has_flag fl IsSetRequest"
    and "value_item lib fl v = Some x"
  shows "reply_map lib key v fl
         = CMap [(cbor_build_string ''key'', cbor_build_string key), (cbor_build_string ''value'', x),
                 (cbor_build_string ''found'', cbor_build_bool True)]"
  using assms value_item_None_iff [of lib fl v] by (auto simp: reply_map_defs Let_def)

lemma reply_map_missing:
  assumes "\<not> has_flag fl ExcludeValue" and "\<not> has_flag fl IsSetRequest"
  shows "reply_map lib key PVMonostate fl
         = CMap [(cbor_build_string ''key'', cbor_build_string key),
                 (cbor_build_string ''found'', cbor_build_bool False)]"
  using assms by (simp add: reply_map_defs Let_def)

lemma reply_map_updated:
  "v \<noteq> PVMonostate \<Longrightarrow>
   reply_map lib key v (IsSetRequest OR ExcludeValue)
   = CMap [(cbor_build_string ''key'', cbor_build_string key),
           (cbor_build_string ''updated'', cbor_build_bool True)]"
  by (simp add: reply_map_defs Let_def)

text \<open>The map of an update without a value has room for one entry only: the second is lost.\<close>

lemma reply_map_not_updated:
  "reply_map lib key PVMonostate (IsSetRequest OR ExcludeValue)
   = CMap [(cbor_build_string ''key'', cbor_build_string key)]"
  by (simp add: reply_map_defs Let_def)

section \<open>What a request can touch\<close>

text \<open>
  The part of the server a request of client \<open>ev\<close> may change: this client's buffers, the packets
  sent to it, and the store.
\<close>

definition others_same :: "bev \<Rightarrow> 's server \<Rightarrow> 's server \<Rightarrow> bool" where
  "others_same ev s s' \<longleftrightarrow> (\<forall>e. e \<noteq> ev \<longrightarrow> sv_clients s' e = sv_clients s e)"

definition client_kept :: "bev \<Rightarrow> 's server \<Rightarrow> 's server \<Rightarrow> bool" where
  "client_kept ev s s' \<longleftrightarrow>
     map_option (\<lambda>cl. (cl_socket cl, cl_event cl)) (sv_clients s' ev)
     = map_option (\<lambda>cl. (cl_socket cl, cl_event cl)) (sv_clients s ev)"

definition sent_only_to :: "bev \<Rightarrow> 's server \<Rightarrow> 's server \<Rightarrow> bool" where
  "sent_only_to ev s s' \<longleftrightarrow> (\<exists>ps. sv_sent s' = sv_sent s @ map (Pair ev) ps)"

definition rest_same :: "'s server \<Rightarrow> 's server \<Rightarrow> bool" where
  "rest_same s s' \<longleftrightarrow> sv_fds s' = sv_fds s \<and> sv_gRun s' = sv_gRun s
     \<and> sv_loop_break s' = sv_loop_break s \<and> sv_kicks s' = sv_kicks s"

definition client_frame :: "bev \<Rightarrow> 's server \<Rightarrow> 's server \<Rightarrow> bool" where
  "client_frame ev s s' \<longleftrightarrow>
     others_same ev s s' \<and> client_kept ev s s' \<and> sent_only_to ev s s' \<and> rest_same s s'"

lemmas client_frame_defs = client_frame_def others_same_def client_kept_def sent_only_to_def
  rest_same_def

lemma client_frame_refl: "client_frame ev s s"
  unfolding client_frame_defs by (auto intro: exI [of _ "[]"])

lemma sent_only_to_trans: "sent_only_to ev s t \<Longrightarrow> sent_only_to ev t u \<Longrightarrow> sent_only_to ev s u"
  unfolding sent_only_to_def by (metis append.assoc map_append)

lemma client_frame_trans: "client_frame ev s t \<Longrightarrow> client_frame ev t u \<Longrightarrow> client_frame ev s u"
  unfolding client_frame_def
  by (intro conjI; (elim conjE)?)
    (simp_all add: others_same_def client_kept_def rest_same_def sent_only_to_trans [of ev s t u])

lemma client_frame_order: "reflp (client_frame ev)" "transp (client_frame ev)"
  by (auto simp: reflp_def transp_def client_frame_refl intro: client_frame_trans)

lemmas client_frame_closure = grows_bindE [OF client_frame_order(2)] grows_if grows_option grows_prod

lemma client_frame_pure:
  "grows (client_frame ev) (ret x)" "grows (client_frame ev) (raise e)" "grows (client_frame ev) (lift r)"
  by (simp_all add: grows_def client_frame_refl)

lemma client_frame_store: "grows (client_frame ev) (on_store m)"
  by (auto simp: grows_def on_store_def client_frame_defs intro: exI [of _ "[]"] split: prod.splits)

lemma client_frame_replyTo: "grows (client_frame ev) (replyTo env ev req payload)"
  unfolding grows_def
proof (intro allI impI)
  fix s r s' assume run: "replyTo env ev req payload s = (r, s')"
  show "client_frame ev s s'"
  proof (cases "sv_clients s ev")
    case None
    with run show ?thesis by (simp add: replyTo_def client_frame_refl)
  next
    case (Some cl)
    with run show ?thesis
      by (auto simp: replyTo_run Let_def client_frame_defs split: if_splits
          intro: exI [of _ "[]"] exI [of _ "[reply_packet req payload]"])
  qed
qed

lemma client_frame_doCfgQuery: "grows (client_frame ev) (doCfgQuery env hdr item ev)"
  unfolding doCfgQuery_def sendKeyValue_def
  by (intro client_frame_closure client_frame_pure client_frame_store client_frame_replyTo)

lemma client_frame_doCfgUpdate: "grows (client_frame ev) (doCfgUpdate env hdr item ev)"
  unfolding doCfgUpdate_def sendKeyValue_def
  by (cases item; simp only: cbor_item.case)
    (intro client_frame_closure client_frame_pure client_frame_store client_frame_replyTo)+

lemma client_frame_read: "grows (client_frame ev) (handleClientRead env ev pending)"
  unfolding grows_def
proof (intro allI impI)
  fix s r s' assume run: "handleClientRead env ev pending s = (r, s')"
  show "client_frame ev s s'"
  proof (cases "sv_clients s ev")
    case None
    with run show ?thesis by (simp add: handleClientRead_def client_frame_refl)
  next
    case (Some cl)
    define buf where "buf = (if sr_drain_ok env then pending
        else resize (length pending) (cl_receiveBuf cl))"
    define s1 where "s1 = s\<lparr>sv_clients := (sv_clients s)(ev \<mapsto> cl\<lparr>cl_receiveBuf := buf\<rparr>)\<rparr>"
    define body where "body = bindE (lift (decode_request (sr_lib env) (sr_after_buf env) buf))
        (\<lambda>(hdr, item).
           if hdr_endpoint hdr = kConfigQuery then doCfgQuery env hdr item ev
           else if hdr_endpoint hdr = kConfigUpdate then doCfgUpdate env hdr item ev
           else raise (RuntimeError ''unknown rpc endpoint''))"
    have 1: "client_frame ev s s1"
      using Some by (auto simp: s1_def client_frame_defs intro: exI [of _ "[]"])
    have 2: "grows (client_frame ev) body"
      unfolding body_def
      by (intro client_frame_closure client_frame_pure client_frame_doCfgQuery client_frame_doCfgUpdate)
    have "(r, s') = (Inl (RuntimeError ''failed to drain client read buffer''), s1)
          \<or> (r, s') = body s1"
      using run Some
      by (simp add: handleClientRead_def Let_def s1_def buf_def body_def split: if_splits)
    then show ?thesis
    proof
      assume "(r, s') = body s1"
      then have "client_frame ev s1 s'" using growsD [OF 2, of s1 r s'] by simp
      with 1 show ?thesis by (rule client_frame_trans)
    qed (use 1 in simp)
  qed
qed

section \<open>Requests that are answered\<close>

text \<open>The state after a request of client \<open>ev\<close> was answered with the packet \<open>pkt\<close>.\<close>

definition answer :: "bev \<Rightarrow> byte list \<Rightarrow> byte list \<Rightarrow> 's \<Rightarrow> 's server \<Rightarrow> 's server" where
  "answer ev pending pkt st s =
     s\<lparr>sv_clients := (sv_clients s)(ev \<mapsto>
          (the (sv_clients s ev))\<lparr>cl_receiveBuf := pending, cl_transmitBuf := pkt\<rparr>),
       sv_store := st, sv_sent := sv_sent s @ [(ev, pkt)]\<rparr>"

lemma answer_frame: "sv_clients s ev \<noteq> None \<Longrightarrow> client_frame ev s (answer ev pending pkt st s)"
  by (auto simp: answer_def client_frame_defs intro: exI [of _ "[pkt]"])

lemma answer_simps [simp]:
  "sv_store (answer ev pending pkt st s) = st"
  "sv_sent (answer ev pending pkt st s) = sv_sent s @ [(ev, pkt)]"
  "\<exists>cl. sv_clients (answer ev pending pkt st s) ev = Some cl"
  by (simp_all add: answer_def)

lemma handleClientRead_decoded:
  assumes "sv_clients s ev = Some cl" and "sr_drain_ok env"
    and "decode_request (sr_lib env) (sr_after_buf env) pending = Inr (hdr, item)"
  shows "handleClientRead env ev pending s =
     (if hdr_endpoint hdr = kConfigQuery then doCfgQuery env hdr item ev
      else if hdr_endpoint hdr = kConfigUpdate then doCfgUpdate env hdr item ev
      else raise (RuntimeError ''unknown rpc endpoint''))
     (s\<lparr>sv_clients := (sv_clients s)(ev \<mapsto> cl\<lparr>cl_receiveBuf := pending\<rparr>)\<rparr>)"
  using assms by (simp add: handleClientRead_def Let_def bindE_app)

lemma query_answered:
  assumes cl: "sv_clients s ev = Some cl" and ok: "sr_drain_ok env" "sr_write_ok env"
    and dec: "decode_request (sr_lib env) (sr_after_buf env) pending = Inr (hdr, CMap ps)"
    and ep: "hdr_endpoint hdr = kConfigQuery"
    and key: "ExtractKeyName (CMap ps) = Inr k" "k \<noteq> ''''"
    and fl: "getCfgQueryFlags (sr_lib env) (CMap ps) FlagNone = Inr fl"
    and get: "sr_get env k (sv_store s) = (Inr v, st)"
  shows "handleClientRead env ev pending s
         = (Inr (), answer ev pending
              (reply_packet hdr (cbor_serialize (sr_lib env) (reply_map (sr_lib env) k v fl))) st s)"
  using handleClientRead_decoded [OF cl ok(1) dec] cl ok ep key fl get
  by (simp add: doCfgQuery_def on_store_def bindE_app sendKeyValue_def replyTo_run Let_def answer_def)

lemma update_answered:
  assumes cl: "sv_clients s ev = Some cl" and ok: "sr_drain_ok env" "sr_write_ok env"
    and dec: "decode_request (sr_lib env) (sr_after_buf env) pending = Inr (hdr, CMap ps)"
    and ep: "hdr_endpoint hdr = kConfigUpdate"
    and key: "ExtractKeyName (CMap ps) = Inr k" "k \<noteq> ''''"
    and val: "update_value_loop (sr_lib env) (sr_after_str env) ps PVMonostate = Inr v"
    and put: "sr_put env k v (sv_store s) = (Inr (), st)"
  shows "handleClientRead env ev pending s
         = (Inr (), answer ev pending
              (reply_packet hdr (cbor_serialize (sr_lib env)
                 (reply_map (sr_lib env) k v (IsSetRequest OR ExcludeValue)))) st s)"
proof -
  have "kConfigUpdate \<noteq> kConfigQuery" by (simp add: rpc_constants)
  with handleClientRead_decoded [OF cl ok(1) dec] cl ok ep key val put
  show ?thesis
    by (simp add: doCfgUpdate_def on_store_def bindE_app sendKeyValue_def replyTo_run Let_def answer_def)
qed

section \<open>Outcomes of a read\<close>

text \<open>
  A request either changes nothing in the store or is one write to it that succeeded, for stores
  whose reads leave them alone and whose writes are atomic.
\<close>

definition one_write :: "'s srv_env \<Rightarrow> 's \<Rightarrow> 's \<Rightarrow> bool" where
  "one_write env st st' \<longleftrightarrow> st' = st \<or> (\<exists>k v. sr_put env k v st = (Inr (), st'))"

definition store_effect :: "'s srv_env \<Rightarrow> ('s server, 'a) op \<Rightarrow> bool" where
  "store_effect env m \<longleftrightarrow> (\<forall>s r s'. m s = (r, s') \<longrightarrow> one_write env (sv_store s) (sv_store s'))"

definition store_kept :: "('s server, 'a) op \<Rightarrow> bool" where
  "store_kept m \<longleftrightarrow> (\<forall>s r s'. m s = (r, s') \<longrightarrow> sv_store s' = sv_store s)"

lemma store_kept_pure: "store_kept (ret x)" "store_kept (raise e)" "store_kept (lift r)"
  by (simp_all add: store_kept_def)

lemma store_kept_bindE: "store_kept m \<Longrightarrow> (\<And>x. store_kept (k x)) \<Longrightarrow> store_kept (bindE m k)"
  unfolding store_kept_def bindE_result by fastforce

lemma store_kept_if: "store_kept m \<Longrightarrow> store_kept m' \<Longrightarrow> store_kept (if b then m else m')"
  by simp

lemma store_kept_replyTo: "store_kept (replyTo env ev req payload)"
  by (auto simp: store_kept_def replyTo_def Client_send_def Let_def split: option.splits if_splits)

lemma store_effect_kept: "store_kept m \<Longrightarrow> store_effect env m"
  by (auto simp: store_kept_def store_effect_def one_write_def)

lemma store_effect_bindE_pre:
  "store_kept m \<Longrightarrow> (\<And>x. store_effect env (k x)) \<Longrightarrow> store_effect env (bindE m k)"
  unfolding store_kept_def store_effect_def bindE_result by (metis one_write_def)

lemma store_effect_bindE_post:
  "store_effect env m \<Longrightarrow> (\<And>x. store_kept (k x)) \<Longrightarrow> store_effect env (bindE m k)"
  unfolding store_kept_def store_effect_def bindE_result by metis

lemma store_effect_if:
  "store_effect env m \<Longrightarrow> store_effect env m' \<Longrightarrow> store_effect env (if b then m else m')"
  by simp

locale config_server =
  config_store "sr_get env" "sr_put env" view coerce invar room + cbor_codec "sr_lib env"
  for env :: "'s srv_env" and view coerce invar room
begin

lemma kept_get: "store_kept (on_store (sr_get env k))"
  using get_state [of k] by (auto simp: store_kept_def on_store_def split: prod.splits) (metis snd_conv)

lemma effect_put: "store_effect env (on_store (sr_put env k v))"
proof -
  have "st' = st \<or> (\<exists>k v. sr_put env k v st = (Inr (), st'))" if "sr_put env k v st = (r, st')" for st r st'
    using that put_atomic [of k v st] by (cases r) auto
  then show ?thesis
    by (auto simp: store_effect_def one_write_def on_store_def split: prod.splits)
qed

lemma kept_query: "store_kept (doCfgQuery env hdr item ev)"
  unfolding doCfgQuery_def sendKeyValue_def
  by (intro store_kept_if store_kept_bindE store_kept_pure kept_get store_kept_replyTo)

lemma effect_update: "store_effect env (doCfgUpdate env hdr item ev)"
  unfolding doCfgUpdate_def sendKeyValue_def
  by (cases item; simp only: cbor_item.case)
    (intro store_effect_bindE_pre store_effect_if store_effect_bindE_post effect_put
       store_kept_pure store_kept_replyTo store_effect_kept)+

text \<open>Whatever bytes a client sends: the store is left alone or written once, and what was thrown
  before the write leaves it alone.\<close>

lemma read_store:
  assumes "handleClientRead env ev pending s = (r, s')"
  shows "one_write env (sv_store s) (sv_store s')"
proof (cases "sv_clients s ev")
  case None
  with assms show ?thesis by (auto simp: handleClientRead_def one_write_def)
next
  case (Some cl)
  show ?thesis
  proof (cases "decode_request (sr_lib env) (sr_after_buf env) pending")
    case (Inl e)
    with assms Some show ?thesis
      by (auto simp: handleClientRead_def Let_def one_write_def bindE_app split: if_splits)
  next
    case (Inr p)
    obtain hdr item where p: "p = (hdr, item)" by (cases p)
    let ?s1 = "s\<lparr>sv_clients := (sv_clients s)(ev \<mapsto> cl\<lparr>cl_receiveBuf := pending\<rparr>)\<rparr>"
    have eff: "store_effect env (if hdr_endpoint hdr = kConfigQuery then doCfgQuery env hdr item ev
      else if hdr_endpoint hdr = kConfigUpdate then doCfgUpdate env hdr item ev
      else raise (RuntimeError ''unknown rpc endpoint''))"
      by (intro store_effect_if effect_update store_effect_kept kept_query store_kept_pure)
    show ?thesis
    proof (cases "sr_drain_ok env")
      case True
      from handleClientRead_decoded [OF Some True] Inr p assms eff
      show ?thesis unfolding store_effect_def by fastforce
    next
      case False
      with assms Some show ?thesis
        by (auto simp: handleClientRead_def Let_def one_write_def)
    qed
  qed
qed

end

end
