(* ===== verification/RpcServer_Run.thy ===== *)
theory RpcServer_Run
  imports RpcServer_Spec
begin

text \<open>
  The server over whole sequences of events: the transition relation of the event loop, the
  invariant of the client map, the descriptors that are never closed, and the decoding of the
  packets a correct client sends.
\<close>

section \<open>Decoding\<close>

lemma decode_request_complete:
  assumes "hdr_version h = kRpcVersionLatest"
    and "unat (hdr_length h) = sizeof_rpc_header + length payload"
  shows "decode_request lib after (header_bytes h @ payload @ extra)
         = (case cbor_load lib payload of None \<Rightarrow> Inl (RuntimeError ''cbor_load failed'')
            | Some item \<Rightarrow> Inr (h, item))"
  using assms by (simp add: decode_request_def Let_def split: option.splits)

lemma decode_request_errors:
  "decode_request lib after buf = Inl e \<Longrightarrow> is_std_exception e"
  by (auto simp: decode_request_def Let_def split: option.splits if_splits)

text \<open>A packet that lies in the buffer as a whole is decoded from the buffer alone.\<close>

lemma decode_request_in_bounds:
  assumes "parse_header buf = Some h" and "unat (hdr_length h) \<le> length buf"
  shows "decode_request lib after buf = decode_request lib after' buf"
proof -
  have 8: "sizeof_rpc_header \<le> length buf" using assms(1) parse_header_Some_iff [of buf] by blast
  have "take (unat (hdr_length h) - sizeof_rpc_header) (drop sizeof_rpc_header (buf @ a))
        = take (unat (hdr_length h) - sizeof_rpc_header) (drop sizeof_rpc_header buf)" for a
    using assms(2) 8 by (simp add: drop_append)
  then show ?thesis
    unfolding decode_request_def Let_def assms(1) by (simp only: option.case)
qed

section \<open>The event loop as a transition relation\<close>

text \<open>
  What the kernel and the allocator promise: \<open>accept\<close> returns a descriptor that is not open, and a
  new buffer event has an address no live one has.
\<close>

definition env_ok :: "srv_event \<Rightarrow> 's server \<Rightarrow> bool" where
  "env_ok e s \<longleftrightarrow>
     (case e of
        EvConnect ae \<Rightarrow> ac_fd ae \<notin> set (sv_fds s)
          \<and> (case ac_bev ae of None \<Rightarrow> True | Some ev \<Rightarrow> sv_clients s ev = None)
      | _ \<Rightarrow> True)"

inductive srv_step :: "('s srv_env \<Rightarrow> bool) \<Rightarrow> 's server \<Rightarrow> 's server \<Rightarrow> bool"
  for P :: "'s srv_env \<Rightarrow> bool" where
  step: "P env \<Longrightarrow> \<not> sv_loop_break s \<Longrightarrow> env_ok e s \<Longrightarrow> callback env e s = (Inr (), s')
         \<Longrightarrow> srv_step P s s'"

inductive_cases srv_stepE: "srv_step P s s'"

inductive srv_reach :: "('s srv_env \<Rightarrow> bool) \<Rightarrow> 's server \<Rightarrow> 's server \<Rightarrow> bool"
  for P :: "'s srv_env \<Rightarrow> bool" and s0 :: "'s server" where
  init: "srv_reach P s0 s0"
| run: "srv_reach P s0 s \<Longrightarrow> srv_step P s s' \<Longrightarrow> srv_reach P s0 s'"

lemma srv_reach_invariant:
  assumes "srv_reach P s0 s" and "I s0" and "\<And>s s'. I s \<Longrightarrow> srv_step P s s' \<Longrightarrow> I s'"
  shows "I s"
  using assms by (induction rule: srv_reach.induct) auto

text \<open>The loop of the code runs inside this relation.\<close>

fun envs_ok :: "('s srv_env \<Rightarrow> bool) \<Rightarrow> ('s srv_env \<times> srv_event) list \<Rightarrow> 's server \<Rightarrow> bool" where
  "envs_ok P [] s = True"
| "envs_ok P ((env, e) # es) s =
     (P env \<and> env_ok e s \<and> (\<forall>s'. callback env e s = (Inr (), s') \<longrightarrow> envs_ok P es s'))"

lemma RpcServer_run_reach:
  "RpcServer_run es s = (Inr (), s') \<Longrightarrow> \<not> sv_loop_break s \<Longrightarrow> envs_ok P es s \<Longrightarrow> srv_reach P s s'"
proof (induction es arbitrary: s)
  case Nil
  then show ?case by (simp add: srv_reach.init)
next
  case (Cons ee es)
  obtain env e where ee: "ee = (env, e)" by (cases ee)
  obtain s1 where s1: "callback env e s = (Inr (), s1)"
    and rest: "(if sv_loop_break s1 then (Inr (), s1) else RpcServer_run es s1) = (Inr (), s')"
    using Cons.prems(1) by (auto simp: ee elim!: bindE_InrE)
  have step: "srv_step P s s1"
    using Cons.prems(2,3) s1 by (auto simp: ee intro: srv_step.intros)
  have trans: "srv_reach P s1 t \<Longrightarrow> srv_reach P s t" for t
    by (induction rule: srv_reach.induct) (use step in \<open>auto intro: srv_reach.intros\<close>)
  show ?case
  proof (cases "sv_loop_break s1")
    case True
    with rest step show ?thesis by (auto intro: srv_reach.intros)
  next
    case False
    with rest Cons.IH [of s1] Cons.prems(3) s1 trans show ?thesis by (simp add: ee)
  qed
qed

section \<open>The invariant of the client map\<close>

definition clients_ok :: "'s server \<Rightarrow> bool" where
  "clients_ok s \<longleftrightarrow>
     distinct (sv_fds s)
     \<and> (\<forall>ev cl. sv_clients s ev = Some cl \<longrightarrow> cl_event cl = ev \<and> cl_socket cl \<in> set (sv_fds s))
     \<and> (\<forall>ev ev' cl cl'. sv_clients s ev = Some cl \<longrightarrow> sv_clients s ev' = Some cl' \<longrightarrow>
           cl_socket cl = cl_socket cl' \<longrightarrow> ev = ev')"

lemma clients_ok_frame:
  assumes f: "client_frame ev s s'" and ok: "clients_ok s"
  shows "clients_ok s'"
proof -
  have same: "map_option (\<lambda>cl. (cl_socket cl, cl_event cl)) (sv_clients s' e)
        = map_option (\<lambda>cl. (cl_socket cl, cl_event cl)) (sv_clients s e)" for e
    using f by (cases "e = ev") (auto simp: client_frame_defs)
  have old: "\<exists>cl. sv_clients s e = Some cl \<and> cl_socket cl = cl_socket cl' \<and> cl_event cl = cl_event cl'"
    if "sv_clients s' e = Some cl'" for e cl'
    using same [of e] that by (cases "sv_clients s e") auto
  have fds: "sv_fds s' = sv_fds s" using f by (simp add: client_frame_defs)
  have d: "distinct (sv_fds s)"
    and c: "\<And>e cl. sv_clients s e = Some cl \<Longrightarrow> cl_event cl = e \<and> cl_socket cl \<in> set (sv_fds s)"
    and u: "\<And>e e' cl cl'. sv_clients s e = Some cl \<Longrightarrow> sv_clients s e' = Some cl' \<Longrightarrow>
              cl_socket cl = cl_socket cl' \<Longrightarrow> e = e'"
    using ok unfolding clients_ok_def by blast+
  show ?thesis
    unfolding clients_ok_def fds
  proof (intro conjI allI impI)
    show "distinct (sv_fds s)" by (rule d)
  next
    fix e cl' assume "sv_clients s' e = Some cl'"
    from old [OF this] c show "cl_event cl' = e" by fastforce
  next
    fix e cl' assume "sv_clients s' e = Some cl'"
    from old [OF this] c show "cl_socket cl' \<in> set (sv_fds s)" by fastforce
  next
    fix e e' c1 c2 assume 1: "sv_clients s' e = Some c1" and 2: "sv_clients s' e' = Some c2"
      and eq: "cl_socket c1 = cl_socket c2"
    obtain d1 where "sv_clients s e = Some d1" "cl_socket d1 = cl_socket c1" using old [OF 1] by blast
    moreover obtain d2 where "sv_clients s e' = Some d2" "cl_socket d2 = cl_socket c2"
      using old [OF 2] by blast
    ultimately show "e = e'" using u eq by simp
  qed
qed

lemma clients_ok_erase: "clients_ok s \<Longrightarrow> clients_ok (erase_client ev s)"
proof (cases "sv_clients s ev")
  case (Some cl)
  assume ok: "clients_ok s"
  have "cl_socket c \<noteq> cl_socket cl" if "sv_clients s e = Some c" "e \<noteq> ev" for e c
    using ok Some that unfolding clients_ok_def by metis
  with ok Some show ?thesis
    by (auto simp: clients_ok_def erase_client_def split: if_splits)
qed (simp add: erase_client_def)

lemma clients_ok_accept:
  assumes ok: "clients_ok s" and env: "env_ok (EvConnect ae) s" and acc: "acceptClient ae s = (r, s')"
  shows "clients_ok s'"
proof -
  have fresh: "cl_socket c \<noteq> ac_fd ae" if "sv_clients s e = Some c" for e c
  proof -
    have "cl_socket c \<in> set (sv_fds s)" using ok that by (simp add: clients_ok_def)
    with env show ?thesis by (auto simp: env_ok_def)
  qed
  show ?thesis
    using acc ok env fresh
    by (auto simp: acceptClient_def new_Client_def Let_def clients_ok_def env_ok_def
        split: if_splits option.splits)
qed

lemma clients_ok_step: "clients_ok s \<Longrightarrow> srv_step P s s' \<Longrightarrow> clients_ok s'"
proof (elim srv_stepE)
  fix env e assume ok: "clients_ok s" and env: "env_ok e s" and cb: "callback env e s = (Inr (), s')"
  show ?thesis
  proof (cases e)
    case (EvConnect ae)
    obtain r t where acc: "acceptClient ae s = (r, t)" by (cases "acceptClient ae s")
    with cb EvConnect have "s' = t"
      by (auto simp: callback_def catching_def split: sum.splits if_splits)
    with clients_ok_accept [OF ok _ acc] env EvConnect show ?thesis by simp
  next
    case (EvReadable ev pending)
    obtain r t where rd: "handleClientRead env ev pending s = (r, t)"
      by (cases "handleClientRead env ev pending s")
    have "clients_ok t" using growsD [OF client_frame_read rd] ok by (rule clients_ok_frame)
    with cb EvReadable rd show ?thesis
      by (auto simp: callback_def catching_def abortClient_def clients_ok_erase
          split: sum.splits if_splits)
  next
    case (EvStatus ev flags)
    with cb ok show ?thesis
      by (auto simp: callback_def catching_def handleClientEvent_def abortClient_def clients_ok_erase
          split: sum.splits if_splits option.splits)
  qed (use cb ok in \<open>auto simp: callback_def handleTermination_def clients_ok_def\<close>)
qed

section \<open>Descriptors without an owner\<close>

definition unowned :: "int \<Rightarrow> 's server \<Rightarrow> bool" where
  "unowned fd s \<longleftrightarrow> fd \<in> set (sv_fds s) \<and> (\<forall>ev. map_option cl_socket (sv_clients s ev) \<noteq> Some fd)"

lemma unowned_failed_accept:
  assumes "clients_ok s" and "env_ok (EvConnect ae) s" and "ac_fd ae \<noteq> -1"
    and "acceptClient ae s = (Inl e, s')"
  shows "unowned (ac_fd ae) s'"
proof -
  have s': "s' = s\<lparr>sv_fds := ac_fd ae # sv_fds s\<rparr>"
    using assms(3,4) by (auto simp: acceptClient_def Let_def split: if_splits sum.splits option.splits)
  have "cl_socket cl \<noteq> ac_fd ae" if "sv_clients s ev = Some cl" for ev cl
  proof -
    have "cl_socket cl \<in> set (sv_fds s)" using assms(1) that by (simp add: clients_ok_def)
    with assms(2) show ?thesis by (auto simp: env_ok_def)
  qed
  then show ?thesis by (auto simp: unowned_def s')
qed

lemma unowned_flags:
  "unowned fd (s\<lparr>sv_gRun := a, sv_loop_break := b\<rparr>) = unowned fd s"
  "unowned fd (s\<lparr>sv_kicks := c\<rparr>) = unowned fd s"
  by (simp_all add: unowned_def)

lemma unowned_erase: "unowned fd s \<Longrightarrow> unowned fd (erase_client ev s)"
proof (cases "sv_clients s ev")
  case (Some cl)
  assume u: "unowned fd s"
  then have "map_option cl_socket (sv_clients s ev) \<noteq> Some fd" by (simp add: unowned_def)
  with Some have "fd \<noteq> cl_socket cl" by auto
  with u Some show ?thesis by (simp add: unowned_def erase_client_def in_set_remove1)
qed (simp add: erase_client_def)

lemma unowned_frame: "client_frame ev s s' \<Longrightarrow> unowned fd s \<Longrightarrow> unowned fd s'"
proof -
  assume f: "client_frame ev s s'" and u: "unowned fd s"
  have "map_option cl_socket (sv_clients s' e) = map_option cl_socket (sv_clients s e)" for e
  proof (cases "e = ev")
    case True
    have "map_option fst (map_option (\<lambda>cl. (cl_socket cl, cl_event cl)) (sv_clients s' ev))
          = map_option fst (map_option (\<lambda>cl. (cl_socket cl, cl_event cl)) (sv_clients s ev))"
      using f by (simp only: client_frame_def client_kept_def)
    with True show ?thesis by (simp add: option.map_comp comp_def)
  qed (use f in \<open>simp add: client_frame_defs\<close>)
  moreover have "sv_fds s' = sv_fds s" using f by (simp add: client_frame_defs)
  ultimately show ?thesis using u by (simp add: unowned_def)
qed

lemma acceptClient_effect:
  assumes "acceptClient ae s = (r, t)"
  shows "set (sv_fds s) \<subseteq> set (sv_fds t)
    \<and> (\<forall>e. map_option cl_socket (sv_clients t e) \<in>
          {map_option cl_socket (sv_clients s e), Some (ac_fd ae)})"
  using assms by (auto simp: acceptClient_def new_Client_def Let_def split: if_splits option.splits)

lemma unowned_step: "unowned fd s \<Longrightarrow> srv_step P s s' \<Longrightarrow> unowned fd s'"
proof (elim srv_stepE)
  fix env e assume u: "unowned fd s" and env: "env_ok e s" and cb: "callback env e s = (Inr (), s')"
  show ?thesis
  proof (cases e)
    case (EvConnect ae)
    obtain r t where acc: "acceptClient ae s = (r, t)" by (cases "acceptClient ae s")
    with cb EvConnect have t: "s' = t"
      by (auto simp: callback_def catching_def split: sum.splits if_splits)
    have "ac_fd ae \<noteq> fd" using u env EvConnect by (auto simp: unowned_def env_ok_def)
    have in': "fd \<in> set (sv_fds t)" using u acceptClient_effect [OF acc] by (auto simp: unowned_def)
    have "map_option cl_socket (sv_clients t e') \<noteq> Some fd" for e'
    proof -
      have "map_option cl_socket (sv_clients t e') = map_option cl_socket (sv_clients s e')
            \<or> map_option cl_socket (sv_clients t e') = Some (ac_fd ae)"
        using acceptClient_effect [OF acc] by blast
      moreover have "map_option cl_socket (sv_clients s e') \<noteq> Some fd"
        using u unfolding unowned_def by blast
      ultimately show ?thesis using \<open>ac_fd ae \<noteq> fd\<close> by (metis option.inject)
    qed
    with in' have "unowned fd t" unfolding unowned_def by blast
    then show ?thesis by (simp only: t)
  next
    case (EvReadable ev pending)
    obtain r t where rd: "handleClientRead env ev pending s = (r, t)"
      by (cases "handleClientRead env ev pending s")
    have "unowned fd t" using growsD [OF client_frame_read rd] u by (rule unowned_frame)
    with cb EvReadable rd show ?thesis
      by (auto simp: callback_def catching_def abortClient_def unowned_erase
          split: sum.splits if_splits)
  next
    case (EvStatus ev flags)
    with cb u show ?thesis
      by (auto simp: callback_def catching_def handleClientEvent_def abortClient_def unowned_erase
          split: sum.splits if_splits option.splits)
  qed (use cb u in \<open>auto simp: callback_def handleTermination_def unowned_flags\<close>)
qed

section \<open>The store over a run\<close>

lemma erase_client_store [simp]: "sv_store (erase_client ev s) = sv_store s"
  by (simp add: erase_client_def split: option.splits)

lemma acceptClient_store: "acceptClient ae s = (r, s') \<Longrightarrow> sv_store s' = sv_store s"
  by (auto simp: acceptClient_def Let_def split: if_splits sum.splits option.splits)

lemma callback_store:
  assumes "\<And>ev p r t. handleClientRead env ev p s = (r, t) \<Longrightarrow> one_write env (sv_store s) (sv_store t)"
    and "callback env e s = (r, s')"
  shows "one_write env (sv_store s) (sv_store s')"
proof (cases e)
  case (EvConnect ae)
  with assms(2) show ?thesis
    by (cases "acceptClient ae s")
      (auto simp: callback_def catching_def one_write_def dest: acceptClient_store
        split: sum.splits if_splits)
next
  case (EvReadable ev pending)
  obtain q t where rd: "handleClientRead env ev pending s = (q, t)"
    by (cases "handleClientRead env ev pending s")
  from assms(1) [OF rd] assms(2) EvReadable rd show ?thesis
    by (auto simp: callback_def catching_def abortClient_def split: sum.splits if_splits)
next
  case (EvStatus ev flags)
  with assms(2) show ?thesis
    by (auto simp: callback_def catching_def handleClientEvent_def abortClient_def one_write_def
        split: sum.splits if_splits option.splits)
qed (use assms(2) in \<open>auto simp: callback_def handleTermination_def one_write_def\<close>)

end
