(* ===== verification/RpcServer_Correct.thy ===== *)
theory RpcServer_Correct
  imports RpcServer_Run DataStore_Correct Cbor_Codec
begin

text \<open>
  The RPC server on top of the data store: the environment of \<open>RpcServer\<close> is instantiated with
  \<open>getKey\<close> and \<open>setKey\<close>, the locale \<open>config_server\<close> is interpreted there, and the properties of the
  server are stated: what a query and an update answer and store, what a bad request does, which
  state a client can touch, the invariants of all runs, and the places where the code accepts,
  reads or replies something else than it means to.
\<close>

section \<open>The server of the daemon\<close>

definition confd_env :: "cbor_lib \<Rightarrow> sql_env \<Rightarrow> byte list \<Rightarrow> string \<Rightarrow> bool \<Rightarrow> bool \<Rightarrow> db srv_env" where
  "confd_env lib senv after_buf after_str drain_ok write_ok =
     \<lparr>sr_lib = lib, sr_get = getKey senv, sr_put = setKey senv, sr_after_buf = after_buf,
      sr_after_str = after_str, sr_drain_ok = drain_ok, sr_write_ok = write_ok\<rparr>"

lemma confd_env_simps [simp]:
  "sr_lib (confd_env lib senv ab as dr wr) = lib"
  "sr_get (confd_env lib senv ab as dr wr) = getKey senv"
  "sr_put (confd_env lib senv ab as dr wr) = setKey senv"
  "sr_after_buf (confd_env lib senv ab as dr wr) = ab"
  "sr_after_str (confd_env lib senv ab as dr wr) = as"
  "sr_drain_ok (confd_env lib senv ab as dr wr) = dr"
  "sr_write_ok (confd_env lib senv ab as dr wr) = wr"
  by (simp_all add: confd_env_def)


lemma confd_server:
  assumes "cbor_codec lib"
  shows "config_server (confd_env lib senv ab as dr wr) store_view (stored_as senv) db_inv db_room"
  using assms store.config_store_axioms [of senv] by (simp add: config_server_def)

interpretation confd: config_server "confd_env (ref_lib cb wi na) senv ab as dr wr" store_view
  "stored_as senv" db_inv db_room
  for cb wi na senv ab as dr wr
  by (rule confd_server [OF ref_codec.cbor_codec_axioms])

text \<open>A server without clients on the demonstration database, and one with the client \<open>3\<close>.\<close>

definition demo_client :: client where
  "demo_client = \<lparr>cl_socket = 7, cl_event = 3, cl_receiveBuf = [], cl_transmitBuf = []\<rparr>"

definition demo_server :: "db \<Rightarrow> db server" where
  "demo_server d = \<lparr>sv_clients = [3 \<mapsto> demo_client], sv_store = d, sv_sent = [], sv_fds = [7],
                    sv_gRun = True, sv_loop_break = False, sv_kicks = 0\<rparr>"

definition demo_lib :: cbor_lib where
  "demo_lib = ref_lib (\<lambda>_. False) (\<lambda>_. 0) (\<lambda>_. 0)"

definition demo_env :: "db srv_env" where
  "demo_env = confd_env demo_lib quiet [] [NUL] True True"

lemma demo_codec [simp]: "cbor_codec demo_lib"
  unfolding demo_lib_def by (rule ref_codec.cbor_codec_axioms)

section \<open>The requests of a correct client\<close>

definition query_item :: "string \<Rightarrow> cbor_item" where
  "query_item key = CMap [(cbor_key ''key'', cbor_key key)]"

definition update_item :: "string \<Rightarrow> cbor_item \<Rightarrow> cbor_item" where
  "update_item key v = CMap [(cbor_key ''key'', cbor_key key), (cbor_key ''value'', v)]"

text \<open>A packet whose header announces exactly the payload that follows.\<close>

definition well_framed :: "rpc_header \<Rightarrow> byte list \<Rightarrow> bool" where
  "well_framed h payload \<longleftrightarrow> hdr_version h = kRpcVersionLatest
     \<and> unat (hdr_length h) = sizeof_rpc_header + length payload"

lemma NUL_literals [simp]:
  "NUL \<notin> set ''key''" "NUL \<notin> set ''value''" "NUL \<notin> set ''forceFloat''" "NUL \<notin> set ''found''"
  "NUL \<notin> set ''updated''"
  by (simp_all add: NUL_def)

lemma key_literals [simp]:
  "strncmp_eq ''key'' ''key'' (length ''key'')"
  "strncmp_eq ''value'' ''value'' (length ''value'')"
  "\<not> strncmp_eq ''value'' ''key'' (length ''value'')"
  "\<not> strncmp_eq ''key'' ''value'' (length ''key'')"
  "\<not> strncmp_eq ''key'' ''forceFloat'' (length ''key'')"
  by (simp_all add: strncmp_eq_iff)

lemma map_key_definite [simp]: "map_key (cbor_key s) = Inr s"
  by (simp add: map_key_def cbor_key_def)

lemma key_name_definite [simp]: "key_name_value (cbor_key s) = Inr s"
  by (simp add: key_name_value_def cbor_key_def)

lemma request_parses:
  "ExtractKeyName (query_item k) = Inr k"
  "ExtractKeyName (update_item k v) = Inr k"
  "getCfgQueryFlags lib (query_item k) FlagNone = Inr FlagNone"
  using key_literals by (simp_all add: query_item_def update_item_def del: length_Cons strncmp_eq.simps)

lemma query_encodable: "length k < 2 ^ 32 \<Longrightarrow> encodable (query_item k)"
  by (simp add: query_item_def cbor_key_def)

lemma update_encodable: "length k < 2 ^ 32 \<Longrightarrow> encodable v \<Longrightarrow> encodable (update_item k v)"
  by (simp add: update_item_def cbor_key_def)

lemma decode_framed:
  assumes "cbor_codec lib" and "encodable x" and "well_framed h (cbor_serialize lib x)"
  shows "decode_request lib after (header_bytes h @ cbor_serialize lib x @ extra) = Inr (h, x)"
  using assms(3) cbor_codec.load_serialize_exact [OF assms(1,2)]
  by (simp add: well_framed_def decode_request_complete)

section \<open>Properties\<close>

text \<open>What the reply to a query must say about a key with the given content.\<close>

definition query_answer :: "cbor_lib \<Rightarrow> string \<Rightarrow> PropertyValue option \<Rightarrow> cbor_item" where
  "query_answer lib key content =
     (case content of
        None \<Rightarrow> CMap [(cbor_build_string ''key'', cbor_build_string key),
                      (cbor_build_string ''found'', cbor_build_bool False)]
      | Some v \<Rightarrow> CMap [(cbor_build_string ''key'', cbor_build_string key),
                        (cbor_build_string ''value'', the (value_item lib FlagNone v)),
                        (cbor_build_string ''found'', cbor_build_bool True)])"

definition update_answer :: "string \<Rightarrow> cbor_item" where
  "update_answer key = CMap [(cbor_build_string ''key'', cbor_build_string key),
                             (cbor_build_string ''updated'', cbor_build_bool True)]"

lemma store_view_not_mono: "db_inv d \<Longrightarrow> store_view d n \<noteq> Some PVMonostate"
proof
  assume inv: "db_inv d" and m: "store_view d n = Some PVMonostate"
  then obtain r where r: "key_of d n = Some r"
    using store_view_None_iff [OF db_invD(1) [OF inv], of n] by (cases "key_of d n") auto
  from store_view_key_type(3) [OF db_invD(1) [OF inv] r m] show False by simp
qed

lemma update_value_not_mono: "update_value lib after item = Inr v \<Longrightarrow> v \<noteq> PVMonostate"
  by (cases "(lib, after, item)" rule: update_value.cases)
    (auto simp: bindS_Inr_conv split: option.splits if_splits)

lemma query_callback:
  assumes "cbor_codec lib" and "no_fault senv" and "db_inv (sv_store s)"
    and "sv_clients s ev \<noteq> None"
    and "well_framed h (cbor_serialize lib (query_item key))" and "hdr_endpoint h = kConfigQuery"
    and "key \<noteq> ''''" and "length key < 2 ^ 32"
  shows "\<exists>s'. callback (confd_env lib senv ab as True True)
            (EvReadable ev (header_bytes h @ cbor_serialize lib (query_item key) @ extra)) s = (Inr (), s')
      \<and> sv_store s' = sv_store s \<and> sv_clients s' ev \<noteq> None
      \<and> sv_sent s' = sv_sent s @ [(ev, reply_packet h (cbor_serialize lib
            (query_answer lib key (store_view (sv_store s) (c_str key)))))]"
proof -
  let ?env = "confd_env lib senv ab as True True" and ?content = "store_view (sv_store s) (c_str key)"
  let ?v = "case ?content of None \<Rightarrow> PVMonostate | Some x \<Rightarrow> x"
  obtain cl where cl: "sv_clients s ev = Some cl" using assms(4) by auto
  have dec: "decode_request (sr_lib ?env) (sr_after_buf ?env)
      (header_bytes h @ cbor_serialize lib (query_item key) @ extra) = Inr (h, query_item key)"
    using decode_framed [OF assms(1) query_encodable assms(5)] assms(8) by simp
  have answer: "reply_map lib key ?v FlagNone = query_answer lib key ?content"
    using store_view_not_mono [OF assms(3), of "c_str key"]
    by (cases ?content)
      (auto simp: query_answer_def reply_map_missing intro!: reply_map_found,
        metis option.collapse value_item_None_iff)
  have "handleClientRead ?env ev (header_bytes h @ cbor_serialize lib (query_item key) @ extra) s
        = (Inr (), answer ev (header_bytes h @ cbor_serialize lib (query_item key) @ extra)
             (reply_packet h (cbor_serialize lib (query_answer lib key ?content))) (sv_store s) s)"
    unfolding answer [symmetric]
    using query_answered [OF cl, of ?env _ h _ key FlagNone ?v "sv_store s"] dec assms(2,3,6,7)
      request_parses(1) [of key] request_parses(3) [of lib key] getKey_correct [OF assms(2,3), of key]
    by (simp add: query_item_def)
  then show ?thesis by (simp add: callback_def catching_def)
qed

lemma update_callback:
  assumes "cbor_codec lib" and "no_fault senv" and "db_inv (sv_store s)" and "not_full (sv_store s)"
    and "sv_clients s ev \<noteq> None"
    and "well_framed h (cbor_serialize lib (update_item key item))" and "hdr_endpoint h = kConfigUpdate"
    and "key \<noteq> ''''" and "length key < 2 ^ 32" and "encodable item"
    and "update_value lib as item = Inr v"
    and "set_spec senv (store_view (sv_store s)) key v = Inr m"
  shows "\<exists>s'. callback (confd_env lib senv ab as True True)
            (EvReadable ev (header_bytes h @ cbor_serialize lib (update_item key item) @ extra)) s
            = (Inr (), s')
      \<and> setKey senv key v (sv_store s) = (Inr (), sv_store s') \<and> store_view (sv_store s') = m
      \<and> sv_clients s' ev \<noteq> None
      \<and> sv_sent s' = sv_sent s @ [(ev, reply_packet h (cbor_serialize lib (update_answer key)))]"
proof -
  let ?env = "confd_env lib senv ab as True True"
  let ?req = "header_bytes h @ cbor_serialize lib (update_item key item) @ extra"
  obtain cl where cl: "sv_clients s ev = Some cl" using assms(5) by auto
  have dec: "decode_request (sr_lib ?env) (sr_after_buf ?env) ?req = Inr (h, update_item key item)"
    using decode_framed [OF assms(1) update_encodable assms(6)] assms(9,10) by simp
  obtain d' where d': "setKey senv key v (sv_store s) = (Inr (), d')" "store_view d' = m"
    using setKey_exact [OF assms(2-4), of key v] assms(12) by auto
  have val: "update_value_loop lib as [(cbor_key ''key'', cbor_key key), (cbor_key ''value'', item)]
      PVMonostate = Inr v"
    using key_literals assms(11) by (simp del: length_Cons strncmp_eq.simps)
  have nm: "v \<noteq> PVMonostate" using assms(11) by (rule update_value_not_mono)
  have "handleClientRead ?env ev ?req s
        = (Inr (), answer ev ?req (reply_packet h (cbor_serialize lib (update_answer key))) d' s)"
    using update_answered [OF cl, of ?env ?req h "[(cbor_key ''key'', cbor_key key), (cbor_key ''value'', item)]"
        key v d'] dec assms(7,8) request_parses(2) [of key item] val d'(1) reply_map_updated [OF nm, of lib key]
    by (simp add: update_item_def update_answer_def)
  with d' show ?thesis by (simp add: callback_def catching_def)
qed


text \<open>C2. A query: a well-framed request for a key is answered with one packet that carries the
  request's endpoint and tag, the reply flag, and a map with the key, its content in the store
  and whether it was found; the store is not changed and the client stays connected. What follows
  the request in the receive buffer is discarded.\<close>

theorem query_is_answered:
  assumes "cbor_codec lib" and "no_fault senv" and "db_inv (sv_store s)"
    and "sv_clients s ev \<noteq> None"
    and "well_framed h (cbor_serialize lib (query_item key))" and "hdr_endpoint h = kConfigQuery"
    and "key \<noteq> ''''" and "length key < 2 ^ 32"
  shows "\<exists>s'. callback (confd_env lib senv ab as True True)
            (EvReadable ev (header_bytes h @ cbor_serialize lib (query_item key) @ extra)) s = (Inr (), s')
      \<and> sv_store s' = sv_store s \<and> sv_clients s' ev \<noteq> None
      \<and> sv_sent s' = sv_sent s @ [(ev, reply_packet h (cbor_serialize lib
            (query_answer lib key (store_view (sv_store s) (c_str key)))))]"
  using query_callback [OF assms] .

text \<open>C3. An update: a well-framed request to set a key to a value is performed on the store before
  it is answered, and the answer says that the key was updated. The value stored is the decoded
  value of the request.\<close>

theorem update_is_stored:
  assumes "cbor_codec lib" and "no_fault senv" and "db_inv (sv_store s)" and "not_full (sv_store s)"
    and "sv_clients s ev \<noteq> None"
    and "well_framed h (cbor_serialize lib (update_item key item))" and "hdr_endpoint h = kConfigUpdate"
    and "key \<noteq> ''''" and "length key < 2 ^ 32" and "encodable item"
    and "update_value lib as item = Inr v"
    and "set_spec senv (store_view (sv_store s)) key v = Inr m"
  shows "\<exists>s'. callback (confd_env lib senv ab as True True)
            (EvReadable ev (header_bytes h @ cbor_serialize lib (update_item key item) @ extra)) s
            = (Inr (), s')
      \<and> store_view (sv_store s') = m \<and> sv_clients s' ev \<noteq> None
      \<and> sv_sent s' = sv_sent s @ [(ev, reply_packet h (cbor_serialize lib (update_answer key)))]"
  using update_callback [OF assms] by blast

lemma demo_server_ok [simp]:
  "sv_store (demo_server d) = d" "sv_clients (demo_server d) 3 = Some demo_client"
  "sv_sent (demo_server d) = []"
  by (simp_all add: demo_server_def)

text \<open>The header of a request, as a client fills it in.\<close>

definition request_header :: "u8 \<Rightarrow> u8 \<Rightarrow> nat \<Rightarrow> rpc_header" where
  "request_header ep tag n =
     \<lparr>hdr_version = kRpcVersionLatest, hdr_length = u16_of_size (sizeof_rpc_header + n),
      hdr_endpoint = ep, hdr_tag = tag, hdr_flags = 0, hdr_reserved = 0\<rparr>"

lemma request_header_fields [simp]:
  "hdr_endpoint (request_header ep tag n) = ep" "hdr_tag (request_header ep tag n) = tag"
  by (simp_all add: request_header_def)

lemma request_header_framed:
  "sizeof_rpc_header + length payload < 65536 \<Longrightarrow> well_framed (request_header ep tag (length payload)) payload"
  by (simp add: well_framed_def request_header_def unat_u16_of_size_exact)

lemma demo_serialize_length:
  "length (cbor_serialize demo_lib (query_item ''k'')) < 100"
  "length (cbor_serialize demo_lib (update_item ''k'' (CUint (CInt8 5)))) < 100"
  by (simp_all add: demo_lib_def query_item_def update_item_def cbor_key_def enc_head_def)


lemma query_is_answered_witness:
  "\<exists>h s'. callback demo_env (EvReadable 3 (header_bytes h @ cbor_serialize demo_lib (query_item ''k'')))
            (demo_server demo_db) = (Inr (), s')
      \<and> sv_sent s' = [(3, reply_packet h (cbor_serialize demo_lib (query_answer demo_lib ''k'' None)))]"
proof -
  let ?p = "cbor_serialize demo_lib (query_item ''k'')"
  let ?h = "request_header kConfigQuery 5 (length ?p)"
  have "well_framed ?h ?p"
    using demo_serialize_length(1) by (intro request_header_framed) (simp add: sizeof_rpc_header_def)
  from query_is_answered [OF demo_codec quiet_no_fault, of "demo_server demo_db" 3 ?h "''k''" "[]" "[NUL]" "[]"]
    this show ?thesis
    by (intro exI [of _ ?h]) (auto simp: demo_env_def)
qed

lemma update_is_stored_witness:
  "\<exists>h s'. callback demo_env
            (EvReadable 3 (header_bytes h @ cbor_serialize demo_lib (update_item ''k'' (CUint (CInt8 5)))))
            (demo_server demo_db) = (Inr (), s')
      \<and> store_view (sv_store s') = [''k'' \<mapsto> PVInteger 5]"
proof -
  let ?p = "cbor_serialize demo_lib (update_item ''k'' (CUint (CInt8 5)))"
  let ?h = "request_header kConfigUpdate 5 (length ?p)"
  have "well_framed ?h ?p"
    using demo_serialize_length(2) by (intro request_header_framed) (simp add: sizeof_rpc_header_def)
  moreover have "set_spec quiet (store_view demo_db) ''k'' (PVInteger 5) = Inr [''k'' \<mapsto> PVInteger 5]"
    by (simp add: set_spec_def NUL_def)
  ultimately show ?thesis
    using update_is_stored [OF demo_codec quiet_no_fault, of "demo_server demo_db" 3 ?h "''k''"
        "CUint (CInt8 5)" "[NUL]" "PVInteger 5" "[''k'' \<mapsto> PVInteger 5]" "[]" "[]"]
    by (intro exI [of _ ?h]) (auto simp: demo_env_def)
qed

text \<open>C8. Isolation: whatever bytes a client sends, in whatever environment, the callback touches no
  other client and sends packets to this client only. Either the client stays connected, on the
  same descriptor, and no descriptor is closed, or it is removed and the one descriptor closed is
  its own. The store is left alone or has one write of \<open>setKey\<close> more that succeeded. A buffer event
  without a client changes nothing.\<close>

theorem read_is_isolated:
  assumes "cbor_codec lib"
    and "callback (confd_env lib senv ab as dr wr) (EvReadable ev bytes) s = (r, s')"
  shows "(\<forall>e. e \<noteq> ev \<longrightarrow> sv_clients s' e = sv_clients s e)
    \<and> (\<exists>ps. sv_sent s' = sv_sent s @ map (Pair ev) ps)
    \<and> (case sv_clients s ev of
         None \<Rightarrow> s' = s
       | Some cl \<Rightarrow>
           (\<exists>cl'. sv_clients s' ev = Some cl' \<and> cl_socket cl' = cl_socket cl \<and> sv_fds s' = sv_fds s)
           \<or> sv_clients s' ev = None
             \<and> sv_fds s' = (if cl_socket cl = -1 then sv_fds s else remove1 (cl_socket cl) (sv_fds s)))
    \<and> (sv_store s' = sv_store s \<or> (\<exists>k v. setKey senv k v (sv_store s) = (Inr (), sv_store s')))"
proof -
  let ?env = "confd_env lib senv ab as dr wr"
  obtain q t where rd: "handleClientRead ?env ev bytes s = (q, t)"
    by (cases "handleClientRead ?env ev bytes s")
  have f: "client_frame ev s t" by (rule growsD [OF client_frame_read rd])
  have w: "one_write ?env (sv_store s) (sv_store t)"
    by (rule config_server.read_store [OF confd_server [OF assms(1)] rd])
  have s': "s' = t \<or> s' = erase_client ev t"
    using assms(2) rd by (auto simp: callback_def catching_def abortClient_def split: sum.splits if_splits)
  show ?thesis
  proof (cases "sv_clients s ev")
    case None
    with rd have "t = s" by (simp add: handleClientRead_def)
    with s' None have "s' = s" by (auto simp: erase_client_def)
    with None show ?thesis by (auto intro: exI [of _ "[]"])
  next
    case (Some cl)
    with f obtain cl' where cl': "sv_clients t ev = Some cl'" "cl_socket cl' = cl_socket cl"
      by (auto simp: client_frame_defs)
    have 1: "(\<forall>e. e \<noteq> ev \<longrightarrow> sv_clients s' e = sv_clients t e) \<and> sv_sent s' = sv_sent t
        \<and> sv_store s' = sv_store t"
      using s' by (auto simp: erase_client_def split: option.splits)
    have 2: "sv_clients s' ev = Some cl' \<and> sv_fds s' = sv_fds t
      \<or> sv_clients s' ev = None
        \<and> sv_fds s' = (if cl_socket cl = -1 then sv_fds t else remove1 (cl_socket cl) (sv_fds t))"
      using s' cl' by (auto simp: erase_client_def)
    from f have 3: "sv_fds t = sv_fds s" "\<forall>e. e \<noteq> ev \<longrightarrow> sv_clients t e = sv_clients s e"
      "\<exists>ps. sv_sent t = sv_sent s @ map (Pair ev) ps"
      by (simp_all add: client_frame_defs)
    with 1 2 cl'(2) w Some show ?thesis by (auto simp: one_write_def)
  qed
qed

text \<open>A server with two clients, on the descriptors 7 and 9.\<close>

definition demo_pair :: "db server" where
  "demo_pair = (demo_server demo_db)
     \<lparr>sv_clients := [3 \<mapsto> demo_client, 4 \<mapsto> demo_client\<lparr>cl_socket := 9, cl_event := 4\<rparr>], sv_fds := [9, 7]\<rparr>"

lemma read_is_isolated_witness:
  "\<exists>r s'. callback demo_env (EvReadable 3 [0, 0]) demo_pair = (r, s')
    \<and> sv_clients s' 4 = Some (demo_client\<lparr>cl_socket := 9, cl_event := 4\<rparr>)
    \<and> (sv_fds s' = [9, 7] \<or> sv_fds s' = [9] \<and> sv_clients s' 3 = None)"
proof -
  obtain r s' where run: "callback demo_env (EvReadable 3 [0, 0]) demo_pair = (r, s')"
    by (cases "callback demo_env (EvReadable 3 [0, 0]) demo_pair")
  with read_is_isolated [OF demo_codec, of quiet "[]" "[NUL]" True True 3 "[0, 0]" demo_pair r s']
  show ?thesis by (auto simp: demo_env_def demo_pair_def demo_client_def)
qed

text \<open>C9. A bad request: a packet that is too short, has another version, announces an impossible
  length, holds no CBOR item, or names no endpoint makes the server drop the client and close its
  socket; nothing is sent and the store is not touched.\<close>

theorem bad_request_drops_client:
  assumes "sv_clients s ev = Some cl"
    and "case decode_request lib ab bytes of
           Inl _ \<Rightarrow> True
         | Inr (hdr, _) \<Rightarrow> hdr_endpoint hdr \<noteq> kConfigQuery \<and> hdr_endpoint hdr \<noteq> kConfigUpdate"
  shows "\<exists>s'. callback (confd_env lib senv ab as dr wr) (EvReadable ev bytes) s = (Inr (), s')
    \<and> sv_clients s' = (sv_clients s)(ev := None) \<and> sv_sent s' = sv_sent s \<and> sv_store s' = sv_store s
    \<and> sv_fds s' = (if cl_socket cl = -1 then sv_fds s else remove1 (cl_socket cl) (sv_fds s))"
proof -
  let ?env = "confd_env lib senv ab as dr wr"
  define buf where "buf = (if dr then bytes else resize (length bytes) (cl_receiveBuf cl))"
  let ?s1 = "s\<lparr>sv_clients := (sv_clients s)(ev \<mapsto> cl\<lparr>cl_receiveBuf := buf\<rparr>)\<rparr>"
  have "\<exists>e. handleClientRead ?env ev bytes s = (Inl e, ?s1) \<and> is_std_exception e"
  proof (cases "decode_request lib ab bytes")
    case (Inl e)
    with decode_request_errors [OF Inl] assms(1) show ?thesis
      by (simp add: handleClientRead_def Let_def buf_def bindE_app)
  next
    case (Inr p)
    with assms show ?thesis
      by (cases p) (simp add: handleClientRead_def Let_def buf_def bindE_app)
  qed
  then show ?thesis
    by (auto simp: callback_def catching_def abortClient_def erase_client_def)
qed

lemma bad_request_drops_client_witness:
  "sv_clients (snd (callback demo_env (EvReadable 3 [0, 0]) (demo_server demo_db))) = Map.empty"
proof -
  have "decode_request demo_lib [] [0, 0] = Inl (RuntimeError ''read too few bytes from client'')"
    by (simp add: decode_request_def)
  with bad_request_drops_client [of "demo_server demo_db" 3 demo_client demo_lib "[]" "[0, 0]" quiet "[NUL]"
      True True]
  show ?thesis by (auto simp: demo_env_def demo_server_def)
qed


text \<open>Key names in requests are not compared for equality: an entry is taken for the key name
  exactly when its name is a prefix of \<open>key\<close> (the empty string included) or continues \<open>key\<close> behind
  a zero byte, and any other entry is ignored. The last entry taken decides.\<close>

theorem request_key_matching:
  "ExtractKeyName (CMap (ps @ [(cbor_key name, cbor_key k)]))
   = (case ExtractKeyName_loop ps '''' of
        Inl e \<Rightarrow> Inl e
      | Inr k0 \<Rightarrow> Inr (if prefix name ''key'' \<or> prefix (''key'' @ [NUL]) name then k else k0))"
proof -
  have "ExtractKeyName_loop (ps @ [(cbor_key name, cbor_key k)]) k1
        = (case ExtractKeyName_loop ps k1 of
             Inl e \<Rightarrow> Inl e
           | Inr k0 \<Rightarrow> Inr (if prefix name ''key'' \<or> prefix (''key'' @ [NUL]) name then k else k0))" for k1
  proof (induction ps arbitrary: k1)
    case Nil
    have "strncmp_eq name ''key'' (length name) \<longleftrightarrow> prefix name ''key'' \<or> prefix (''key'' @ [NUL]) name"
      by (rule strncmp_eq_iff) (rule NUL_literals)
    then show ?case by (simp del: strncmp_eq.simps)
  next
    case (Cons p ps)
    obtain a b where p: "p = (a, b)" by (cases p)
    show ?case
      by (cases "map_key a"; cases "key_name_value b") (auto simp: p Cons.IH)
  qed
  then show ?thesis by simp
qed

text \<open>C23. The length field of a reply is the size of the packet exactly when the payload has fewer
  than 65528 bytes; a longer one (the data store accepts blobs of any size) is sent with the size
  modulo 65536 in its header.\<close>

theorem reply_length_field:
  assumes "sv_clients s ev \<noteq> None" and "sr_write_ok env"
  shows "\<exists>pkt hdr s'. replyTo env ev req payload s = (Inr (), s')
     \<and> sv_sent s' = sv_sent s @ [(ev, pkt)]
     \<and> parse_header pkt = Some hdr \<and> drop sizeof_rpc_header pkt = payload
     \<and> hdr_version hdr = kRpcVersionLatest \<and> hdr_endpoint hdr = hdr_endpoint req
     \<and> hdr_tag hdr = hdr_tag req \<and> hdr_flags hdr = 1
     \<and> unat (hdr_length hdr) = length pkt mod 65536
     \<and> (unat (hdr_length hdr) = length pkt \<longleftrightarrow> length payload < 65528)"
proof -
  obtain cl where "sv_clients s ev = Some cl" using assms(1) by auto
  from replyTo_run [OF this, of env req payload] assms(2)
  obtain s' where "replyTo env ev req payload s = (Inr (), s')"
    and "sv_sent s' = sv_sent s @ [(ev, reply_packet req payload)]"
    by (simp add: Let_def)
  moreover have "sizeof_rpc_header + length payload < 65536 \<longleftrightarrow> length payload < 65528"
    by (auto simp: sizeof_rpc_header_def)
  ultimately show ?thesis
    by (intro exI [of _ "reply_packet req payload"]
        exI [of _ "reply_header req (sizeof_rpc_header + length payload)"] exI [of _ s'])
      (simp add: parse_reply_packet reply_header_def unat_u16_of_size_eq_iff, simp add: unat_u16_of_size)
qed

lemma reply_length_field_witness:
  "\<exists>s' pkt hdr. replyTo demo_env 3 (request_header kConfigQuery 9 0) (replicate 65528 0) (demo_server demo_db)
        = (Inr (), s')
     \<and> parse_header pkt = Some hdr \<and> unat (hdr_length hdr) \<noteq> length pkt
     \<and> sv_sent s' = [(3, pkt)]"
  using reply_length_field [of "demo_server demo_db" 3 demo_env "request_header kConfigQuery 9 0"
      "replicate 65528 0"]
  by (auto simp: demo_env_def simp del: replicate.simps)

text \<open>The reply to an update that carries no value (it succeeds on a key that is null) has lost its
  \<open>updated\<close> entry: the map was made for one pair and the second is not added.\<close>

theorem update_without_value_reply:
  assumes "no_fault senv" and "db_inv (sv_store s)"
    and "sv_clients s ev \<noteq> None" and "store_view (sv_store s) (c_str key) = Some PVNull"
    and "key \<noteq> ''''"
  shows "\<exists>s'. doCfgUpdate (confd_env lib senv ab as True True) h (query_item key) ev s = (Inr (), s')
    \<and> sv_sent s' = sv_sent s @ [(ev, reply_packet h (cbor_serialize lib
          (CMap [(cbor_build_string ''key'', cbor_build_string key)])))]"
proof -
  let ?env = "confd_env lib senv ab as True True"
  obtain cl where cl: "sv_clients s ev = Some cl" using assms(3) by auto
  have wf: "db_wf (sv_store s)" using assms(2) by (rule db_invD)
  obtain d' where d': "setKey senv key PVMonostate (sv_store s) = (Inr (), d')"
  proof -
    obtain r where r: "key_of (sv_store s) (c_str key) = Some r"
      using assms(4) store_view_None_iff [OF wf, of "c_str key"]
      by (cases "key_of (sv_store s) (c_str key)") auto
    have ty: "kr_type r = vtNull" using store_view_key_type(2) [OF wf r assms(4)] by simp
    have in': "r \<in> set (db_keys (sv_store s))" using r by (auto dest: key_of_SomeD)
    have id: "kr_id r = unat (of_nat (kr_id r) :: u32)" using rowid_fits [OF assms(2) in'] by simp
    have "\<exists>d'. updateKey senv (of_nat (kr_id r)) (kr_type r) PVMonostate (sv_store s) = (Inr (), d')"
      by (rule updateKey_runs [OF assms(1) wf in' id]) simp
    with r ty that show ?thesis
      by (auto simp: setKey_def select_key_info_run [OF assms(1) wf] Let_def)
  qed
  have "update_value_loop lib as [(cbor_key ''key'', cbor_key key)] PVMonostate = Inr PVMonostate"
    using key_literals by (simp del: length_Cons strncmp_eq.simps)
  with d' cl assms(5) request_parses(1) [of key] show ?thesis
    by (simp add: doCfgUpdate_def query_item_def on_store_def bindE_app sendKeyValue_def replyTo_run
        Let_def reply_map_not_updated)
qed

lemma update_without_value_reply_witness:
  "\<exists>d s'. doCfgUpdate demo_env (request_header kConfigUpdate 1 0) (query_item ''k'') 3 (demo_server d)
            = (Inr (), s')
      \<and> map snd (sv_sent s') = [reply_packet (request_header kConfigUpdate 1 0)
          (cbor_serialize demo_lib (CMap [(cbor_build_string ''key'', cbor_build_string ''k'')]))]"
proof -
  obtain d where d: "db_inv d" "store_view d = [''k'' \<mapsto> PVNull]"
    using demo_set [of "''k''" PVNull] by (auto simp: NUL_def)
  with update_without_value_reply [OF quiet_no_fault, of "demo_server d" 3 "''k''" demo_lib "[]" "[NUL]"
      "request_header kConfigUpdate 1 0"]
  show ?thesis by (intro exI [of _ d]) (auto simp: demo_env_def NUL_def)
qed


text \<open>An update to null does not store null: the item is taken for a boolean, so that a key that is
  new becomes an integer (whichever boolean libcbor reads out of a null), and a key that holds
  anything but an integer refuses it as a change of type.\<close>

theorem null_update_is_no_null:
  "\<exists>b. update_value lib after cbor_new_null = Inr (PVBool b)
     \<and> (\<forall>senv m key. set_spec senv m key (PVBool b) =
          (case m (c_str key) of
             None \<Rightarrow> if key = '''' then Inl (InvalidArgument ''invalid name'')
                     else Inr (m(c_str key \<mapsto> PVInteger (if b then 1 else 0)))
           | Some (PVInteger _) \<Rightarrow> Inr (m(c_str key \<mapsto> PVInteger (if b then 1 else 0)))
           | Some (PVBool _) \<Rightarrow> Inr (m(c_str key \<mapsto> PVInteger (if b then 1 else 0)))
           | Some PVNull \<Rightarrow> Inl (SqliteError ''syntax error'')
           | Some _ \<Rightarrow> Inl (InvalidArgument ''changing type of key not allowed'')))"
  by (intro exI [of _ "ctrl_as_bool lib 22"])
    (auto simp: cbor_new_null_def set_spec_def value_type_defs split: option.splits PropertyValue.splits)

text \<open>The string stored by an update is the one that was sent only if the byte behind libcbor's
  buffer happens to be zero: a string without zero bytes is stored with everything that follows
  it in memory up to the next zero.\<close>

theorem string_value_reads_on:
  assumes "NUL \<notin> set str" and "NUL \<in> set after"
  shows "update_value lib after (CString (Some str)) = Inr (PVString (str @ c_str after))
    \<and> (update_value lib after (CString (Some str)) = Inr (PVString str) \<longleftrightarrow> hd after = NUL)"
proof -
  have "c_str (str @ after) = str @ c_str after"
    using assms(1) by (induction str) (auto simp: c_str_def)
  with assms(2) show ?thesis
    by (cases after) (auto simp: read_c_str_def c_str_def)
qed

lemma string_value_reads_on_witness:
  "update_value demo_lib ''!'' (CString (Some ''a'')) \<noteq> Inr (PVString ''a'')
   \<and> update_value demo_lib [CHR ''!'', NUL] (CString (Some ''a'')) = Inr (PVString ''a!'')"
  using string_value_reads_on [of "''a''" "[CHR ''!'', NUL]" demo_lib]
  by (auto simp: NUL_def c_str_def read_c_str_def)

text \<open>C22. A packet whose announced length fits the receive buffer is decoded from the buffer alone; one
  that announces up to eight bytes more is accepted and its payload read from the memory behind
  the buffer; more than that is refused.\<close>

theorem request_bounds:
  assumes "parse_header buf = Some h" and "hdr_version h = kRpcVersionLatest"
    and "sizeof_rpc_header \<le> unat (hdr_length h)"
  shows "(unat (hdr_length h) \<le> length buf \<longrightarrow>
            decode_request lib after buf = decode_request lib after' buf)
    \<and> (length buf < unat (hdr_length h) \<and> unat (hdr_length h) \<le> length buf + 8 \<longrightarrow>
            decode_request lib after buf =
              (case cbor_load lib (drop 8 buf @ take (unat (hdr_length h) - length buf) after) of
                 None \<Rightarrow> Inl (RuntimeError ''cbor_load failed'') | Some item \<Rightarrow> Inr (h, item)))
    \<and> (length buf + 8 < unat (hdr_length h) \<longrightarrow>
            decode_request lib after buf = Inl (RuntimeError ''invalid header length (too long)''))"
proof (intro conjI impI)
  have 8: "8 \<le> length buf"
    using assms(1) parse_header_Some_iff [of buf] by (auto simp: sizeof_rpc_header_def)
  show "decode_request lib after buf = decode_request lib after' buf" if "unat (hdr_length h) \<le> length buf"
    by (rule decode_request_in_bounds [OF assms(1) that])
  show "decode_request lib after buf =
      (case cbor_load lib (drop 8 buf @ take (unat (hdr_length h) - length buf) after) of
         None \<Rightarrow> Inl (RuntimeError ''cbor_load failed'') | Some item \<Rightarrow> Inr (h, item))"
    if "length buf < unat (hdr_length h) \<and> unat (hdr_length h) \<le> length buf + 8"
  proof -
    have "take (unat (hdr_length h) - 8) (drop 8 (buf @ after))
          = drop 8 buf @ take (unat (hdr_length h) - length buf) after"
      using that 8 by (simp add: diff_le_mono)
    with assms that show ?thesis by (auto simp: decode_request_def sizeof_rpc_header_def Let_def)
  qed
  show "decode_request lib after buf = Inl (RuntimeError ''invalid header length (too long)'')"
    if "length buf + 8 < unat (hdr_length h)"
    using assms that by (auto simp: decode_request_def sizeof_rpc_header_def Let_def)
qed

lemma request_bounds_witness:
  "decode_request demo_lib [0xA0] [0, 1, 9, 0, 1, 0, 0, 0]
   = (case cbor_load demo_lib [0xA0] of None \<Rightarrow> Inl (RuntimeError ''cbor_load failed'')
      | Some item \<Rightarrow> Inr (\<lparr>hdr_version = kRpcVersionLatest, hdr_length = 9, hdr_endpoint = 1,
                           hdr_tag = 0, hdr_flags = 0, hdr_reserved = 0\<rparr>, item))"
proof -
  let ?h = "\<lparr>hdr_version = kRpcVersionLatest, hdr_length = 9, hdr_endpoint = 1, hdr_tag = 0,
             hdr_flags = 0, hdr_reserved = 0\<rparr>"
  have "parse_header [0, 1, 9, 0, 1, 0, 0, 0] = Some ?h"
    by (simp add: le16_word_def kRpcVersionLatest_def)
  from request_bounds [OF this, of demo_lib "[0xA0]" "[]"] show ?thesis
    by (simp add: sizeof_rpc_header_def)
qed


section \<open>All runs of the server\<close>

definition confd_envs :: "cbor_lib \<Rightarrow> db srv_env \<Rightarrow> bool" where
  "confd_envs lib env \<longleftrightarrow> (\<exists>senv ab as dr wr. env = confd_env lib senv ab as dr wr)"

definition only_sets :: "(sql_env \<times> store_call) list \<Rightarrow> bool" where
  "only_sets cs \<longleftrightarrow> (\<forall>ec \<in> set cs. \<exists>k v. snd ec = SetKey k v)"

lemma run_calls_append: "run_calls (cs @ ds) d = run_calls ds (run_calls cs d)"
  by (induction cs arbitrary: d) auto

lemma step_is_call:
  assumes "cbor_codec lib" and "srv_step (confd_envs lib) s s'"
  shows "\<exists>cs. only_sets cs \<and> sv_store s' = run_calls cs (sv_store s)"
  using assms(2)
proof (rule srv_stepE)
  fix env e assume env: "confd_envs lib env" and cb: "callback env e s = (Inr (), s')"
  obtain senv ab as dr wr where e: "env = confd_env lib senv ab as dr wr"
    using env by (auto simp: confd_envs_def)
  have "one_write env (sv_store s) (sv_store s')"
    unfolding e
    by (rule callback_store [OF _ cb [unfolded e]], rule config_server.read_store [OF confd_server [OF assms(1)]])
  then consider "sv_store s' = sv_store s" | k v where "setKey senv k v (sv_store s) = (Inr (), sv_store s')"
    by (auto simp: one_write_def e)
  then show ?thesis
  proof cases
    case 1
    then show ?thesis by (intro exI [of _ "[]"]) (simp add: only_sets_def)
  next
    case 2
    then show ?thesis by (intro exI [of _ "[(senv, SetKey k v)]"]) (simp add: only_sets_def)
  qed
qed

lemma reach_is_calls:
  assumes "cbor_codec lib" and "srv_reach (confd_envs lib) s0 s"
  shows "\<exists>cs. only_sets cs \<and> sv_store s = run_calls cs (sv_store s0)"
  using assms(2)
proof (induction rule: srv_reach.induct)
  case init
  show ?case by (intro exI [of _ "[]"]) (simp add: only_sets_def)
next
  case (run s s')
  then obtain cs ds where "only_sets cs" "sv_store s = run_calls cs (sv_store s0)"
    "only_sets ds" "sv_store s' = run_calls ds (sv_store s)"
    using step_is_call [OF assms(1)] by blast
  then show ?case
    by (intro exI [of _ "cs @ ds"]) (auto simp: only_sets_def run_calls_append)
qed

text \<open>C7. In every state the event loop reaches, from a server without clients, whatever the clients
  send and whatever fails: each client is filed under its own event with an open descriptor of its
  own, the database has its invariant (while fewer than \<open>2 ^ 32\<close> identifiers were handed out), and
  its content is the one a sequence of \<open>setKey\<close> calls made.\<close>

theorem server_invariant:
  assumes "cbor_codec lib" and "srv_reach (confd_envs lib) s0 s"
    and "sv_clients s0 = Map.empty" and "distinct (sv_fds s0)" and "db_inv (sv_store s0)"
  shows "distinct (sv_fds s)
    \<and> (\<forall>ev cl. sv_clients s ev = Some cl \<longrightarrow> cl_event cl = ev \<and> cl_socket cl \<in> set (sv_fds s))
    \<and> (\<forall>ev ev' cl cl'. sv_clients s ev = Some cl \<longrightarrow> sv_clients s ev' = Some cl' \<longrightarrow>
          cl_socket cl = cl_socket cl' \<longrightarrow> ev = ev')
    \<and> (db_room (sv_store s) \<longrightarrow> db_inv (sv_store s))
    \<and> (\<exists>cs. only_sets cs \<and> sv_store s = run_calls cs (sv_store s0))"
proof -
  have "clients_ok s0" using assms(3,4) by (simp add: clients_ok_def)
  then have "clients_ok s"
    using srv_reach_invariant [OF assms(2), of clients_ok] clients_ok_step by blast
  moreover obtain cs where "only_sets cs" "sv_store s = run_calls cs (sv_store s0)"
    using reach_is_calls [OF assms(1,2)] by blast
  ultimately show ?thesis
    using run_calls_inv [OF assms(5), of cs] unfolding clients_ok_def by auto
qed

definition idle_server :: "db server" where
  "idle_server = (demo_server demo_db)\<lparr>sv_clients := Map.empty, sv_fds := []\<rparr>"

lemma server_invariant_witness:
  "db_inv (sv_store (handleTermination idle_server))"
proof -
  have "confd_envs demo_lib demo_env" unfolding confd_envs_def demo_env_def by blast
  then have "srv_step (confd_envs demo_lib) idle_server (handleTermination idle_server)"
    by (rule srv_step.intros [where e = EvSignal])
      (simp_all add: idle_server_def demo_server_def env_ok_def callback_def)
  then have "srv_reach (confd_envs demo_lib) idle_server (handleTermination idle_server)"
    by (rule srv_reach.run [OF srv_reach.init])
  from server_invariant [OF demo_codec this] show ?thesis
    by (simp add: idle_server_def handleTermination_def db_invD)
qed

text \<open>A descriptor that was accepted but whose client could not be set up (the socket could not be
  made non-blocking, or the buffer event could not be created or enabled) is never closed: it has
  no owner, and stays open in every state reached afterwards.\<close>

theorem failed_accept_leaks:
  assumes "clients_ok s" and "env_ok (EvConnect ae) s" and "ac_fd ae \<noteq> -1"
    and "\<not> ac_nonblocking ae \<or> ac_bev ae = None \<or> \<not> ac_enable ae"
    and "callback env (EvConnect ae) s = (Inr (), s')"
    and "srv_reach P s' t"
  shows "ac_fd ae \<in> set (sv_fds t) \<and> (\<forall>ev. map_option cl_socket (sv_clients t ev) \<noteq> Some (ac_fd ae))"
proof -
  obtain e where "acceptClient ae s = (Inl e, s')"
    using assms(3-5) by (auto simp: callback_def catching_def acceptClient_def new_Client_def Let_def
        split: if_splits option.splits sum.splits)
  then have "unowned (ac_fd ae) s'" by (rule unowned_failed_accept [OF assms(1-3)])
  then have "unowned (ac_fd ae) t"
    using srv_reach_invariant [OF assms(6), of "unowned (ac_fd ae)"] unowned_step by blast
  then show ?thesis by (simp add: unowned_def)
qed

lemma failed_accept_leaks_witness:
  "9 \<in> set (sv_fds (snd (callback demo_env
       (EvConnect \<lparr>ac_fd = 9, ac_nonblocking = False, ac_bev = None, ac_enable = True\<rparr>) idle_server)))"
proof -
  let ?ae = "\<lparr>ac_fd = 9, ac_nonblocking = False, ac_bev = None, ac_enable = True\<rparr>"
  have "clients_ok idle_server" "env_ok (EvConnect ?ae) idle_server"
    by (simp_all add: idle_server_def clients_ok_def env_ok_def)
  moreover obtain s' where s': "callback demo_env (EvConnect ?ae) idle_server = (Inr (), s')"
    by (simp add: callback_def catching_def acceptClient_def Let_def)
  ultimately have "ac_fd ?ae \<in> set (sv_fds s')
      \<and> (\<forall>ev. map_option cl_socket (sv_clients s' ev) \<noteq> Some (ac_fd ?ae))"
    by (intro failed_accept_leaks [OF _ _ _ _ s' srv_reach.init]) simp_all
  with s' show ?thesis by simp
qed

end
