(* ===== verification/RpcConnection.thy ===== *)
theory RpcConnection
  imports Rpc_Types
begin

text \<open>
  The client's connection to confd: \<open>src/lib/RpcConnection.cpp\<close> and \<open>RpcConnection.h\<close>.

  The state is the connection object (tag counter and the two buffers) together with the state
  \<open>'w\<close> of whatever is at the other end of its socket. The two system calls on the socket are
  parameters; the locale \<open>rpc_peer\<close> states what the code expects of a stream socket whose peer
  answers at once, and proves the exchange of a request and its reply from it.
\<close>

section \<open>State\<close>

record 'w conn =
  cn_socket :: int
  cn_nextTag :: u8
  cn_transmitBuf :: "byte list"
  cn_receiveBuf :: "byte list"
  cn_peer :: 'w

text \<open>\<open>write\<close> and \<open>read\<close>: the number of bytes taken, the bytes delivered, or an error.\<close>

record 'w sys_io =
  io_write :: "byte list \<Rightarrow> ('w, nat) op"
  io_read :: "nat \<Rightarrow> ('w, byte list) op"

definition on_peer :: "('w, 'a) op \<Rightarrow> ('w conn, 'a) op" where
  "on_peer m = (\<lambda>c. case m (cn_peer c) of (r, w) \<Rightarrow> (r, c\<lparr>cn_peer := w\<rparr>))"

section \<open>Buffers\<close>

definition resize_buf :: "nat \<Rightarrow> byte list \<Rightarrow> byte list" where
  "resize_buf n bs = take n bs @ replicate (n - length bs) 0"

definition put_bytes :: "byte list \<Rightarrow> nat \<Rightarrow> byte list \<Rightarrow> byte list" where
  "put_bytes buf off bs = take off buf @ bs @ drop (off + length bs) buf"

lemma length_resize_buf [simp]: "length (resize_buf n bs) = n"
  by (simp add: resize_buf_def)

lemma length_put_bytes: "off + length bs \<le> length buf \<Longrightarrow> length (put_bytes buf off bs) = length buf"
  by (simp add: put_bytes_def)

section \<open>The operations\<close>

text \<open>The raw \<open>sendPacket\<close>.\<close>

definition sendPacket_raw :: "'w sys_io \<Rightarrow> byte list \<Rightarrow> ('w conn, unit) op" where
  "sendPacket_raw io packet =
     bindE (on_peer (io_write io packet)) (\<lambda>n.
       if n \<noteq> length packet then raise (RuntimeError ''insufficient write'') else ret ())"

definition request_packet :: "u8 \<Rightarrow> u8 \<Rightarrow> byte list \<Rightarrow> byte list \<Rightarrow> byte list" where
  "request_packet ep tag payload transmitBuf =
     (let msgSize = sizeof_rpc_header + length payload;
          buf1 = put_bytes (resize_buf msgSize transmitBuf) 0 (replicate sizeof_rpc_header 0);
          buf2 = (if payload \<noteq> [] then put_bytes buf1 sizeof_rpc_header payload else buf1);
          hdr = \<lparr>hdr_version = kRpcVersionLatest, hdr_length = u16_of_size msgSize,
                 hdr_endpoint = ep, hdr_tag = tag, hdr_flags = 0, hdr_reserved = 0\<rparr>
      in put_bytes buf2 0 (header_bytes hdr))"

definition sendPacket :: "'w sys_io \<Rightarrow> u8 \<Rightarrow> byte list \<Rightarrow> ('w conn, u8) op" where
  "sendPacket io ep payload =
     (\<lambda>c. let tag = cn_nextTag c + 1;
               buf = request_packet ep tag payload (cn_transmitBuf c)
           in bindE (sendPacket_raw io buf) (\<lambda>_. ret tag)
                (c\<lparr>cn_nextTag := tag, cn_transmitBuf := buf\<rparr>))"

text \<open>
  \<open>receivePacket\<close>: the packet it returns is the whole receive buffer. The buffer is resized when
  there is a payload to read, and never otherwise.
\<close>

definition check_header :: "byte list \<Rightarrow> exn + nat" where
  "check_header buf =
     (case parse_header buf of
        None \<Rightarrow> Inl (Undefined ''header'')
      | Some hdr \<Rightarrow>
          if hdr_version hdr \<noteq> kRpcVersionLatest then Inl (RuntimeError ''invalid rpc version'')
          else if unat (hdr_length hdr) < sizeof_rpc_header
          then Inl (RuntimeError ''invalid rpc message length'')
          else Inr (unat (hdr_length hdr) - sizeof_rpc_header))"

text \<open>Reading into the receive buffer at an offset; the bytes arrive even when they are too few.\<close>

definition read_into :: "'w sys_io \<Rightarrow> nat \<Rightarrow> nat \<Rightarrow> string \<Rightarrow> ('w conn, unit) op" where
  "read_into io off n what =
     bindE (on_peer (io_read io n)) (\<lambda>bs.
       (\<lambda>c. (if length bs \<noteq> n then Inl (RuntimeError what) else Inr (),
              c\<lparr>cn_receiveBuf := put_bytes (cn_receiveBuf c) off bs\<rparr>)))"

definition receivePacket :: "'w sys_io \<Rightarrow> ('w conn, byte list) op" where
  "receivePacket io =
     (\<lambda>c. bindE (read_into io 0 sizeof_rpc_header ''insufficient read (header)'') (\<lambda>_ c1.
        bindE (lift (check_header (cn_receiveBuf c1))) (\<lambda>payloadToRead.
          if payloadToRead \<noteq> 0 then
            (\<lambda>c2. bindE (read_into io sizeof_rpc_header payloadToRead ''insufficient read (payload)'')
               (\<lambda>_ c3. (Inr (cn_receiveBuf c3), c3))
               (c2\<lparr>cn_receiveBuf := resize_buf (sizeof_rpc_header + payloadToRead) (cn_receiveBuf c2)\<rparr>))
          else (\<lambda>c2. (Inr (cn_receiveBuf c2), c2))) c1)
        (if length (cn_receiveBuf c) < sizeof_rpc_header
         then c\<lparr>cn_receiveBuf := resize_buf sizeof_rpc_header (cn_receiveBuf c)\<rparr> else c))"

definition sendPacketWithReply :: "'w sys_io \<Rightarrow> u8 \<Rightarrow> byte list \<Rightarrow> ('w conn, byte list) op" where
  "sendPacketWithReply io ep payload =
     bindE (sendPacket io ep payload) (\<lambda>tag.
       bindE (receivePacket io) (\<lambda>replyPacket.
         if replyPacket = [] then raise (LogicError ''received empty reply packet?'')
         else (case parse_header replyPacket of
                 None \<Rightarrow> raise (Undefined ''header'')
               | Some replyHdr \<Rightarrow>
                   if hdr_endpoint replyHdr \<noteq> ep then raise (RuntimeError ''ep mismatch'')
                   else if hdr_tag replyHdr \<noteq> tag then raise (RuntimeError ''tag mismatch'')
                   else ret (drop sizeof_rpc_header replyPacket))))"

section \<open>The packets that are sent\<close>

definition request_hdr :: "u8 \<Rightarrow> u8 \<Rightarrow> nat \<Rightarrow> rpc_header" where
  "request_hdr ep tag n =
     \<lparr>hdr_version = kRpcVersionLatest, hdr_length = u16_of_size (sizeof_rpc_header + n),
      hdr_endpoint = ep, hdr_tag = tag, hdr_flags = 0, hdr_reserved = 0\<rparr>"

lemma request_packet_eq:
  "request_packet ep tag payload tx = header_bytes (request_hdr ep tag (length payload)) @ payload"
proof -
  let ?z = "replicate sizeof_rpc_header (0 :: byte)"
  let ?n = "sizeof_rpc_header + length payload"
  have 1: "put_bytes (resize_buf ?n tx) 0 ?z = ?z @ drop sizeof_rpc_header (resize_buf ?n tx)"
    by (simp add: put_bytes_def)
  have 2: "put_bytes (?z @ drop sizeof_rpc_header (resize_buf ?n tx)) sizeof_rpc_header payload
           = ?z @ payload"
    by (simp add: put_bytes_def)
  show ?thesis
  proof (cases "payload = []")
    case True
    with 1 show ?thesis by (simp add: request_packet_def request_hdr_def Let_def put_bytes_def)
  next
    case False
    with 1 2 show ?thesis
      by (simp add: request_packet_def request_hdr_def Let_def) (simp add: put_bytes_def)
  qed
qed

text \<open>The end of the stream instead of a reply.\<close>

lemma receivePacket_eof:
  assumes "io_read io sizeof_rpc_header (cn_peer c) = (Inr [], w)"
  shows "\<exists>c'. receivePacket io c = (Inl (RuntimeError ''insufficient read (header)''), c') \<and> cn_peer c' = w"
proof (cases "length (cn_receiveBuf c) < sizeof_rpc_header")
  case True
  with assms show ?thesis
    by (simp add: receivePacket_def read_into_def on_peer_def bindE_app sizeof_rpc_header_def)
next
  case False
  with assms show ?thesis
    by (simp add: receivePacket_def read_into_def on_peer_def bindE_app) (simp add: sizeof_rpc_header_def)
qed

section \<open>The socket\<close>

text \<open>No operation on a connection changes the descriptor it holds.\<close>

lemma socket_on_peer [untouched_intros]: "untouched cn_socket (on_peer m)"
  by (rule untouchedI) (auto simp: on_peer_def split: prod.splits)

lemma socket_sendPacket [untouched_intros]: "untouched cn_socket (sendPacket io ep payload)"
  unfolding sendPacket_def sendPacket_raw_def Let_def
  by (rule untouched_pre) (intro untouched_intros, simp)

lemma socket_read_into [untouched_intros]: "untouched cn_socket (read_into io off n what)"
proof -
  have "untouched cn_socket (\<lambda>c. (r, c\<lparr>cn_receiveBuf := f c\<rparr>))" for f and r :: "exn + unit"
    by (simp add: untouched_def)
  then show ?thesis
    unfolding read_into_def untouched_def bindE_result
    using socket_on_peer by (fastforce dest: untouchedD)
qed

lemma socket_receivePacket [untouched_intros]: "untouched cn_socket (receivePacket io)"
proof -
  have whole: "untouched cn_socket (\<lambda>c. (Inr (cn_receiveBuf c), c))" by (simp add: untouched_def)
  have rest: "untouched cn_socket (\<lambda>c2. bindE (read_into io sizeof_rpc_header n what)
      (\<lambda>_ c3. (Inr (cn_receiveBuf c3), c3))
      (c2\<lparr>cn_receiveBuf := resize_buf (sizeof_rpc_header + n) (cn_receiveBuf c2)\<rparr>))" for n what
    by (rule untouched_pre [where m = "\<lambda>_. bindE (read_into io sizeof_rpc_header n what)
          (\<lambda>_ c3. (Inr (cn_receiveBuf c3), c3))"])
      (rule untouched_bindE [OF socket_read_into whole], simp)
  have check: "untouched cn_socket (\<lambda>c1. bindE (lift (check_header (cn_receiveBuf c1))) k c1)"
    if "\<And>n. untouched cn_socket (k n)" for k :: "nat \<Rightarrow> ('a conn, byte list) op"
    by (rule untouched_pre [where g = "\<lambda>c. c"]) (rule untouched_bindE [OF untouched_basic(3) that], simp)
  show ?thesis
    unfolding receivePacket_def
    by (rule untouched_pre, rule untouched_bindE [OF socket_read_into check])
      (auto intro: rest whole untouched_if)
qed

lemma socket_sendPacketWithReply [untouched_intros]: "untouched cn_socket (sendPacketWithReply io ep payload)"
  unfolding sendPacketWithReply_def by (intro untouched_intros)

section \<open>A peer that answers\<close>

text \<open>
  A stream socket: a packet written while the peer is up and nothing is pending is taken as a
  whole, and reading
  delivers pending bytes in order.
\<close>

locale rpc_peer =
  fixes io :: "'w sys_io"
    and up :: "'w \<Rightarrow> bool"
    and pending :: "'w \<Rightarrow> byte list"
    and deliver :: "byte list \<Rightarrow> 'w \<Rightarrow> 'w"
    and consume :: "nat \<Rightarrow> 'w \<Rightarrow> 'w"
  assumes write_whole: "up w \<Longrightarrow> pending w = [] \<Longrightarrow> io_write io p w = (Inr (length p), deliver p w)"
    and read_pending: "0 < n \<Longrightarrow> n \<le> length (pending w) \<Longrightarrow>
          io_read io n w = (Inr (take n (pending w)), consume n w)"
    and pending_consume: "n \<le> length (pending w) \<Longrightarrow> pending (consume n w) = drop n (pending w)"
begin

lemma sendPacket_run:
  assumes "up (cn_peer c)" and "pending (cn_peer c) = []"
  shows "sendPacket io ep payload c =
     (let tag = cn_nextTag c + 1; pkt = header_bytes (request_hdr ep tag (length payload)) @ payload
      in (Inr tag, c\<lparr>cn_nextTag := tag, cn_transmitBuf := pkt, cn_peer := deliver pkt (cn_peer c)\<rparr>))"
  using write_whole [OF assms]
  by (simp add: sendPacket_def sendPacket_raw_def request_packet_eq on_peer_def bindE_app Let_def)

text \<open>A reply that is pending as a whole, with a payload, is received whatever the buffer held.\<close>

lemma receivePacket_run:
  assumes p: "pending (cn_peer c) = header_bytes h @ payload"
    and v: "hdr_version h = kRpcVersionLatest"
    and l: "unat (hdr_length h) = sizeof_rpc_header + length payload"
    and ne: "payload \<noteq> []"
  shows "receivePacket io c =
     (Inr (header_bytes h @ payload),
      c\<lparr>cn_receiveBuf := header_bytes h @ payload,
        cn_peer := consume (length payload) (consume sizeof_rpc_header (cn_peer c))\<rparr>)"
proof -
  let ?c0 = "if length (cn_receiveBuf c) < sizeof_rpc_header
    then c\<lparr>cn_receiveBuf := resize_buf sizeof_rpc_header (cn_receiveBuf c)\<rparr> else c"
  let ?b0 = "cn_receiveBuf ?c0" and ?w1 = "consume sizeof_rpc_header (cn_peer c)"
  let ?b1 = "header_bytes h @ drop sizeof_rpc_header ?b0"
  have s: "0 < sizeof_rpc_header" by (simp add: sizeof_rpc_header_def)
  have "io_read io sizeof_rpc_header (cn_peer c) = (Inr (header_bytes h), ?w1)"
    using read_pending [OF s, of "cn_peer c"] p by simp
  then have r1: "read_into io 0 sizeof_rpc_header ''insufficient read (header)'' ?c0
      = (Inr (), ?c0\<lparr>cn_peer := ?w1, cn_receiveBuf := ?b1\<rparr>)"
    by (simp add: read_into_def on_peer_def bindE_app put_bytes_def)
  have p1: "pending ?w1 = payload" using pending_consume [of sizeof_rpc_header "cn_peer c"] p by simp
  have "io_read io (length payload) ?w1 = (Inr payload, consume (length payload) ?w1)"
    using read_pending [of "length payload" ?w1] p1 ne by simp
  moreover have "put_bytes (resize_buf (sizeof_rpc_header + length payload) ?b1) sizeof_rpc_header payload
      = header_bytes h @ payload"
    by (simp add: put_bytes_def) (simp add: resize_buf_def)
  ultimately have r2: "read_into io sizeof_rpc_header (length payload) ''insufficient read (payload)''
      (?c0\<lparr>cn_peer := ?w1, cn_receiveBuf := resize_buf (sizeof_rpc_header + length payload) ?b1\<rparr>)
      = (Inr (), c\<lparr>cn_receiveBuf := header_bytes h @ payload, cn_peer := consume (length payload) ?w1\<rparr>)"
    by (simp add: read_into_def on_peer_def bindE_app)
  have "check_header ?b1 = Inr (length payload)"
    using v l by (simp add: check_header_def)
  with r1 r2 ne show ?thesis
    by (simp add: receivePacket_def bindE_app)
qed

text \<open>The exchange: a peer that answers the request with a matching reply.\<close>

lemma exchange:
  assumes "up (cn_peer c)" and "pending (cn_peer c) = []"
    and "tag = cn_nextTag c + 1"
    and "pkt = header_bytes (request_hdr ep tag (length payload)) @ payload"
    and "pending (deliver pkt (cn_peer c)) = header_bytes h @ reply"
    and "hdr_version h = kRpcVersionLatest" and "hdr_endpoint h = ep" and "hdr_tag h = tag"
    and "unat (hdr_length h) = sizeof_rpc_header + length reply" and "reply \<noteq> []"
  shows "sendPacketWithReply io ep payload c =
     (Inr reply, c\<lparr>cn_nextTag := tag, cn_transmitBuf := pkt, cn_receiveBuf := header_bytes h @ reply,
        cn_peer := consume (length reply) (consume sizeof_rpc_header (deliver pkt (cn_peer c)))\<rparr>)"
  using sendPacket_run [OF assms(1,2), of ep payload]
    receivePacket_run [of "c\<lparr>cn_nextTag := tag, cn_transmitBuf := pkt,
      cn_peer := deliver pkt (cn_peer c)\<rparr>" h reply] assms
  by (simp add: sendPacketWithReply_def bindE_app Let_def)

lemma exchange_done:
  assumes "pending (deliver pkt w) = header_bytes h @ reply"
  shows "pending (consume (length reply) (consume sizeof_rpc_header (deliver pkt w))) = []"
  using assms pending_consume [of sizeof_rpc_header "deliver pkt w"]
    pending_consume [of "length reply" "consume sizeof_rpc_header (deliver pkt w)"]
  by simp

end

end
