(* ===== verification/Libconfd.thy ===== *)
theory Libconfd
  imports RpcConnection Cbor
begin

text \<open>
  The client library: \<open>include/lib/confd.h\<close>, \<open>src/lib/Exceptions.h\<close> and \<open>src/lib/wrapper/\<close>.

  A call returns its status and what it has written through its out pointers (\<open>None\<close>: nothing was
  written); a pointer argument that is null is \<open>None\<close> or \<open>False\<close>. The state is the shared
  connection, if there is one. Undefined behaviour and a call that never returns leave through the
  left of the sum.
\<close>

section \<open>Status codes\<close>

definition kConfdStatusSuccess :: int where "kConfdStatusSuccess = 0"
definition kConfdTypeMismatch :: int where "kConfdTypeMismatch = 1"
definition kConfdAccessDenied :: int where "kConfdAccessDenied = 2"
definition kConfdNotFound :: int where "kConfdNotFound = 3"
definition kConfdNotSupported :: int where "kConfdNotSupported = 4"
definition kConfdInvalidResponse :: int where "kConfdInvalidResponse = 5"
definition kConfdNullValue :: int where "kConfdNullValue = 6"
definition kConfdNoMemory :: int where "kConfdNoMemory = 7"
definition kConfdInvalidArguments :: int where "kConfdInvalidArguments = 8"

lemmas confd_status_defs = kConfdStatusSuccess_def kConfdTypeMismatch_def kConfdAccessDenied_def
  kConfdNotFound_def kConfdNotSupported_def kConfdInvalidResponse_def kConfdNullValue_def
  kConfdNoMemory_def kConfdInvalidArguments_def

text \<open>What is behind the library: the socket, libcbor, the allocator, and \<open>strerror\<close>.\<close>

record 'w confd_env =
  ce_io :: "'w sys_io"
  ce_lib :: cbor_lib
  ce_alloc :: bool

section \<open>The shared connection\<close>

type_synonym 'w shared = "'w conn option"

text \<open>\<open>RpcConnection::The()\<close> is a null pointer before \<open>confd_open\<close>; every call follows it.\<close>

definition on_shared :: "('w conn, 'a) op \<Rightarrow> ('w shared, 'a) op" where
  "on_shared m =
     (\<lambda>g. case g of
             None \<Rightarrow> (Inl (Undefined ''RpcConnection::The() is null''), None)
           | Some c \<Rightarrow> (case m c of (r, c') \<Rightarrow> (r, Some c')))"

text \<open>What \<open>socket\<close> and \<open>connect\<close> answer: an error number, or the descriptor and the peer that was
  reached.\<close>

record 'w dial_env =
  de_socket :: "int + int"
  de_connect :: "string \<Rightarrow> int + 'w"

text \<open>The static member \<open>gShared\<close>, and the descriptors the process has open.\<close>

record 'w lib_globals =
  lg_gShared :: "'w shared"
  lg_fds :: "int list"

text \<open>The path of a socket address holds 107 characters and a terminator.\<close>

definition sun_path :: "string \<Rightarrow> string" where
  "sun_path path = take 107 (c_str path)"

text \<open>The constructor and the destructor, on the open descriptors. An object whose constructor throws
  is not destroyed.\<close>

definition new_RpcConnection :: "'w dial_env \<Rightarrow> string \<Rightarrow> (int list, 'w conn) op" where
  "new_RpcConnection de socketPath =
     (\<lambda>fds. case de_socket de of
        Inl errno \<Rightarrow> (Inl (SystemError errno ''create rpc socket''), fds)
      | Inr fd \<Rightarrow>
          (case de_connect de (sun_path socketPath) of
             Inl errno \<Rightarrow> (Inl (SystemError errno ''dial rpc socket''), fd # fds)
           | Inr w \<Rightarrow> (Inr \<lparr>cn_socket = fd, cn_nextTag = 0, cn_transmitBuf = [], cn_receiveBuf = [],
                            cn_peer = w\<rparr>, fd # fds)))"

definition RpcConnection_delete :: "'w conn \<Rightarrow> int list \<Rightarrow> int list" where
  "RpcConnection_delete c fds = (if cn_socket c \<noteq> -1 then filter (\<lambda>fd. fd \<noteq> cn_socket c) fds else fds)"

definition RpcConnection_Init :: "'w dial_env \<Rightarrow> string \<Rightarrow> ('w lib_globals, unit) op" where
  "RpcConnection_Init de path =
     (\<lambda>g. if lg_gShared g \<noteq> None then (Inl (LogicError ''rpc connection already initialized!''), g)
          else (case new_RpcConnection de path (lg_fds g) of
                  (Inl e, fds) \<Rightarrow> (Inl e, g\<lparr>lg_fds := fds\<rparr>)
                | (Inr c, fds) \<Rightarrow> (Inr (), g\<lparr>lg_gShared := Some c, lg_fds := fds\<rparr>)))"

definition confd_open :: "'w dial_env \<Rightarrow> string option \<Rightarrow> 'w lib_globals \<Rightarrow> int \<times> 'w lib_globals" where
  "confd_open de socketPath g =
     (let realPath = (case socketPath of Some p \<Rightarrow> p | None \<Rightarrow> ''/var/run/confd/rpc.sock'') in
      case RpcConnection_Init de realPath g of
        (Inr _, g') \<Rightarrow> (0, g')
      | (Inl (SystemError errno _), g') \<Rightarrow> (- errno, g')
      | (Inl _, g') \<Rightarrow> (-1, g'))"

text \<open>\<open>delete\<close> of a null pointer does nothing.\<close>

definition RpcConnection_Deinit :: "('w lib_globals, unit) op" where
  "RpcConnection_Deinit =
     (\<lambda>g. case lg_gShared g of
             None \<Rightarrow> (Inr (), g)
           | Some c \<Rightarrow> (Inr (), g\<lparr>lg_gShared := None, lg_fds := RpcConnection_delete c (lg_fds g)\<rparr>))"

definition confd_close :: "'w lib_globals \<Rightarrow> int \<times> 'w lib_globals" where
  "confd_close g = (case RpcConnection_Deinit g of (_, g') \<Rightarrow> (0, g'))"

text \<open>\<open>confd_strerror\<close>: \<open>strerror\<close> is the C library's.\<close>

definition gErrorStrings :: "string list" where
  "gErrorStrings = [''success'', ''value type mismatch'', ''access denied'', ''key not found'',
     ''operation is not supported'', ''invalid confd response'', ''value is null'', ''out of memory'',
     ''invalid arguments'']"

definition confd_strerror :: "(int \<Rightarrow> string) \<Rightarrow> int \<Rightarrow> string" where
  "confd_strerror strerror error =
     (if 0 \<le> error then
        if int (length gErrorStrings) \<le> error then ''(unknown)'' else gErrorStrings ! nat error
      else strerror (- error))"

section \<open>Requests\<close>

definition SerializeKeyRequest :: "cbor_lib \<Rightarrow> string \<Rightarrow> byte list" where
  "SerializeKeyRequest lib keyName =
     cbor_serialize lib (cbor_map_item
       (cbor_map_add (cbor_new_definite_map 1) (cbor_build_string ''key'') (cbor_build_string keyName)))"

definition SerializeUpdateRequest :: "cbor_lib \<Rightarrow> string \<Rightarrow> cbor_item \<Rightarrow> byte list" where
  "SerializeUpdateRequest lib keyName value =
     cbor_serialize lib (cbor_map_item
       (cbor_map_add
         (cbor_map_add (cbor_new_definite_map 2) (cbor_build_string ''key'') (cbor_build_string keyName))
         (cbor_build_string ''value'') value))"

text \<open>The status an exception becomes.\<close>

fun status_of :: "exn \<Rightarrow> int" where
  "status_of (ConfdError status _) = status"
| "status_of (SystemError errno _) = - errno"
| "status_of _ = -1"

text \<open>A handler's outcome together with what it has written through the out pointer.\<close>

type_synonym 'o handler = "cbor_item \<Rightarrow> (exn + int) \<times> 'o option"

definition finish :: "(exn + int) \<times> 'o option \<Rightarrow> exn + int \<times> 'o option" where
  "finish r =
     (case r of
        (Inr status, out) \<Rightarrow> Inr (status, out)
      | (Inl e, out) \<Rightarrow> if is_std_exception e then Inr (status_of e, out) else Inl e)"

text \<open>\<open>ExtractValue\<close>: the two entries are found by \<open>strncmp\<close> with the length of the received key.\<close>

definition response_key :: "cbor_item \<Rightarrow> exn + string" where
  "response_key k =
     (if \<not> cbor_isa_string k
      then Inl (ConfdError kConfdInvalidResponse ''invalid root key type (expected string)'')
      else bindS (cbor_string_handle k) (\<lambda>h.
        case h of None \<Rightarrow> Inl (ConfdError kConfdInvalidResponse ''failed to get root key'')
        | Some keyStr \<Rightarrow> Inr keyStr))"

fun ExtractValue_loop :: "cbor_lib \<Rightarrow> (cbor_item \<times> cbor_item) list \<Rightarrow> bool \<times> cbor_item option
    \<Rightarrow> exn + bool \<times> cbor_item option" where
  "ExtractValue_loop lib [] acc = Inr acc"
| "ExtractValue_loop lib ((k, v) # ps) (found, value) =
     bindS (response_key k) (\<lambda>keyStr.
       if strncmp_eq keyStr ''found'' (length keyStr) then
         if \<not> cbor_isa_float_ctrl v \<or> \<not> cbor_is_bool v
         then Inl (ConfdError kConfdInvalidResponse ''invalid `found` key (expected bool)'')
         else bindS (cbor_get_bool lib v) (\<lambda>b. ExtractValue_loop lib ps (b, value))
       else if strncmp_eq keyStr ''value'' (length keyStr)
       then ExtractValue_loop lib ps (found, Some v)
       else ExtractValue_loop lib ps (found, value))"

text \<open>When the key was found but the response has no value, the null pointer is followed.\<close>

definition ExtractValue :: "cbor_lib \<Rightarrow> cbor_item \<Rightarrow> exn + cbor_item" where
  "ExtractValue lib root =
     (case root of
        CMap ps \<Rightarrow>
          bindS (ExtractValue_loop lib ps (False, None)) (\<lambda>(found, value).
            if \<not> found then Inl (ConfdError kConfdNotFound ''key not found'')
            else (case value of
                    None \<Rightarrow> Inl (Undefined ''cbor_isa_float_ctrl(nullptr)'')
                  | Some v \<Rightarrow>
                      if cbor_isa_float_ctrl v \<and> cbor_float_ctrl_is_ctrl v \<and> cbor_is_null v
                      then Inl (ConfdError kConfdNullValue ''value is null'')
                      else Inr v))
      | _ \<Rightarrow> Inl (ConfdError kConfdInvalidResponse ''invalid root (expected map)''))"

text \<open>The frame of every call: exceptions become status codes.\<close>

definition DoRequest :: "'w confd_env \<Rightarrow> u8 \<Rightarrow> byte list \<Rightarrow> 'o handler
    \<Rightarrow> ('w shared, int \<times> 'o option) op" where
  "DoRequest env ep req handle =
     (\<lambda>g. case on_shared (sendPacketWithReply (ce_io env) ep req) g of
             (Inl e, g') \<Rightarrow> (finish (Inl e, None), g')
           | (Inr replyPayload, g') \<Rightarrow>
               (case cbor_load (ce_lib env) replyPayload of
                  None \<Rightarrow> (Inr (kConfdInvalidResponse, None), g')
                | Some root \<Rightarrow> (finish (handle root), g')))"

definition DoQuery :: "'w confd_env \<Rightarrow> string \<Rightarrow> 'o handler \<Rightarrow> ('w shared, int \<times> 'o option) op" where
  "DoQuery env key replyHandler =
     DoRequest env kConfigQuery (SerializeKeyRequest (ce_lib env) key)
       (\<lambda>root. case ExtractValue (ce_lib env) root of
                  Inl e \<Rightarrow> (Inl e, None)
                | Inr value \<Rightarrow> replyHandler value)"

text \<open>\<open>ValidateResponse\<close> is empty: any reply that can be decoded counts as success.\<close>

definition ValidateResponse :: "cbor_item \<Rightarrow> exn + unit" where
  "ValidateResponse root = Inr ()"

definition DoUpdate :: "'w confd_env \<Rightarrow> string \<Rightarrow> cbor_item \<Rightarrow> ('w shared, int \<times> unit option) op" where
  "DoUpdate env key value =
     DoRequest env kConfigUpdate (SerializeUpdateRequest (ce_lib env) key value)
       (\<lambda>root. (bindS (ValidateResponse root) (\<lambda>_. Inr 0), None))"

section \<open>Queries\<close>

text \<open>A call with a null key or a null or empty output is refused without a request.\<close>

definition guarded :: "bool \<Rightarrow> ('w shared, int \<times> 'o option) op \<Rightarrow> ('w shared, int \<times> 'o option) op" where
  "guarded ok m = (if ok then m else ret (kConfdInvalidArguments, None))"

definition type_mismatch :: "(exn + int) \<times> 'o option" where
  "type_mismatch = (Inl (ConfdError kConfdTypeMismatch ''invalid value type''), None)"

text \<open>
  \<open>confd_get_string\<close>: what is written to the buffer, terminator included, and the actual length if
  the caller asked for it.
\<close>

definition get_string_handler :: "nat \<Rightarrow> bool \<Rightarrow> (string \<times> nat option) handler" where
  "get_string_handler outStrLen wantLen value =
     (case value of
        CString (Some str) \<Rightarrow>
          (Inr 0, Some (take (min (length str) (outStrLen - 1)) str @ [NUL],
                        if wantLen then Some (length str) else None))
      | CString None \<Rightarrow> (Inl (Undefined ''memcpy from null''), None)
      | CStringIndef _ \<Rightarrow> (Inl (Undefined ''cbor_string_handle''), None)
      | _ \<Rightarrow> type_mismatch)"

definition confd_get_string :: "'w confd_env \<Rightarrow> string option \<Rightarrow> bool \<Rightarrow> nat \<Rightarrow> bool
    \<Rightarrow> ('w shared, int \<times> (string \<times> nat option) option) op" where
  "confd_get_string env key outStr outStrLen outActualLen =
     guarded (key \<noteq> None \<and> outStr \<and> outStrLen \<noteq> 0)
       (DoQuery env (the key) (get_string_handler outStrLen outActualLen))"

definition get_blob_handler :: "nat \<Rightarrow> bool \<Rightarrow> (byte list \<times> nat option) handler" where
  "get_blob_handler outBlobLen wantLen value =
     (case value of
        CBytes blob \<Rightarrow>
          (Inr 0, Some (take (min (length blob) outBlobLen) blob,
                        if wantLen then Some (length blob) else None))
      | CBytesIndef _ \<Rightarrow> (Inl (Undefined ''cbor_bytestring_handle''), None)
      | _ \<Rightarrow> type_mismatch)"

definition confd_get_blob :: "'w confd_env \<Rightarrow> string option \<Rightarrow> bool \<Rightarrow> nat \<Rightarrow> bool
    \<Rightarrow> ('w shared, int \<times> (byte list \<times> nat option) option) op" where
  "confd_get_blob env key outBlob outBlobLen outActualLen =
     guarded (key \<noteq> None \<and> outBlob \<and> outBlobLen \<noteq> 0)
       (DoQuery env (the key) (get_blob_handler outBlobLen outActualLen))"

text \<open>The 64 bits that end up in the caller's \<open>int64_t\<close>.\<close>

definition get_int_handler :: "u64 handler" where
  "get_int_handler value =
     (case value of CUint i \<Rightarrow> (Inr 0, Some (cbor_int_value i)) | _ \<Rightarrow> type_mismatch)"

definition confd_get_int :: "'w confd_env \<Rightarrow> string option \<Rightarrow> bool \<Rightarrow> ('w shared, int \<times> u64 option) op"
where
  "confd_get_int env key outValue =
     guarded (key \<noteq> None \<and> outValue) (DoQuery env (the key) get_int_handler)"

definition get_real_handler :: "cbor_lib \<Rightarrow> f64 handler" where
  "get_real_handler lib value =
     (case value of
        CHalf x \<Rightarrow> (Inr 0, Some (float_widen lib x))
      | CSingle x \<Rightarrow> (Inr 0, Some (float_widen lib x))
      | CDouble x \<Rightarrow> (Inr 0, Some x)
      | CCtrl _ \<Rightarrow> (Inl (ConfdError kConfdTypeMismatch ''unsupported CBOR float type''), None)
      | _ \<Rightarrow> type_mismatch)"

definition confd_get_real :: "'w confd_env \<Rightarrow> string option \<Rightarrow> bool \<Rightarrow> ('w shared, int \<times> f64 option) op"
where
  "confd_get_real env key outValue =
     guarded (key \<noteq> None \<and> outValue) (DoQuery env (the key) (get_real_handler (ce_lib env)))"

text \<open>
  \<open>confd_get_bool\<close>: after an integer has been converted, the function goes on to the test for a
  boolean item, which an integer does not pass.
\<close>

definition get_bool_handler :: "cbor_lib \<Rightarrow> bool handler" where
  "get_bool_handler lib value =
     (let out = (case value of CUint i \<Rightarrow> Some (cbor_int_value i \<noteq> 0) | _ \<Rightarrow> None) in
      if \<not> cbor_isa_float_ctrl value \<or> \<not> cbor_is_bool value
      then (Inl (ConfdError kConfdTypeMismatch ''invalid value type''), out)
      else (case cbor_get_bool lib value of
              Inl e \<Rightarrow> (Inl e, out)
            | Inr b \<Rightarrow> (Inr 0, Some b)))"

definition confd_get_bool :: "'w confd_env \<Rightarrow> string option \<Rightarrow> bool \<Rightarrow> ('w shared, int \<times> bool option) op"
where
  "confd_get_bool env key outValue =
     guarded (key \<noteq> None \<and> outValue) (DoQuery env (the key) (get_bool_handler (ce_lib env)))"

section \<open>Updates\<close>

text \<open>\<open>allocated\<close>: an item that cannot be allocated ends the call.\<close>

definition allocated :: "'w confd_env \<Rightarrow> ('w shared, int \<times> unit option) op \<Rightarrow> ('w shared, int \<times> unit option) op"
where
  "allocated env m = (if ce_alloc env then m else ret (kConfdNoMemory, None))"

definition confd_set_string :: "'w confd_env \<Rightarrow> string option \<Rightarrow> string option
    \<Rightarrow> ('w shared, int \<times> unit option) op" where
  "confd_set_string env key str =
     guarded (key \<noteq> None \<and> str \<noteq> None)
       (allocated env (DoUpdate env (the key) (CString (Some (the str)))))"

definition confd_set_blob :: "'w confd_env \<Rightarrow> string option \<Rightarrow> byte list option
    \<Rightarrow> ('w shared, int \<times> unit option) op" where
  "confd_set_blob env key blob =
     guarded (key \<noteq> None \<and> blob \<noteq> None) (allocated env (DoUpdate env (the key) (CBytes (the blob))))"

definition confd_set_int :: "'w confd_env \<Rightarrow> string option \<Rightarrow> u64 \<Rightarrow> ('w shared, int \<times> unit option) op"
where
  "confd_set_int env key value =
     guarded (key \<noteq> None) (allocated env (DoUpdate env (the key) (cbor_build_uint64 value)))"

definition confd_set_real :: "'w confd_env \<Rightarrow> string option \<Rightarrow> f64 \<Rightarrow> ('w shared, int \<times> unit option) op"
where
  "confd_set_real env key value =
     guarded (key \<noteq> None) (allocated env (DoUpdate env (the key) (CDouble value)))"

definition confd_set_bool :: "'w confd_env \<Rightarrow> string option \<Rightarrow> bool \<Rightarrow> ('w shared, int \<times> unit option) op"
where
  "confd_set_bool env key value =
     guarded (key \<noteq> None) (allocated env (DoUpdate env (the key) (cbor_build_bool value)))"

definition confd_set_null :: "'w confd_env \<Rightarrow> string option \<Rightarrow> ('w shared, int \<times> unit option) op" where
  "confd_set_null env key =
     guarded (key \<noteq> None) (allocated env (DoUpdate env (the key) cbor_new_null))"

definition confd_delete :: "string option \<Rightarrow> int" where
  "confd_delete key = (if key = None then kConfdInvalidArguments else kConfdNotSupported)"

section \<open>The descriptor of the shared connection\<close>

lemma socket_on_shared [untouched_intros]:
  "untouched cn_socket m \<Longrightarrow> untouched (map_option cn_socket) (on_shared m)"
  by (rule untouchedI) (auto simp: on_shared_def untouched_def split: option.splits prod.splits)

lemma socket_DoRequest [untouched_intros]: "untouched (map_option cn_socket) (DoRequest env ep req handle)"
  using socket_on_shared [OF socket_sendPacketWithReply, of "ce_io env" ep req]
  by (intro untouchedI) (auto simp: DoRequest_def dest: untouchedD split: prod.splits sum.splits option.splits)

lemma socket_calls [untouched_intros]:
  "untouched (map_option cn_socket) (confd_get_string env key outStr n want)"
  "untouched (map_option cn_socket) (confd_get_blob env key outBlob n want)"
  "untouched (map_option cn_socket) (confd_get_int env key outValue)"
  "untouched (map_option cn_socket) (confd_get_real env key outReal)"
  "untouched (map_option cn_socket) (confd_get_bool env key outBool)"
  "untouched (map_option cn_socket) (confd_set_string env key str)"
  "untouched (map_option cn_socket) (confd_set_blob env key blob)"
  "untouched (map_option cn_socket) (confd_set_int env key i)"
  "untouched (map_option cn_socket) (confd_set_real env key r)"
  "untouched (map_option cn_socket) (confd_set_bool env key b)"
  "untouched (map_option cn_socket) (confd_set_null env key)"
  unfolding confd_get_string_def confd_get_blob_def confd_get_int_def confd_get_real_def confd_get_bool_def
    confd_set_string_def confd_set_blob_def confd_set_int_def confd_set_real_def confd_set_bool_def
    confd_set_null_def guarded_def allocated_def DoQuery_def DoUpdate_def
  by (intro untouched_intros)+

text \<open>Opening takes one descriptor, which the connection holds and closing gives back; when the peer
  cannot be reached the descriptor stays open and nothing refers to it.\<close>

lemma confd_open_outcome:
  assumes "confd_open de p g = (err, g')" and "lg_gShared g = None"
  obtains (no_socket) "lg_gShared g' = None" "lg_fds g' = lg_fds g"
  | (no_peer) fd errno path where "de_socket de = Inr fd" "de_connect de path = Inl errno"
      "lg_gShared g' = None" "lg_fds g' = fd # lg_fds g"
  | (opened) fd c where "de_socket de = Inr fd" "err = 0" "lg_gShared g' = Some c" "cn_socket c = fd"
      "lg_fds g' = fd # lg_fds g"
  using assms
  by (auto simp: confd_open_def RpcConnection_Init_def new_RpcConnection_def Let_def
      split: sum.splits option.splits prod.splits exn.splits)

lemma failed_connect_leaks:
  assumes "de_socket de = Inr fd" and "de_connect de (sun_path p) = Inl errno" and "lg_gShared g = None"
  shows "confd_open de (Some p) g = (- errno, g\<lparr>lg_fds := fd # lg_fds g\<rparr>)"
  using assms by (simp add: confd_open_def RpcConnection_Init_def new_RpcConnection_def)

lemma confd_close_gives_back:
  assumes "lg_gShared g = Some c" and "cn_socket c = fd" and "lg_fds g = fd # fds" and "fd \<notin> set fds" and "fd \<noteq> -1"
  shows "confd_close g = (0, g\<lparr>lg_gShared := None, lg_fds := fds\<rparr>)"
proof -
  have "filter (\<lambda>x. x \<noteq> fd) fds = fds" using assms(4) by (auto simp: filter_id_conv)
  then show ?thesis using assms by (simp add: confd_close_def RpcConnection_Deinit_def RpcConnection_delete_def)
qed

end
