(* ===== verification/Libconfd_Spec.thy ===== *)
theory Libconfd_Spec
  imports Libconfd
begin

text \<open>
  The calls of the client library on a connection to a peer that answers: a call is its handler
  applied to the reply. Rests on the contracts of the socket (\<open>rpc_peer\<close>) and of libcbor
  (\<open>cbor_codec\<close>), joined in the locale \<open>confd_client\<close>.
\<close>

section \<open>The requests\<close>

lemma SerializeKeyRequest_eq:
  "SerializeKeyRequest lib k
   = cbor_serialize lib (CMap [(cbor_build_string ''key'', cbor_build_string k)])"
  by (simp add: SerializeKeyRequest_def cbor_map_item_def cbor_map_add_def cbor_new_definite_map_def)

lemma SerializeUpdateRequest_eq:
  "SerializeUpdateRequest lib k v
   = cbor_serialize lib (CMap [(cbor_build_string ''key'', cbor_build_string k),
                               (cbor_build_string ''value'', v)])"
  by (simp add: SerializeUpdateRequest_def cbor_map_item_def cbor_map_add_def cbor_new_definite_map_def)

section \<open>The value of a response\<close>

lemma response_key_build [simp]: "response_key (cbor_build_string s) = Inr (c_str s)"
  by (simp add: response_key_def cbor_build_string_def)

lemma response_literals:
  "\<not> strncmp_eq ''key'' ''found'' (length ''key'')" "\<not> strncmp_eq ''key'' ''value'' (length ''key'')"
  "strncmp_eq ''found'' ''found'' (length ''found'')" "strncmp_eq ''value'' ''value'' (length ''value'')"
  "\<not> strncmp_eq ''value'' ''found'' (length ''value'')"
  "c_str ''key'' = ''key''" "c_str ''value'' = ''value''" "c_str ''found'' = ''found''"
  by (simp_all add: Let_def NUL_def)

lemma found_item [simp]:
  "cbor_isa_float_ctrl (cbor_build_bool b)" "cbor_is_bool (cbor_build_bool b)"
  "cbor_get_bool lib (cbor_build_bool b) = Inr b"
  by (simp_all add: cbor_build_bool_def)

lemma ExtractValue_found:
  "ExtractValue lib (CMap [(cbor_build_string ''key'', k), (cbor_build_string ''value'', v),
                           (cbor_build_string ''found'', cbor_build_bool True)])
   = (if cbor_is_null v then Inl (ConfdError kConfdNullValue ''value is null'') else Inr v)"
  using response_literals
  by (cases v) (simp_all add: ExtractValue_def del: strncmp_eq.simps length_Cons)

lemma ExtractValue_missing:
  "ExtractValue lib (CMap [(cbor_build_string ''key'', k), (cbor_build_string ''found'', cbor_build_bool False)])
   = Inl (ConfdError kConfdNotFound ''key not found'')"
  using response_literals by (simp add: ExtractValue_def del: strncmp_eq.simps length_Cons)

lemma ExtractValue_no_value:
  "ExtractValue lib (CMap [(cbor_build_string ''found'', cbor_build_bool True)])
   = Inl (Undefined ''cbor_isa_float_ctrl(nullptr)'')"
  using response_literals by (simp add: ExtractValue_def del: strncmp_eq.simps length_Cons)

section \<open>Calls\<close>

locale confd_client =
  rpc_peer "ce_io env" up pending deliver consume + cbor_codec "ce_lib env"
  for env :: "'w confd_env" and up pending deliver consume
begin

lemma DoRequest_run:
  assumes "up (cn_peer c)" and "pending (cn_peer c) = []"
    and "tag = cn_nextTag c + 1"
    and "pkt = header_bytes (request_hdr ep tag (length req)) @ req"
    and "pending (deliver pkt (cn_peer c)) = header_bytes h @ cbor_serialize (ce_lib env) reply"
    and "hdr_version h = kRpcVersionLatest" and "hdr_endpoint h = ep" and "hdr_tag h = tag"
    and "unat (hdr_length h) = sizeof_rpc_header + length (cbor_serialize (ce_lib env) reply)"
    and "encodable reply"
  shows "\<exists>c'. DoRequest env ep req handle (Some c) = (finish (handle reply), Some c')
    \<and> cn_nextTag c' = tag \<and> pending (cn_peer c') = []
    \<and> cn_peer c' = consume (length (cbor_serialize (ce_lib env) reply))
         (consume sizeof_rpc_header (deliver pkt (cn_peer c)))"
proof -
  have ne: "cbor_serialize (ce_lib env) reply \<noteq> []" by (rule serialize_nonempty [OF assms(10)])
  show ?thesis
    using exchange [OF assms(1-9) ne] exchange_done [OF assms(5)] load_serialize_exact [OF assms(10)]
    by (simp add: DoRequest_def on_shared_def)
qed

text \<open>A call whose exchange failed reports the failure and leaves the reply unread.\<close>

lemma DoRequest_failed:
  assumes "sendPacketWithReply (ce_io env) ep req c = (Inl e, c')" and "is_std_exception e"
  shows "DoRequest env ep req handle (Some c) = (Inr (status_of e, None), Some c')"
  using assms by (simp add: DoRequest_def on_shared_def finish_def)

end

end
