(* ===== verification/EndToEnd.thy ===== *)
theory EndToEnd
  imports RpcServer_Correct Libconfd_Spec
begin

text \<open>
  The client library connected to the server: the peer of the client's socket is the server of
  \<open>RpcServer\<close> on its data store. The locales \<open>rpc_peer\<close> and \<open>confd_client\<close> are interpreted here, and
  the properties say what a program that calls \<open>confd_set_*\<close> and \<open>confd_get_*\<close> observes.
\<close>

section \<open>The server as the peer of a socket\<close>

text \<open>
  A request is delivered as a whole; libevent reads a socket in pieces of some kilobytes, so that a
  longer request would reach the callback in parts, which is not modelled. What the server sends to
  this client waits in the pipe. When the server has dropped the client, a read finds the end of
  the stream, and a write raises \<open>SIGPIPE\<close>: it ends a process that has not changed the disposition
  of the signal (\<open>pe_sigpipe\<close>), and the write fails with \<open>EPIPE\<close> in a process that ignores it. The
  library and the utility leave the signal alone. A read while the server is up but silent never
  returns.
\<close>

record peer =
  pe_server :: "db server"
  pe_env :: "db srv_env"
  pe_bev :: bev
  pe_pipe :: "byte list"
  pe_sigpipe :: bool

definition SIGPIPE :: int where "SIGPIPE = 13"

definition peer_up :: "peer \<Rightarrow> bool" where
  "peer_up w \<longleftrightarrow> sv_clients (pe_server w) (pe_bev w) \<noteq> None"

definition packets_to :: "bev \<Rightarrow> (bev \<times> byte list) list \<Rightarrow> byte list" where
  "packets_to ev ps = concat (map snd (filter (\<lambda>p. fst p = ev) ps))"

definition peer_deliver :: "byte list \<Rightarrow> peer \<Rightarrow> peer" where
  "peer_deliver p w =
     (let s = pe_server w; s' = snd (callback (pe_env w) (EvReadable (pe_bev w) p) s) in
      w\<lparr>pe_server := s',
        pe_pipe := pe_pipe w @ packets_to (pe_bev w) (drop (length (sv_sent s)) (sv_sent s'))\<rparr>)"

definition peer_consume :: "nat \<Rightarrow> peer \<Rightarrow> peer" where
  "peer_consume n w = w\<lparr>pe_pipe := drop n (pe_pipe w)\<rparr>"

definition peer_io :: "peer sys_io" where
  "peer_io =
     \<lparr>io_write = (\<lambda>p w. if peer_up w then (Inr (length p), peer_deliver p w)
                         else (Inl (if pe_sigpipe w then Killed SIGPIPE else SystemError 32 ''write rpc message''), w)),
      io_read = (\<lambda>n w. if pe_pipe w \<noteq> [] then (Inr (take n (pe_pipe w)), peer_consume n w)
                        else if peer_up w then (Inl Blocks, w) else (Inr [], w))\<rparr>"

definition client_env :: "cbor_lib \<Rightarrow> peer confd_env" where
  "client_env lib = \<lparr>ce_io = peer_io, ce_lib = lib, ce_alloc = True\<rparr>"

lemma client_env_simps [simp]:
  "ce_io (client_env lib) = peer_io" "ce_lib (client_env lib) = lib" "ce_alloc (client_env lib) = True"
  by (simp_all add: client_env_def)

interpretation peer: rpc_peer peer_io peer_up pe_pipe peer_deliver peer_consume
  by unfold_locales (auto simp: peer_io_def peer_consume_def)

lemma client_locale: "cbor_codec lib \<Longrightarrow> confd_client (client_env lib) peer_up pe_pipe peer_deliver peer_consume"
  using peer.rpc_peer_axioms by (simp add: confd_client_def)

interpretation client: confd_client "client_env (ref_lib cb wi na)" peer_up pe_pipe peer_deliver peer_consume
  for cb wi na
  by (rule client_locale [OF ref_codec.cbor_codec_axioms])

section \<open>Sessions\<close>

text \<open>An open connection, with nothing pending, to a server whose store is \<open>d\<close>.\<close>

definition session :: "cbor_lib \<Rightarrow> sql_env \<Rightarrow> string \<Rightarrow> db \<Rightarrow> peer shared \<Rightarrow> bool" where
  "session lib senv as d g \<longleftrightarrow>
     (\<exists>c ab. g = Some c \<and> peer_up (cn_peer c) \<and> pe_pipe (cn_peer c) = []
        \<and> pe_env (cn_peer c) = confd_env lib senv ab as True True
        \<and> sv_store (pe_server (cn_peer c)) = d)"

lemma sessionE:
  assumes "session lib senv as d g"
  obtains c ab where "g = Some c" and "peer_up (cn_peer c)" and "pe_pipe (cn_peer c) = []"
    and "pe_env (cn_peer c) = confd_env lib senv ab as True True"
    and "sv_store (pe_server (cn_peer c)) = d"
  using assms unfolding session_def by blast

text \<open>A request the server answers with one packet.\<close>

lemma deliver_answered:
  assumes "callback (pe_env w) (EvReadable (pe_bev w) p) (pe_server w) = (Inr (), s')"
    and "sv_sent s' = sv_sent (pe_server w) @ [(pe_bev w, pkt)]"
  shows "peer_deliver p w = w\<lparr>pe_server := s', pe_pipe := pe_pipe w @ pkt\<rparr>"
  using assms by (simp add: peer_deliver_def packets_to_def Let_def)

lemma session_request:
  assumes lib: "cbor_codec lib"
    and c: "peer_up (cn_peer c)" "pe_pipe (cn_peer c) = []"
      "pe_env (cn_peer c) = confd_env lib senv ab as True True"
    and cb: "callback (pe_env (cn_peer c)) (EvReadable (pe_bev (cn_peer c))
              (header_bytes (request_hdr ep (cn_nextTag c + 1) (length req)) @ req)) (pe_server (cn_peer c))
            = (Inr (), s')"
    and s': "sv_clients s' (pe_bev (cn_peer c)) \<noteq> None"
      "sv_sent s' = sv_sent (pe_server (cn_peer c)) @ [(pe_bev (cn_peer c),
          reply_packet (request_hdr ep (cn_nextTag c + 1) (length req)) (cbor_serialize lib reply))]"
    and fits: "encodable reply" "sizeof_rpc_header + length (cbor_serialize lib reply) < 65536"
  shows "\<exists>g'. DoRequest (client_env lib) ep req handle (Some c) = (finish (handle reply), g')
    \<and> session lib senv as (sv_store s') g'"
proof -
  let ?tag = "cn_nextTag c + 1" and ?rh = "request_hdr ep (cn_nextTag c + 1) (length req)"
  let ?h = "reply_header ?rh (sizeof_rpc_header + length (cbor_serialize lib reply))"
  let ?pkt = "header_bytes ?rh @ req" and ?n = "length (cbor_serialize lib reply)"
  have del: "peer_deliver ?pkt (cn_peer c)
      = (cn_peer c)\<lparr>pe_server := s', pe_pipe := header_bytes ?h @ cbor_serialize lib reply\<rparr>"
    using deliver_answered [OF cb s'(2)] c(2) by (simp add: reply_packet_def)
  have h: "hdr_version ?h = kRpcVersionLatest" "hdr_endpoint ?h = ep" "hdr_tag ?h = ?tag"
    "unat (hdr_length ?h) = sizeof_rpc_header + ?n"
    using fits(2) by (simp_all add: reply_header_def request_hdr_def unat_u16_of_size_exact)
  have p: "pe_pipe (peer_deliver ?pkt (cn_peer c)) = header_bytes ?h @ cbor_serialize (ce_lib (client_env lib)) reply"
    by (simp add: del)
  from confd_client.DoRequest_run [OF client_locale [OF lib] c(1,2) refl refl p h(1-3) _ fits(1), of handle] h(4)
  obtain c' where c': "DoRequest (client_env lib) ep req handle (Some c) = (finish (handle reply), Some c')"
    "pe_pipe (cn_peer c') = []"
    "cn_peer c' = peer_consume ?n (peer_consume sizeof_rpc_header (peer_deliver ?pkt (cn_peer c)))"
    by auto
  from c'(3) del have w: "pe_server (cn_peer c') = s'" "pe_bev (cn_peer c') = pe_bev (cn_peer c)"
    "pe_env (cn_peer c') = pe_env (cn_peer c)" by (simp_all add: peer_consume_def)
  have "session lib senv as (sv_store s') (Some c')"
    unfolding session_def using c'(2) w c(3) s'(1) by (auto simp: peer_up_def)
  with c'(1) show ?thesis by blast
qed

section \<open>Calls\<close>

lemma key_items:
  "cbor_build_string ''key'' = cbor_key ''key''" "cbor_build_string ''value'' = cbor_key ''value''"
  "NUL \<notin> set k \<Longrightarrow> cbor_build_string k = cbor_key k"
  by (simp_all add: cbor_build_string_def cbor_key_def NUL_def)

text \<open>A key a C program can pass, and a reply that the 16-bit length field can describe.\<close>

definition good_key :: "string \<Rightarrow> bool" where
  "good_key k \<longleftrightarrow> k \<noteq> '''' \<and> NUL \<notin> set k \<and> length k < 2 ^ 32"

definition fits_packet :: "cbor_lib \<Rightarrow> cbor_item \<Rightarrow> bool" where
  "fits_packet lib x \<longleftrightarrow> encodable x \<and> sizeof_rpc_header + length (cbor_serialize lib x) < 65536"

lemma request_hdr_framed:
  "sizeof_rpc_header + length p < 65536 \<Longrightarrow> well_framed (request_hdr ep tag (length p)) p"
  by (simp add: well_framed_def request_hdr_def unat_u16_of_size_exact)

lemma query_call:
  assumes lib: "cbor_codec lib" and nf: "no_fault senv" and inv: "db_inv d"
    and s: "session lib senv as d g" and k: "good_key key"
    and fits: "fits_packet lib (query_item key)" "fits_packet lib (query_answer lib key (store_view d key))"
  shows "\<exists>g'. DoQuery (client_env lib) key handler g
      = (finish (case ExtractValue lib (query_answer lib key (store_view d key)) of
                   Inl e \<Rightarrow> (Inl e, None) | Inr v \<Rightarrow> handler v), g')
    \<and> session lib senv as d g'"
proof -
  obtain c ab where c: "g = Some c" "peer_up (cn_peer c)" "pe_pipe (cn_peer c) = []"
    "pe_env (cn_peer c) = confd_env lib senv ab as True True" "sv_store (pe_server (cn_peer c)) = d"
    using s by (rule sessionE)
  have key: "c_str key = key" "key \<noteq> ''''" "length key < 2 ^ 32" using k by (auto simp: good_key_def)
  have req: "SerializeKeyRequest lib key = cbor_serialize lib (query_item key)"
    using k by (simp add: SerializeKeyRequest_eq key_items good_key_def query_item_def)
  let ?h = "request_hdr kConfigQuery (cn_nextTag c + 1) (length (cbor_serialize lib (query_item key)))"
  have "well_framed ?h (cbor_serialize lib (query_item key))"
    using fits(1) by (intro request_hdr_framed) (simp add: fits_packet_def)
  from query_callback [OF lib nf, of "pe_server (cn_peer c)" "pe_bev (cn_peer c)" ?h key ab as "[]"] this
  obtain s' where s': "callback (pe_env (cn_peer c)) (EvReadable (pe_bev (cn_peer c))
        (header_bytes ?h @ cbor_serialize lib (query_item key))) (pe_server (cn_peer c)) = (Inr (), s')"
    "sv_store s' = d" "sv_clients s' (pe_bev (cn_peer c)) \<noteq> None"
    "sv_sent s' = sv_sent (pe_server (cn_peer c)) @ [(pe_bev (cn_peer c),
        reply_packet ?h (cbor_serialize lib (query_answer lib key (store_view d key))))]"
    using c inv key by (auto simp: peer_up_def request_hdr_def)
  from session_request [OF lib c(2,3,4) s'(1,3,4), of "\<lambda>root. case ExtractValue lib root of
      Inl e \<Rightarrow> (Inl e, None) | Inr value \<Rightarrow> handler value"] fits(2)
  show ?thesis by (simp add: DoQuery_def req c(1) s'(2) fits_packet_def)
qed

lemma update_call:
  assumes lib: "cbor_codec lib" and nf: "no_fault senv" and inv: "db_inv d" and room: "not_full d"
    and s: "session lib senv as d g" and k: "good_key key"
    and fits: "fits_packet lib (update_item key item)" "fits_packet lib (update_answer key)"
    and v: "encodable item" "update_value lib as item = Inr v"
    and set: "set_spec senv (store_view d) key v = Inr m"
  shows "\<exists>g' d'. DoUpdate (client_env lib) key item g = (Inr (0, None), g')
    \<and> session lib senv as d' g' \<and> setKey senv key v d = (Inr (), d') \<and> store_view d' = m"
proof -
  obtain c ab where c: "g = Some c" "peer_up (cn_peer c)" "pe_pipe (cn_peer c) = []"
    "pe_env (cn_peer c) = confd_env lib senv ab as True True" "sv_store (pe_server (cn_peer c)) = d"
    using s by (rule sessionE)
  have key: "key \<noteq> ''''" "length key < 2 ^ 32" using k by (auto simp: good_key_def)
  have req: "SerializeUpdateRequest lib key item = cbor_serialize lib (update_item key item)"
    using k by (simp add: SerializeUpdateRequest_eq key_items good_key_def update_item_def)
  let ?p = "cbor_serialize lib (update_item key item)"
  let ?h = "request_hdr kConfigUpdate (cn_nextTag c + 1) (length ?p)"
  have "well_framed ?h ?p" using fits(1) by (intro request_hdr_framed) (simp add: fits_packet_def)
  from update_callback [OF lib nf, of "pe_server (cn_peer c)" "pe_bev (cn_peer c)" ?h key item as v m ab "[]"] this
  obtain s' where s': "callback (pe_env (cn_peer c)) (EvReadable (pe_bev (cn_peer c)) (header_bytes ?h @ ?p))
        (pe_server (cn_peer c)) = (Inr (), s')"
    "setKey senv key v d = (Inr (), sv_store s')" "store_view (sv_store s') = m"
    "sv_clients s' (pe_bev (cn_peer c)) \<noteq> None"
    "sv_sent s' = sv_sent (pe_server (cn_peer c)) @ [(pe_bev (cn_peer c),
        reply_packet ?h (cbor_serialize lib (update_answer key)))]"
    using c inv room key v set by (auto simp: peer_up_def request_hdr_def)
  from session_request [OF lib c(2,3,4) s'(1,4,5), of "\<lambda>root. (bindS (ValidateResponse root) (\<lambda>_. Inr 0), None)"]
    fits(2) s'(2,3)
  show ?thesis by (auto simp: DoUpdate_def req c(1) ValidateResponse_def finish_def fits_packet_def)
qed


section \<open>Refused updates\<close>

lemma update_refused_callback:
  assumes lib: "cbor_codec lib" and cl: "sv_clients s ev = Some cl"
    and framed: "well_framed h (cbor_serialize lib (update_item key item))"
    and req: "hdr_endpoint h = kConfigUpdate" "key \<noteq> ''''" "length key < 2 ^ 32" "encodable item"
    and val: "update_value lib as item = Inr v"
    and err: "setKey senv key v (sv_store s) = (Inl e, sv_store s)"
  shows "\<exists>s'. callback (confd_env lib senv ab as True True)
            (EvReadable ev (header_bytes h @ cbor_serialize lib (update_item key item))) s = (Inr (), s')
      \<and> sv_store s' = sv_store s \<and> sv_clients s' ev = None \<and> sv_sent s' = sv_sent s"
proof -
  let ?env = "confd_env lib senv ab as True True"
  let ?req = "header_bytes h @ cbor_serialize lib (update_item key item)"
  have "decode_request lib ab (header_bytes h @ cbor_serialize lib (update_item key item) @ [])
        = Inr (h, update_item key item)"
    by (rule decode_framed [OF lib update_encodable framed]) (use req in auto)
  then have dec: "decode_request (sr_lib ?env) (sr_after_buf ?env) ?req = Inr (h, update_item key item)"
    by simp
  have loop: "update_value_loop lib as [(cbor_key ''key'', cbor_key key), (cbor_key ''value'', item)]
      PVMonostate = Inr v"
    using key_literals val by (simp del: length_Cons strncmp_eq.simps)
  have ne: "kConfigUpdate \<noteq> kConfigQuery" by (simp add: rpc_constants)
  have "\<exists>t. handleClientRead ?env ev ?req s = (Inl e, t) \<and> sv_store t = sv_store s
      \<and> sv_sent t = sv_sent s"
    using handleClientRead_decoded [OF cl _ dec] req ne request_parses(2) [of key item] loop err
    by (simp add: doCfgUpdate_def update_item_def on_store_def bindE_app)
  moreover have "is_std_exception e" using store.put_error [of senv key v "sv_store s" e] err by simp
  moreover have "sv_clients (erase_client ev t) ev = None" "sv_sent (erase_client ev t) = sv_sent t"
    for t :: "db server"
    by (auto simp: erase_client_def split: option.splits)
  ultimately show ?thesis by (auto simp: callback_def catching_def abortClient_def)
qed

text \<open>A connection whose server has dropped the client, and whether \<open>SIGPIPE\<close> ends the program.\<close>

definition dropped :: "db \<Rightarrow> peer shared \<Rightarrow> bool" where
  "dropped d g \<longleftrightarrow> (\<exists>c. g = Some c \<and> \<not> peer_up (cn_peer c) \<and> pe_pipe (cn_peer c) = []
     \<and> sv_store (pe_server (cn_peer c)) = d)"

definition sigpipe_kills :: "peer shared \<Rightarrow> bool" where
  "sigpipe_kills g = (case g of None \<Rightarrow> False | Some c \<Rightarrow> pe_sigpipe (cn_peer c))"

lemma update_call_refused:
  assumes lib: "cbor_codec lib" and s: "session lib senv as d g" and k: "good_key key"
    and fits: "fits_packet lib (update_item key item)"
    and v: "encodable item" "update_value lib as item = Inr v"
    and err: "setKey senv key v d = (Inl e, d)"
  shows "\<exists>g'. DoUpdate (client_env lib) key item g = (Inr (-1, None), g') \<and> dropped d g'
    \<and> sigpipe_kills g' = sigpipe_kills g"
proof -
  obtain c ab where c: "g = Some c" "peer_up (cn_peer c)" "pe_pipe (cn_peer c) = []"
    "pe_env (cn_peer c) = confd_env lib senv ab as True True" "sv_store (pe_server (cn_peer c)) = d"
    using s by (rule sessionE)
  let ?w = "cn_peer c"
  have req: "SerializeUpdateRequest lib key item = cbor_serialize lib (update_item key item)"
    using k by (simp add: SerializeUpdateRequest_eq key_items good_key_def update_item_def)
  let ?p = "cbor_serialize lib (update_item key item)"
  let ?h = "request_hdr kConfigUpdate (cn_nextTag c + 1) (length ?p)"
  have framed: "well_framed ?h ?p" using fits by (intro request_hdr_framed) (simp add: fits_packet_def)
  obtain cl where cl: "sv_clients (pe_server ?w) (pe_bev ?w) = Some cl" using c(2) by (auto simp: peer_up_def)
  obtain s' where s': "callback (pe_env ?w) (EvReadable (pe_bev ?w) (header_bytes ?h @ ?p)) (pe_server ?w)
      = (Inr (), s')" "sv_store s' = d" "sv_clients s' (pe_bev ?w) = None" "sv_sent s' = sv_sent (pe_server ?w)"
    using update_refused_callback [OF lib cl framed _ _ _ v(1,2), of senv e ab] k err c
    by (auto simp: good_key_def request_hdr_def)
  let ?w' = "?w\<lparr>pe_server := s', pe_pipe := []\<rparr>"
  let ?c1 = "c\<lparr>cn_nextTag := cn_nextTag c + 1, cn_transmitBuf := header_bytes ?h @ ?p, cn_peer := ?w'\<rparr>"
  have del: "peer_deliver (header_bytes ?h @ ?p) ?w = ?w'"
    using s'(1,4) c(3) by (simp add: peer_deliver_def packets_to_def Let_def)
  have snd: "sendPacket peer_io kConfigUpdate ?p c = (Inr (cn_nextTag c + 1), ?c1)"
    using peer.sendPacket_run [OF c(2,3), of kConfigUpdate ?p] by (simp add: Let_def del)
  have read: "io_read peer_io n ?w' = (Inr [], ?w')" for n
    using s'(3) by (simp add: peer_io_def peer_up_def)
  obtain c' where c': "sendPacketWithReply peer_io kConfigUpdate ?p c
      = (Inl (RuntimeError ''insufficient read (header)''), c')" "cn_peer c' = ?w'"
    using snd receivePacket_eof [of peer_io ?c1 ?w'] read
    by (auto simp: sendPacketWithReply_def bindE_app)
  from confd_client.DoRequest_failed [OF client_locale [OF lib], of kConfigUpdate ?p c _ c'
      "\<lambda>root. (bindS (ValidateResponse root) (\<lambda>_. Inr 0), None)"] c'(1)
  have "DoUpdate (client_env lib) key item g = (Inr (-1, None), Some c')"
    by (simp add: DoUpdate_def req c(1))
  moreover have "dropped d (Some c')"
    unfolding dropped_def using c'(2) s'(2,3) by (auto simp: peer_up_def)
  moreover have "sigpipe_kills (Some c') = sigpipe_kills g"
    using c'(2) c(1) by (simp add: sigpipe_kills_def)
  ultimately show ?thesis by blast
qed

lemma request_after_drop:
  assumes "cbor_codec lib" and "dropped d g"
  shows "\<exists>g'. DoRequest (client_env lib) ep req handle g
      = (if sigpipe_kills g then Inl (Killed SIGPIPE) else Inr (-32, None), g')
    \<and> dropped d g' \<and> sigpipe_kills g' = sigpipe_kills g"
proof -
  obtain c where c: "g = Some c" "\<not> peer_up (cn_peer c)" "pe_pipe (cn_peer c) = []"
    "sv_store (pe_server (cn_peer c)) = d"
    using assms(2) unfolding dropped_def by blast
  let ?e = "if pe_sigpipe (cn_peer c) then Killed SIGPIPE else SystemError 32 ''write rpc message''"
  obtain c' where c': "sendPacketWithReply peer_io ep req c = (Inl ?e, c')" "cn_peer c' = cn_peer c"
    using c(2) by (simp add: sendPacketWithReply_def sendPacket_def sendPacket_raw_def on_peer_def
        bindE_app peer_io_def Let_def)
  have "DoRequest (client_env lib) ep req handle g
      = (if sigpipe_kills g then Inl (Killed SIGPIPE) else Inr (-32, None), Some c')"
    using c'(1) by (simp add: DoRequest_def on_shared_def finish_def sigpipe_kills_def c(1))
  moreover have "dropped d (Some c')" unfolding dropped_def using c c'(2) by simp
  moreover have "sigpipe_kills (Some c') = sigpipe_kills g" using c(1) c'(2) by (simp add: sigpipe_kills_def)
  ultimately show ?thesis by blast
qed

section \<open>Any call\<close>

text \<open>The calls of \<open>confd.h\<close> on an open connection with all their arguments, a pointer as in \<open>Libconfd\<close>,
  and the status a call returns.\<close>

datatype lib_call =
    GetString "string option" bool nat bool
  | GetBlob "string option" bool nat bool
  | GetInt "string option" bool
  | GetReal "string option" bool
  | GetBool "string option" bool
  | SetString "string option" "string option"
  | SetBlob "string option" "byte list option"
  | SetInt "string option" u64
  | SetReal "string option" f64
  | SetBool "string option" bool
  | SetNull "string option"
  | DeleteKey "string option"

definition status_only :: "('w shared, int \<times> 'o option) op \<Rightarrow> ('w shared, int) op" where
  "status_only m = bindE m (\<lambda>(status, _). ret status)"

fun lib_status :: "'w confd_env \<Rightarrow> lib_call \<Rightarrow> ('w shared, int) op" where
  "lib_status env (GetString key out n want) = status_only (confd_get_string env key out n want)"
| "lib_status env (GetBlob key out n want) = status_only (confd_get_blob env key out n want)"
| "lib_status env (GetInt key out) = status_only (confd_get_int env key out)"
| "lib_status env (GetReal key out) = status_only (confd_get_real env key out)"
| "lib_status env (GetBool key out) = status_only (confd_get_bool env key out)"
| "lib_status env (SetString key s) = status_only (confd_set_string env key s)"
| "lib_status env (SetBlob key b) = status_only (confd_set_blob env key b)"
| "lib_status env (SetInt key i) = status_only (confd_set_int env key i)"
| "lib_status env (SetReal key x) = status_only (confd_set_real env key x)"
| "lib_status env (SetBool key b) = status_only (confd_set_bool env key b)"
| "lib_status env (SetNull key) = status_only (confd_set_null env key)"
| "lib_status env (DeleteKey key) = ret (confd_delete key)"

text \<open>The program makes one call after the other.\<close>

fun lib_calls :: "'w confd_env \<Rightarrow> lib_call list \<Rightarrow> ('w shared, int list) op" where
  "lib_calls env [] = ret []"
| "lib_calls env (c # cs) =
     bindE (lib_status env c) (\<lambda>status. bindE (lib_calls env cs) (\<lambda>rest. ret (status # rest)))"

text \<open>The key and the item of an update, and whether a call makes a request at all or is refused for
  its arguments.\<close>

fun update_of :: "lib_call \<Rightarrow> (string \<times> cbor_item) option" where
  "update_of (SetString (Some key) (Some s)) = Some (key, CString (Some s))"
| "update_of (SetBlob (Some key) (Some b)) = Some (key, CBytes b)"
| "update_of (SetInt (Some key) i) = Some (key, cbor_build_uint64 i)"
| "update_of (SetReal (Some key) x) = Some (key, CDouble x)"
| "update_of (SetBool (Some key) b) = Some (key, cbor_build_bool b)"
| "update_of (SetNull (Some key)) = Some (key, cbor_new_null)"
| "update_of _ = None"

fun makes_request :: "lib_call \<Rightarrow> bool" where
  "makes_request (GetString key out n want) \<longleftrightarrow> key \<noteq> None \<and> out \<and> n \<noteq> 0"
| "makes_request (GetBlob key out n want) \<longleftrightarrow> key \<noteq> None \<and> out \<and> n \<noteq> 0"
| "makes_request (GetInt key out) \<longleftrightarrow> key \<noteq> None \<and> out"
| "makes_request (GetReal key out) \<longleftrightarrow> key \<noteq> None \<and> out"
| "makes_request (GetBool key out) \<longleftrightarrow> key \<noteq> None \<and> out"
| "makes_request (DeleteKey key) \<longleftrightarrow> False"
| "makes_request c \<longleftrightarrow> update_of c \<noteq> None"

definition offline_status :: "lib_call \<Rightarrow> int" where
  "offline_status c = (case c of DeleteKey key \<Rightarrow> confd_delete key | _ \<Rightarrow> kConfdInvalidArguments)"

lemma update_status:
  assumes "update_of c = Some (key, item)"
  shows "lib_status (client_env lib) c = status_only (DoUpdate (client_env lib) key item)"
  using assms
  by (cases c rule: update_of.cases)
     (auto simp: confd_set_string_def confd_set_blob_def confd_set_int_def confd_set_real_def confd_set_bool_def
       confd_set_null_def guarded_def allocated_def)

text \<open>A call on a connection whose server has dropped the client.\<close>

lemma status_only_after_drop:
  assumes "cbor_codec lib" and "dropped d g"
  shows "\<exists>g'. status_only (guarded ok (DoRequest (client_env lib) ep req handle)) g
      = (if \<not> ok then Inr kConfdInvalidArguments else if sigpipe_kills g then Inl (Killed SIGPIPE) else Inr (-32), g')
    \<and> dropped d g' \<and> sigpipe_kills g' = sigpipe_kills g"
  using request_after_drop [OF assms, of ep req handle] assms(2)
  by (cases ok) (auto simp: status_only_def guarded_def bindE_app)

lemma makes_request_set:
  "makes_request (SetString key str) \<longleftrightarrow> key \<noteq> None \<and> str \<noteq> None"
  "makes_request (SetBlob key blob) \<longleftrightarrow> key \<noteq> None \<and> blob \<noteq> None"
  "makes_request (SetInt key i) \<longleftrightarrow> key \<noteq> None" "makes_request (SetReal key x) \<longleftrightarrow> key \<noteq> None"
  "makes_request (SetBool key b) \<longleftrightarrow> key \<noteq> None" "makes_request (SetNull key) \<longleftrightarrow> key \<noteq> None"
  by ((cases key; cases str; cases blob; simp)+)

lemmas confd_call_defs = confd_get_string_def confd_get_blob_def confd_get_int_def confd_get_real_def
  confd_get_bool_def confd_set_string_def confd_set_blob_def confd_set_int_def confd_set_real_def
  confd_set_bool_def confd_set_null_def

lemma call_after_drop:
  assumes "cbor_codec lib" and "dropped d g"
  shows "\<exists>g'. lib_status (client_env lib) c g
      = (if \<not> makes_request c then Inr (offline_status c)
         else if sigpipe_kills g then Inl (Killed SIGPIPE) else Inr (-32), g')
    \<and> dropped d g' \<and> sigpipe_kills g' = sigpipe_kills g"
proof (cases "\<exists>key. c = DeleteKey key")
  case True
  with assms(2) show ?thesis by (auto simp: offline_status_def)
next
  case False
  then have s: "offline_status c = kConfdInvalidArguments" by (cases c) (auto simp: offline_status_def)
  show ?thesis
    unfolding s using False
    apply (cases c)
    apply (simp_all only: lib_status.simps confd_call_defs allocated_def client_env_simps if_True DoQuery_def
        DoUpdate_def makes_request.simps(1-5) makes_request_set)
    apply (rule status_only_after_drop [OF assms])+
    by blast
qed

lemma calls_after_drop:
  assumes "cbor_codec lib" and "dropped d g"
  shows "\<exists>g'. lib_calls (client_env lib) cs g
      = (if sigpipe_kills g \<and> list_ex makes_request cs then Inl (Killed SIGPIPE)
         else Inr (map (\<lambda>c. if makes_request c then -32 else offline_status c) cs), g')
    \<and> dropped d g'"
  using assms(2)
proof (induction cs arbitrary: g)
  case (Cons c cs)
  obtain g1 where g1: "lib_status (client_env lib) c g
      = (if \<not> makes_request c then Inr (offline_status c)
         else if sigpipe_kills g then Inl (Killed SIGPIPE) else Inr (-32), g1)"
    "dropped d g1" "sigpipe_kills g1 = sigpipe_kills g"
    using call_after_drop [OF assms(1) Cons.prems] by blast
  from Cons.IH [OF g1(2)] g1 show ?case by (auto simp: bindE_app)
qed simp

end
