(* ===== verification/EndToEnd_Correct.thy ===== *)
theory EndToEnd_Correct
  imports EndToEnd
begin

text \<open>
  What a program observes that calls the client library while the daemon runs: the properties of
  the connection object on any socket, and of the calls over a whole session.
\<close>

section \<open>The connection\<close>

lemma read_into_peer:
  "read_into io off n what c = (Inr (), c') \<Longrightarrow>
   \<exists>bs. length bs = n \<and> cn_receiveBuf c' = put_bytes (cn_receiveBuf c) off bs
      \<and> cn_nextTag c' = cn_nextTag c"
  by (auto simp: read_into_def on_peer_def bindE_result split: prod.splits if_splits)

lemma receivePacket_ok:
  assumes "receivePacket io c = (Inr pkt, c')"
  shows "pkt = cn_receiveBuf c' \<and> cn_nextTag c' = cn_nextTag c"
proof -
  define c0 where "c0 = (if length (cn_receiveBuf c) < sizeof_rpc_header
         then c\<lparr>cn_receiveBuf := resize_buf sizeof_rpc_header (cn_receiveBuf c)\<rparr> else c)"
  have t0: "cn_nextTag c0 = cn_nextTag c" by (simp add: c0_def)
  obtain c1 n where r1: "read_into io 0 sizeof_rpc_header ''insufficient read (header)'' c0 = (Inr (), c1)"
    and rest: "(if n \<noteq> 0 then
            (\<lambda>c2. bindE (read_into io sizeof_rpc_header n ''insufficient read (payload)'')
               (\<lambda>_ c3. (Inr (cn_receiveBuf c3), c3))
               (c2\<lparr>cn_receiveBuf := resize_buf (sizeof_rpc_header + n) (cn_receiveBuf c2)\<rparr>))
          else (\<lambda>c2. (Inr (cn_receiveBuf c2), c2))) c1 = (Inr pkt, c')"
    using assms unfolding receivePacket_def c0_def [symmetric] by (elim bindE_InrE) auto
  from read_into_peer [OF r1] t0 have t1: "cn_nextTag c1 = cn_nextTag c" by auto
  show ?thesis
  proof (cases "n = 0")
    case True
    with rest t1 show ?thesis by auto
  next
    case False
    with rest obtain c3 where r2: "read_into io sizeof_rpc_header n ''insufficient read (payload)''
        (c1\<lparr>cn_receiveBuf := resize_buf (sizeof_rpc_header + n) (cn_receiveBuf c1)\<rparr>) = (Inr (), c3)"
      and "pkt = cn_receiveBuf c3" "c' = c3"
      by (auto elim!: bindE_InrE)
    with read_into_peer [OF r2] t1 show ?thesis by auto
  qed
qed

lemma sendPacket_ok:
  "sendPacket io ep payload c = (Inr tag, c1) \<Longrightarrow> tag = cn_nextTag c + 1 \<and> cn_nextTag c1 = tag"
  by (auto simp: sendPacket_def sendPacket_raw_def on_peer_def bindE_result Let_def
      split: prod.splits if_splits)

text \<open>C18. Whatever the socket delivers, a reply is handed to the caller only if its header has the
  protocol version, the endpoint of the request and the tag of the request; the tag is the
  successor, modulo 256, of the previous one.\<close>

theorem reply_matches_request:
  assumes "sendPacketWithReply io ep payload c = (Inr reply, c')"
  shows "cn_nextTag c' = cn_nextTag c + 1
    \<and> (\<exists>h. parse_header (cn_receiveBuf c') = Some h \<and> hdr_endpoint h = ep
          \<and> hdr_tag h = cn_nextTag c + 1 \<and> reply = drop sizeof_rpc_header (cn_receiveBuf c'))"
proof -
  obtain tag c1 where snd: "sendPacket io ep payload c = (Inr tag, c1)"
    and rest: "bindE (receivePacket io) (\<lambda>replyPacket.
         if replyPacket = [] then raise (LogicError ''received empty reply packet?'')
         else (case parse_header replyPacket of
                 None \<Rightarrow> raise (Undefined ''header'')
               | Some replyHdr \<Rightarrow>
                   if hdr_endpoint replyHdr \<noteq> ep then raise (RuntimeError ''ep mismatch'')
                   else if hdr_tag replyHdr \<noteq> tag then raise (RuntimeError ''tag mismatch'')
                   else ret (drop sizeof_rpc_header replyPacket))) c1 = (Inr reply, c')"
    using assms unfolding sendPacketWithReply_def by (rule bindE_InrE)
  have tag: "tag = cn_nextTag c + 1 \<and> cn_nextTag c1 = tag" by (rule sendPacket_ok [OF snd])
  from rest obtain pkt where rcv: "receivePacket io c1 = (Inr pkt, c')"
    and pkt: "parse_header pkt \<noteq> None" "hdr_endpoint (the (parse_header pkt)) = ep"
      "hdr_tag (the (parse_header pkt)) = tag" "reply = drop sizeof_rpc_header pkt"
    by (auto elim!: bindE_InrE split: if_splits option.splits)
  from receivePacket_ok [OF rcv] tag pkt show ?thesis by auto
qed

text \<open>A reply that consists of a header only is delivered with the payload of an earlier reply
  behind it: the packet is the whole receive buffer, which is not shortened.\<close>

theorem header_only_reply_is_stale:
  assumes "io_read io sizeof_rpc_header (cn_peer c) = (Inr (header_bytes h), w)"
    and "hdr_version h = kRpcVersionLatest" and "unat (hdr_length h) = sizeof_rpc_header"
    and "sizeof_rpc_header \<le> length (cn_receiveBuf c)"
  shows "fst (receivePacket io c) = Inr (header_bytes h @ drop sizeof_rpc_header (cn_receiveBuf c))"
proof -
  have "check_header (header_bytes h @ drop sizeof_rpc_header (cn_receiveBuf c)) = Inr 0"
    using assms(2,3) by (simp add: check_header_def)
  with assms(1,4) show ?thesis
    by (simp add: receivePacket_def read_into_def on_peer_def bindE_app put_bytes_def)
qed

definition header_io :: "rpc_header \<Rightarrow> unit sys_io" where
  "header_io h = \<lparr>io_write = (\<lambda>p w. (Inr (length p), w)), io_read = (\<lambda>n w. (Inr (take n (header_bytes h)), w))\<rparr>"

lemma header_only_reply_is_stale_witness:
  "fst (receivePacket (header_io (request_hdr 1 1 0))
     \<lparr>cn_socket = 3, cn_nextTag = 1, cn_transmitBuf = [], cn_receiveBuf = [0, 0, 0, 0, 0, 0, 0, 0, 42], cn_peer = ()\<rparr>)
   = Inr (header_bytes (request_hdr 1 1 0) @ [42])"
  using header_only_reply_is_stale [of "header_io (request_hdr 1 1 0)"
      "\<lparr>cn_socket = 3, cn_nextTag = 1, cn_transmitBuf = [], cn_receiveBuf = [0, 0, 0, 0, 0, 0, 0, 0, 42], cn_peer = ()\<rparr>"
      "request_hdr 1 1 0" "()"]
  by (simp add: header_io_def) (simp add: request_hdr_def unat_u16_of_size_exact sizeof_rpc_header_def)

lemma reply_matches_request_witness:
  "\<exists>c'. sendPacketWithReply (header_io (request_hdr 1 2 0)) 1 []
     \<lparr>cn_socket = 3, cn_nextTag = 1, cn_transmitBuf = [], cn_receiveBuf = header_bytes (request_hdr 1 1 0), cn_peer = ()\<rparr>
     = (Inr [], c') \<and> cn_nextTag c' = 2"
proof -
  let ?c = "\<lparr>cn_socket = 3, cn_nextTag = 1, cn_transmitBuf = [], cn_receiveBuf = header_bytes (request_hdr 1 1 0),
             cn_peer = ()\<rparr> :: unit conn"
  have ne: "header_bytes (request_hdr 1 2 0) \<noteq> []" by (simp add: header_bytes_def le16_bytes_def)
  have v: "check_header (header_bytes (request_hdr 1 2 0)) = Inr 0"
    by (simp add: check_header_def request_hdr_def unat_u16_of_size_exact sizeof_rpc_header_def)
  have e: "hdr_endpoint (request_hdr 1 2 0) = 1" "hdr_tag (request_hdr 1 2 0) = 2"
    by (simp_all add: request_hdr_def)
  obtain c' where c': "sendPacketWithReply (header_io (request_hdr 1 2 0)) 1 [] ?c = (Inr [], c')"
    using v ne e by (simp add: sendPacketWithReply_def sendPacket_def sendPacket_raw_def
        request_packet_eq header_io_def receivePacket_def read_into_def on_peer_def bindE_app
        put_bytes_def Let_def)
  from reply_matches_request [OF c'] c' show ?thesis by simp
qed

section \<open>Calls in a session\<close>

text \<open>A session of a program that has the default disposition of \<open>SIGPIPE\<close>, or ignores it.\<close>

definition demo_conn :: "bool \<Rightarrow> db \<Rightarrow> peer shared" where
  "demo_conn sigpipe d = Some \<lparr>cn_socket = 3, cn_nextTag = 0, cn_transmitBuf = [], cn_receiveBuf = [],
     cn_peer = \<lparr>pe_server = demo_server d, pe_env = demo_env, pe_bev = 3, pe_pipe = [], pe_sigpipe = sigpipe\<rparr>\<rparr>"

abbreviation demo_session :: "db \<Rightarrow> peer shared" where
  "demo_session d \<equiv> demo_conn True d"

lemma demo_session_ok: "session demo_lib quiet [NUL] d (demo_conn sigpipe d)"
  unfolding session_def demo_conn_def demo_env_def by (auto simp: peer_up_def)

lemmas wire_defs = query_item_def update_item_def query_answer_def update_answer_def
  cbor_build_string_def cbor_key_def cbor_build_bool_def cbor_build_uint64_def cbor_new_null_def

lemma demo_fits [simp]:
  "fits_packet demo_lib (query_item ''k'')" "fits_packet demo_lib (update_answer ''k'')"
  "fits_packet demo_lib (update_item ''k'' (cbor_build_uint64 v))"
  "fits_packet demo_lib (update_item ''k'' (cbor_build_bool b))"
  "fits_packet demo_lib (update_item ''k'' cbor_new_null)"
  "fits_packet demo_lib (query_answer demo_lib ''k'' None)"
  "fits_packet demo_lib (query_answer demo_lib ''k'' (Some (PVInteger v)))"
  "fits_packet demo_lib (query_answer demo_lib ''k'' (Some PVNull))"
  "fits_packet demo_lib (query_answer demo_lib ''k'' (Some (PVString ''hello'')))"
  by (simp_all add: fits_packet_def demo_lib_def wire_defs enc_head_def
      sizeof_rpc_header_def c_str_def NUL_def)

lemma good_key_k [simp]: "good_key ''k''"
  by (simp add: good_key_def NUL_def)

text \<open>The answer the library extracts from a reply, by the content of the key.\<close>

lemma ExtractValue_answer:
  "ExtractValue lib (query_answer lib key content)
   = (case content of
        None \<Rightarrow> Inl (ConfdError kConfdNotFound ''key not found'')
      | Some v \<Rightarrow> if cbor_is_null (the (value_item lib FlagNone v))
                   then Inl (ConfdError kConfdNullValue ''value is null'')
                   else Inr (the (value_item lib FlagNone v)))"
  by (cases content) (simp_all add: query_answer_def ExtractValue_found ExtractValue_missing)

text \<open>Writing an integer, and reading one.\<close>

lemma set_int_call:
  assumes "cbor_codec lib" and "no_fault senv" and "db_inv d" and "not_full d"
    and "Suc (db_seq d kPropertyKeys) < 2 ^ 32"
    and "session lib senv as d g" and "good_key key"
    and "store_view d key = None \<or> (\<exists>x. store_view d key = Some (PVInteger x))"
    and "fits_packet lib (update_item key (cbor_build_uint64 v))" and "fits_packet lib (update_answer key)"
  shows "\<exists>g' d'. confd_set_int (client_env lib) (Some key) v g = (Inr (kConfdStatusSuccess, None), g')
    \<and> session lib senv as d' g' \<and> db_inv d' \<and> store_view d' = (store_view d)(key \<mapsto> PVInteger v)"
proof -
  have key: "c_str key = key" "key \<noteq> ''''" using assms(7) by (auto simp: good_key_def)
  have set: "set_spec senv (store_view d) key (PVInteger v) = Inr ((store_view d)(key \<mapsto> PVInteger v))"
    using assms(8) key by (auto simp: set_spec_def)
  have v: "encodable (cbor_build_uint64 v)" "update_value lib as (cbor_build_uint64 v) = Inr (PVInteger v)"
    by (simp_all add: cbor_build_uint64_def)
  obtain g' d' where 1: "DoUpdate (client_env lib) key (cbor_build_uint64 v) g = (Inr (0, None), g')"
    "session lib senv as d' g'" "setKey senv key (PVInteger v) d = (Inr (), d')"
    "store_view d' = (store_view d)(key \<mapsto> PVInteger v)"
    using update_call [OF assms(1-4,6,7,9,10) v set] by auto
  have "db_room d'" using setKey_one_id [OF 1(3)] assms(5) by (simp add: db_room_def)
  then have "db_inv d'" using store.put_invar [OF assms(3), of senv key "PVInteger v"] 1(3) by simp
  with 1 show ?thesis
    by (auto simp: confd_set_int_def guarded_def allocated_def kConfdStatusSuccess_def)
qed

lemma get_int_call:
  assumes "cbor_codec lib" and "no_fault senv" and "db_inv d" and "session lib senv as d g" and "good_key key"
    and "store_view d key = Some (PVInteger v)" and "fits_packet lib (query_item key)"
    and "fits_packet lib (query_answer lib key (Some (PVInteger v)))"
  shows "\<exists>g'. confd_get_int (client_env lib) (Some key) True g = (Inr (kConfdStatusSuccess, Some v), g')
    \<and> session lib senv as d g'"
proof -
  obtain g' where "DoQuery (client_env lib) key get_int_handler g
      = (finish (case ExtractValue lib (query_answer lib key (store_view d key)) of
                   Inl e \<Rightarrow> (Inl e, None) | Inr v \<Rightarrow> get_int_handler v), g')"
    "session lib senv as d g'"
    using query_call [OF assms(1-5) assms(7), of get_int_handler] assms(6,8) by auto
  then show ?thesis
    by (auto simp: assms(6) ExtractValue_answer cbor_build_uint64_def get_int_handler_def finish_def
        confd_get_int_def guarded_def kConfdStatusSuccess_def)
qed

text \<open>C1. Round trip over the wire: after \<open>confd_set_int\<close> on a key that is new or holds an integer,
  \<open>confd_get_int\<close> returns success and the same 64 bits.\<close>

theorem set_int_get_int:
  assumes "cbor_codec lib" and "no_fault senv" and "db_inv d" and "not_full d"
    and "Suc (db_seq d kPropertyKeys) < 2 ^ 32"
    and "session lib senv as d g" and "good_key key"
    and "store_view d key = None \<or> (\<exists>x. store_view d key = Some (PVInteger x))"
    and "\<forall>x \<in> {query_item key, update_item key (cbor_build_uint64 v), update_answer key,
               query_answer lib key (Some (PVInteger v))}. fits_packet lib x"
  shows "\<exists>g' g''. confd_set_int (client_env lib) (Some key) v g = (Inr (kConfdStatusSuccess, None), g')
    \<and> confd_get_int (client_env lib) (Some key) True g' = (Inr (kConfdStatusSuccess, Some v), g'')"
proof -
  obtain g' d' where 1: "confd_set_int (client_env lib) (Some key) v g = (Inr (kConfdStatusSuccess, None), g')"
    "session lib senv as d' g'" "db_inv d'" "store_view d' = (store_view d)(key \<mapsto> PVInteger v)"
    using set_int_call [OF assms(1-8), of v] assms(9) by blast
  from get_int_call [OF assms(1,2) 1(3,2) assms(7)] 1(1,4) assms(9) show ?thesis by auto
qed

lemma set_int_get_int_witness:
  "\<exists>g' g''. confd_set_int (client_env demo_lib) (Some ''k'') 5 (demo_session demo_db) = (Inr (0, None), g')
    \<and> confd_get_int (client_env demo_lib) (Some ''k'') True g' = (Inr (0, Some 5), g'')"
proof -
  have "Suc (db_seq demo_db kPropertyKeys) < 2 ^ 32"
    by (simp add: demo_db_def fresh_db_def table_names)
  from set_int_get_int [OF demo_codec quiet_no_fault demo_db_ok(1,2) this demo_session_ok good_key_k, of 5]
  show ?thesis by (simp add: kConfdStatusSuccess_def)
qed

text \<open>C17. What \<open>confd_get_string\<close> returns, by the content of the key: not found, null, a type mismatch
  for every other type, and for a string success, with at most \<open>outStrLen\<close> bytes written, the last
  of them the terminator, and the length of the whole string.\<close>

theorem get_string_by_content:
  assumes "cbor_codec lib" and "no_fault senv" and "db_inv d" and "session lib senv as d g"
    and "good_key key" and "fits_packet lib (query_item key)"
    and "fits_packet lib (query_answer lib key (store_view d key))" and "0 < n"
  shows "\<exists>g'. confd_get_string (client_env lib) (Some key) True n wantLen g =
      (Inr (case store_view d key of
              None \<Rightarrow> (kConfdNotFound, None)
            | Some PVNull \<Rightarrow> (kConfdNullValue, None)
            | Some (PVString s) \<Rightarrow>
                (kConfdStatusSuccess,
                 Some (take (n - 1) (c_str s) @ [NUL], if wantLen then Some (length (c_str s)) else None))
            | Some _ \<Rightarrow> (kConfdTypeMismatch, None)), g')
    \<and> session lib senv as d g'"
proof -
  obtain g' where g': "DoQuery (client_env lib) key (get_string_handler n wantLen) g
      = (finish (case ExtractValue lib (query_answer lib key (store_view d key)) of
                   Inl e \<Rightarrow> (Inl e, None) | Inr v \<Rightarrow> get_string_handler n wantLen v), g')"
    "session lib senv as d g'"
    using query_call [OF assms(1-7)] by blast
  have take: "take (min (length s) m) s = take m s" for s :: string and m
    by (simp add: min_def)
  have "DoQuery (client_env lib) key (get_string_handler n wantLen) g
      = (Inr (case store_view d key of
              None \<Rightarrow> (kConfdNotFound, None)
            | Some PVNull \<Rightarrow> (kConfdNullValue, None)
            | Some (PVString s) \<Rightarrow>
                (kConfdStatusSuccess, Some (take (n - 1) (c_str s) @ [NUL], if wantLen then Some (length (c_str s)) else None))
            | Some _ \<Rightarrow> (kConfdTypeMismatch, None)), g')"
    using store_view_not_mono [OF assms(3), of key] unfolding g'(1)
    by (auto simp: ExtractValue_answer finish_def get_string_handler_def type_mismatch_def take
        kConfdStatusSuccess_def cbor_new_null_def cbor_build_string_def cbor_build_uint64_def cbor_build_bool_def
        split: option.splits PropertyValue.splits)
  with g'(2) assms(8) show ?thesis
    by (simp add: confd_get_string_def guarded_def)
qed

lemma get_string_by_content_witness:
  "\<exists>d g'. confd_get_string (client_env demo_lib) (Some ''k'') True 4 True (demo_session d)
      = (Inr (0, Some (''hel'' @ [NUL], Some (length ''hello''))), g')"
proof -
  obtain d where "db_inv d" "store_view d = [''k'' \<mapsto> PVString ''hello'']"
    using demo_set [of "''k''" "PVString ''hello''"] by (auto simp: NUL_def)
  with get_string_by_content [OF demo_codec quiet_no_fault, of d "[NUL]" "demo_session d" "''k''" 4 True]
    demo_session_ok [of d]
  show ?thesis by (auto simp: kConfdStatusSuccess_def c_str_def NUL_def)
qed


text \<open>C24. A boolean cannot be read back: after \<open>confd_set_bool\<close> on a new key has reported success, the
  key holds an integer, \<open>confd_get_int\<close> returns it, and \<open>confd_get_bool\<close> reports a type mismatch,
  although it has stored the right value through the caller's pointer.\<close>

theorem set_bool_get_bool:
  assumes "cbor_codec lib" and "no_fault senv" and "db_inv d" and "not_full d"
    and "Suc (db_seq d kPropertyKeys) < 2 ^ 32"
    and "session lib senv as d g" and "good_key key" and "store_view d key = None"
    and "\<forall>x \<in> {query_item key, update_item key (cbor_build_bool b), update_answer key,
               query_answer lib key (Some (PVInteger (if b then 1 else 0)))}. fits_packet lib x"
  shows "\<exists>g' g'' g'''. confd_set_bool (client_env lib) (Some key) b g = (Inr (kConfdStatusSuccess, None), g')
    \<and> confd_get_bool (client_env lib) (Some key) True g' = (Inr (kConfdTypeMismatch, Some b), g'')
    \<and> confd_get_int (client_env lib) (Some key) True g''
      = (Inr (kConfdStatusSuccess, Some (if b then 1 else 0)), g''')"
proof -
  let ?i = "if b then 1 else 0 :: u64"
  have key: "c_str key = key" "key \<noteq> ''''" using assms(7) by (auto simp: good_key_def)
  have set: "set_spec senv (store_view d) key (PVBool b) = Inr ((store_view d)(key \<mapsto> PVInteger ?i))"
    using assms(8) key by (simp add: set_spec_def)
  have v: "encodable (cbor_build_bool b)" "update_value lib as (cbor_build_bool b) = Inr (PVBool b)"
    by (simp_all add: cbor_build_bool_def)
  obtain g' d' where 1: "DoUpdate (client_env lib) key (cbor_build_bool b) g = (Inr (0, None), g')"
    "session lib senv as d' g'" "setKey senv key (PVBool b) d = (Inr (), d')"
    "store_view d' = (store_view d)(key \<mapsto> PVInteger ?i)"
    using update_call [OF assms(1-4,6,7) _ _ v set] assms(9) by auto
  have "db_room d'" using setKey_one_id [OF 1(3)] assms(5) by (simp add: db_room_def)
  then have inv: "db_inv d'" using store.put_invar [OF assms(3), of senv key "PVBool b"] 1(3) by simp
  have fits: "fits_packet lib (query_item key)" "fits_packet lib (query_answer lib key (store_view d' key))"
    using assms(9) by (simp_all add: 1(4))
  obtain g'' where 2: "DoQuery (client_env lib) key (get_bool_handler lib) g'
      = (Inr (kConfdTypeMismatch, Some b), g'')" "session lib senv as d' g''"
    using query_call [OF assms(1,2) inv 1(2) assms(7) fits, of "get_bool_handler lib"]
    by (auto simp: 1(4) ExtractValue_answer cbor_build_uint64_def get_bool_handler_def finish_def
        split: if_splits)
  obtain g''' where "DoQuery (client_env lib) key get_int_handler g'' = (Inr (0, Some ?i), g''')"
    using query_call [OF assms(1,2) inv 2(2) assms(7) fits, of get_int_handler]
    by (auto simp: 1(4) ExtractValue_answer cbor_build_uint64_def get_int_handler_def finish_def
        split: if_splits)
  with 1(1) 2(1) show ?thesis
    by (simp add: confd_set_bool_def confd_get_bool_def confd_get_int_def guarded_def allocated_def
        kConfdStatusSuccess_def)
qed

lemma demo_seq: "Suc (db_seq demo_db kPropertyKeys) < 2 ^ 32"
  by (simp add: demo_db_def fresh_db_def table_names)

lemma set_bool_get_bool_witness:
  "\<exists>g' g''. confd_set_bool (client_env demo_lib) (Some ''k'') True (demo_session demo_db) = (Inr (0, None), g')
    \<and> confd_get_bool (client_env demo_lib) (Some ''k'') True g' = (Inr (1, Some True), g'')"
  using set_bool_get_bool [OF demo_codec quiet_no_fault demo_db_ok(1,2) demo_seq demo_session_ok [of _ True] good_key_k,
      of True]
  by (auto simp: kConfdStatusSuccess_def kConfdTypeMismatch_def)

text \<open>A key cannot be set to null through the library: \<open>confd_set_null\<close> on a new key reports success,
  but the key then holds an integer, which \<open>confd_get_int\<close> returns instead of the status for null.\<close>

theorem set_null_get:
  assumes "cbor_codec lib" and "no_fault senv" and "db_inv d" and "not_full d"
    and "Suc (db_seq d kPropertyKeys) < 2 ^ 32"
    and "session lib senv as d g" and "good_key key" and "store_view d key = None"
    and "\<forall>b. \<forall>x \<in> {query_item key, update_item key cbor_new_null, update_answer key,
               query_answer lib key (Some (PVInteger b))}. fits_packet lib x"
  shows "\<exists>g' g'' b. confd_set_null (client_env lib) (Some key) g = (Inr (kConfdStatusSuccess, None), g')
    \<and> b \<in> {0, 1} \<and> confd_get_int (client_env lib) (Some key) True g' = (Inr (kConfdStatusSuccess, Some b), g'')"
proof -
  let ?b = "ctrl_as_bool lib 22"
  let ?i = "if ?b then 1 else 0 :: u64"
  have key: "c_str key = key" "key \<noteq> ''''" using assms(7) by (auto simp: good_key_def)
  have set: "set_spec senv (store_view d) key (PVBool ?b) = Inr ((store_view d)(key \<mapsto> PVInteger ?i))"
    using assms(8) key by (simp add: set_spec_def)
  have v: "encodable cbor_new_null" "update_value lib as cbor_new_null = Inr (PVBool ?b)"
    by (simp_all add: cbor_new_null_def)
  obtain g' d' where 1: "DoUpdate (client_env lib) key cbor_new_null g = (Inr (0, None), g')"
    "session lib senv as d' g'" "setKey senv key (PVBool ?b) d = (Inr (), d')"
    "store_view d' = (store_view d)(key \<mapsto> PVInteger ?i)"
    using update_call [OF assms(1-4,6,7) _ _ v set] assms(9) by auto
  have "db_room d'" using setKey_one_id [OF 1(3)] assms(5) by (simp add: db_room_def)
  then have inv: "db_inv d'" using store.put_invar [OF assms(3), of senv key "PVBool ?b"] 1(3) by simp
  have fits: "fits_packet lib (query_item key)" "fits_packet lib (query_answer lib key (store_view d' key))"
    using assms(9) by (simp_all add: 1(4))
  obtain g'' where "DoQuery (client_env lib) key get_int_handler g' = (Inr (0, Some ?i), g'')"
    using query_call [OF assms(1,2) inv 1(2) assms(7) fits, of get_int_handler]
    by (auto simp: 1(4) ExtractValue_answer cbor_build_uint64_def get_int_handler_def finish_def
        split: if_splits)
  with 1(1) have "confd_set_null (client_env lib) (Some key) g = (Inr (kConfdStatusSuccess, None), g')
    \<and> confd_get_int (client_env lib) (Some key) True g' = (Inr (kConfdStatusSuccess, Some ?i), g'')"
    by (simp add: confd_set_null_def confd_get_int_def guarded_def allocated_def kConfdStatusSuccess_def)
  moreover have "?i \<in> {0, 1}" by simp
  ultimately show ?thesis by blast
qed

lemma set_null_get_witness:
  "\<exists>g'. confd_set_null (client_env demo_lib) (Some ''k'') (demo_session demo_db) = (Inr (0, None), g')"
  using set_null_get [OF demo_codec quiet_no_fault demo_db_ok(1,2) demo_seq demo_session_ok good_key_k]
  by (auto simp: kConfdStatusSuccess_def)

text \<open>C19. A refused update costs the connection, and may cost the process. When the store refuses any
  update made through the library, for whatever reason, the call returns -1, the store is unchanged
  and the server has dropped the client. The first later call that makes a request ends the program
  by \<open>SIGPIPE\<close>, which nothing in the library or the utility blocks or ignores; in a program that
  ignores the signal every later request fails with -32 and none reaches the server. Calls that are
  refused for their arguments return as always.\<close>

theorem refused_update_ends_session:
  assumes "cbor_codec lib" and "session lib senv as d g"
    and "update_of call = Some (key, item)" and "good_key key"
    and "fits_packet lib (update_item key item)"
    and "encodable item" and "update_value lib as item = Inr v"
    and "setKey senv key v d = (Inl e, d')"
  shows "\<exists>g'. lib_status (client_env lib) call g = (Inr (-1), g') \<and> dropped d g'
    \<and> (\<forall>calls. \<exists>g''. dropped d g'' \<and> lib_calls (client_env lib) calls g'
          = (if sigpipe_kills g \<and> list_ex makes_request calls then Inl (Killed SIGPIPE)
             else Inr (map (\<lambda>c. if makes_request c then -32 else offline_status c) calls), g''))"
proof -
  have "d' = d" using store.put_atomic [of senv key v d e] assms(8) by simp
  with assms(8) have err: "setKey senv key v d = (Inl e, d)" by simp
  obtain g' where 1: "DoUpdate (client_env lib) key item g = (Inr (-1, None), g')" "dropped d g'"
    "sigpipe_kills g' = sigpipe_kills g"
    using update_call_refused [OF assms(1,2,4,5,6,7) err] by blast
  have "lib_status (client_env lib) call g = (Inr (-1), g')"
    using 1(1) by (simp add: update_status [OF assms(3)] status_only_def bindE_app)
  moreover have "\<exists>g''. dropped d g'' \<and> lib_calls (client_env lib) calls g'
      = (if sigpipe_kills g \<and> list_ex makes_request calls then Inl (Killed SIGPIPE)
         else Inr (map (\<lambda>c. if makes_request c then -32 else offline_status c) calls), g'')" for calls
    using calls_after_drop [OF assms(1) 1(2), of calls] unfolding 1(3) by blast
  ultimately show ?thesis using 1(2) by blast
qed

lemma refused_update_ends_session_witness:
  "\<exists>d g g1 g2. lib_status (client_env demo_lib) (SetInt (Some ''k'') 5) (demo_conn False d) = (Inr (-1), g)
    \<and> fst (lib_calls (client_env demo_lib) [GetInt (Some ''x'') True, SetNull None, SetBool (Some ''k'') True] g)
        = Inr [-32, kConfdInvalidArguments, -32]
    \<and> lib_status (client_env demo_lib) (SetInt (Some ''k'') 5) (demo_conn True d) = (Inr (-1), g1)
    \<and> lib_calls (client_env demo_lib) [SetNull None, GetInt (Some ''x'') True] g1 = (Inl (Killed SIGPIPE), g2)"
proof -
  let ?d = "after_insert quiet ''k'' (PVString ''hello'') demo_db"
  have k: "key_of demo_db ''k'' = None"
    by (simp add: demo_db_def fresh_db_def empty_db_def key_of_def)
  have "db_wf ?d" by (rule after_insert_wf [OF db_invD(1) [OF demo_db_ok(1)] k])
  moreover have "db_room ?d" by (simp add: db_room_def) (simp add: demo_db_def fresh_db_def table_names)
  ultimately have inv: "db_inv ?d" by (simp add: db_inv_def)
  have nf: "not_full ?d"
    by (simp add: not_full_def after_insert_def Let_def demo_db_def fresh_db_def empty_db_def table_names
        max_rowid_def ValueTableName_def value_type_defs)
  have old: "store_view ?d ''k'' = Some (PVString ''hello'')"
    using after_insert_view [OF db_invD(1) [OF demo_db_ok(1)] k] by simp
  then have "set_spec quiet (store_view ?d) ''k'' (PVInteger 5)
      = Inl (InvalidArgument ''changing type of key not allowed'')"
    by (simp add: set_spec_def c_str_def NUL_def value_type_defs)
  then have err: "setKey quiet ''k'' (PVInteger 5) ?d
      = (Inl (InvalidArgument ''changing type of key not allowed''), ?d)"
    using setKey_exact [OF quiet_no_fault inv nf, of "''k''" "PVInteger 5"] by simp
  have c: "update_of (SetInt (Some ''k'') 5) = Some (''k'', cbor_build_uint64 5)" by simp
  have v: "encodable (cbor_build_uint64 5)" "update_value demo_lib [NUL] (cbor_build_uint64 5) = Inr (PVInteger 5)"
    by (simp_all add: cbor_build_uint64_def)
  have s: "sigpipe_kills (demo_conn b d) = b" for b d by (simp add: sigpipe_kills_def demo_conn_def)
  have r: "list_ex makes_request [GetInt (Some ''x'') True, SetNull None, SetBool (Some ''k'') True]"
    "list_ex makes_request [SetNull None, GetInt (Some ''x'') True]" by simp_all
  note t = refused_update_ends_session [OF demo_codec demo_session_ok c good_key_k demo_fits(3) v err, unfolded s]
  obtain g where g: "lib_status (client_env demo_lib) (SetInt (Some ''k'') 5) (demo_conn False ?d) = (Inr (-1), g)"
    "fst (lib_calls (client_env demo_lib) [GetInt (Some ''x'') True, SetNull None, SetBool (Some ''k'') True] g)
        = Inr [-32, kConfdInvalidArguments, -32]"
    using t [of False] by (elim exE conjE allE [of _ "[GetInt (Some ''x'') True, SetNull None, SetBool (Some ''k'') True]"])
      (auto simp: offline_status_def)
  obtain g1 g2 where "lib_status (client_env demo_lib) (SetInt (Some ''k'') 5) (demo_conn True ?d) = (Inr (-1), g1)"
    "lib_calls (client_env demo_lib) [SetNull None, GetInt (Some ''x'') True] g1 = (Inl (Killed SIGPIPE), g2)"
    using t [of True] by (elim exE conjE allE [of _ "[SetNull None, GetInt (Some ''x'') True]"]) auto
  with g show ?thesis by blast
qed

end
