(* ===== verification/Config.thy ===== *)
theory Config
  imports Confd_Prelude
begin

text \<open>
  The configuration of the daemon (\<open>daemon/Config.h\<close>, \<open>daemon/Config.cpp\<close>): TOML files that
  include one another are read into the static members of \<open>Config\<close>, which are the state here.

  toml++, the file system and the user database are parameters, the fields of \<open>cfg_env\<close>. A TOML
  table is the list of its entries. A path is a string; \<open>path_append\<close> and \<open>path_extension\<close> are
  \<open>operator/=\<close> and \<open>extension\<close> of \<open>std::filesystem::path\<close> for POSIX paths.
\<close>

unbundle bit_operations_syntax

section \<open>TOML values\<close>

datatype toml =
    TString string
  | TInt "64 word"
  | TFloat f64
  | TBool bool
  | TDateTime string
  | TArray "toml list"
  | TTable "(string \<times> toml) list"

type_synonym toml_table = "(string \<times> toml) list"

fun is_toml_table :: "toml \<Rightarrow> bool" where
  "is_toml_table (TTable _) = True"
| "is_toml_table _ = False"

text \<open>\<open>tbl[key].value_or("")\<close>: the value when it is a string, the default otherwise.\<close>

definition string_or_empty :: "toml_table \<Rightarrow> string \<Rightarrow> string" where
  "string_or_empty tbl key = (case map_of tbl key of Some (TString s) \<Rightarrow> s | _ \<Rightarrow> '''')"

section \<open>The environment\<close>

datatype file_kind = FNone | FRegular | FDirectory | FOther

text \<open>
  \<open>cf_parse\<close> is \<open>toml::parse_file\<close>, \<open>cf_int_value\<close> a node's \<open>value<int>()\<close> and \<open>cf_tables\<close> the
  test behind \<open>is_array_of_tables\<close>; \<open>cf_stat\<close> tells the kind of a file, \<open>cf_list\<close> the entries of a
  directory with their kinds, in the order of the iterator, which may throw at every step;
  \<open>cf_passwd\<close> and \<open>cf_group\<close> look a name up: an error number, no entry, or the id.
\<close>

record cfg_env =
  cf_parse :: "string \<Rightarrow> exn + toml_table"
  cf_int_value :: "toml \<Rightarrow> int option"
  cf_tables :: "toml list \<Rightarrow> bool"
  cf_stat :: "string \<Rightarrow> exn + file_kind"
  cf_list :: "string \<Rightarrow> exn + (exn + (string \<times> (exn + file_kind))) list"
  cf_passwd :: "string \<Rightarrow> int + u32 option"
  cf_group :: "string \<Rightarrow> int + u32 option"

definition is_directory :: "cfg_env \<Rightarrow> string \<Rightarrow> exn + bool" where
  "is_directory env p = bindS (cf_stat env p) (\<lambda>k. Inr (k = FDirectory))"

definition file_exists :: "cfg_env \<Rightarrow> string \<Rightarrow> exn + bool" where
  "file_exists env p = bindS (cf_stat env p) (\<lambda>k. Inr (k \<noteq> FNone))"

definition path_append :: "string \<Rightarrow> string \<Rightarrow> string" where
  "path_append p q =
     (if q \<noteq> '''' \<and> hd q = CHR ''/'' then q
      else if p \<noteq> '''' \<and> last p \<noteq> CHR ''/'' then p @ ''/'' @ q
      else p @ q)"

text \<open>The part of a file name from its last dot on; a leading dot does not count.\<close>

definition path_filename :: "string \<Rightarrow> string" where
  "path_filename p = rev (takeWhile (\<lambda>c. c \<noteq> CHR ''/'') (rev p))"

definition path_extension :: "string \<Rightarrow> string" where
  "path_extension p =
     (let f = path_filename p;
          e = rev (takeWhile (\<lambda>c. c \<noteq> CHR ''.'') (rev f))
      in if f = ''..'' \<or> length f \<le> Suc (length e) then '''' else CHR ''.'' # e)"

section \<open>The state\<close>

record access_descriptor =
  ad_user :: "u32 option"
  ad_group :: "u32 option"
  ad_allowed :: "string set"

text \<open>
  The static members, with the set of the files opened so far, a static local of \<open>Read\<close>, as the
  list of its elements in the order they were put in.
\<close>

record config =
  cfg_socketPath :: string
  cfg_socketMode :: u32
  cfg_storagePath :: string
  cfg_allowList :: "access_descriptor list"
  cfg_opened :: "string list"

definition rwx_all :: u32 where
  "rwx_all = 0x1FF"

definition config_init :: config where
  "config_init = \<lparr>cfg_socketPath = '''', cfg_socketMode = rwx_all, cfg_storagePath = '''',
     cfg_allowList = [], cfg_opened = []\<rparr>"

section \<open>Reading the sections\<close>

definition ReadRpc :: "cfg_env \<Rightarrow> toml_table \<Rightarrow> (config, unit) op" where
  "ReadRpc env tbl =
     (\<lambda>s. let path = string_or_empty tbl ''listen'' in
          if path = '''' then (Inl (RuntimeError ''invalid `rpc.listen` key (expected string)''), s)
          else let s1 = s\<lparr>cfg_socketPath := path\<rparr>;
                   mode = (case Option.bind (map_of tbl ''umode'') (cf_int_value env) of
                             None \<Rightarrow> -1 | Some i \<Rightarrow> i)
               in (Inr (), if 0 \<le> mode then s1\<lparr>cfg_socketMode := word_of_int mode AND rwx_all\<rparr>
                           else s1))"

definition ReadStorage :: "cfg_env \<Rightarrow> toml_table \<Rightarrow> (config, unit) op" where
  "ReadStorage env tbl =
     (\<lambda>s. let dir = string_or_empty tbl ''dir'';
              s1 = s\<lparr>cfg_storagePath := dir\<rparr>
          in (case is_directory env dir of
                Inl e \<Rightarrow> (Inl e, s1)
              | Inr False \<Rightarrow> (Inl (RuntimeError ''invalid storage directory''), s1)
              | Inr True \<Rightarrow>
                  let name = string_or_empty tbl ''db'' in
                  if name = '''' then (Inl (RuntimeError ''invalid storage file''), s1)
                  else (Inr (), s1\<lparr>cfg_storagePath := path_append dir name\<rparr>)))"

text \<open>
  The \<open>user\<close> and \<open>group\<close> keys: a name is looked up, and an unknown one is only logged; a number
  is cut to the width of an id.
\<close>

definition access_id :: "(string \<Rightarrow> int + u32 option) \<Rightarrow> string \<Rightarrow> toml \<Rightarrow> exn + u32 option" where
  "access_id lookup what v =
     (case v of
        TString name \<Rightarrow>
          (case lookup (c_str name) of
             Inl err \<Rightarrow> Inl (SystemError err ''getpwnam'')
           | Inr res \<Rightarrow> Inr res)
      | TInt i \<Rightarrow> Inr (Some (ucast i))
      | _ \<Rightarrow> Inl (RuntimeError (''invalid access.allow.'' @ what @ '' value (expected integer or string)'')))"

definition access_key :: "(string \<Rightarrow> int + u32 option) \<Rightarrow> toml_table \<Rightarrow> string \<Rightarrow> exn + u32 option" where
  "access_key lookup tbl key =
     (case map_of tbl key of None \<Rightarrow> Inr None | Some v \<Rightarrow> access_id lookup key v)"

fun allowed_paths :: "toml list \<Rightarrow> string set \<Rightarrow> exn + string set" where
  "allowed_paths [] A = Inr A"
| "allowed_paths (TString p # xs) A = allowed_paths xs (insert p A)"
| "allowed_paths (_ # xs) A = Inl (RuntimeError ''invalid access.allow.paths value (expected string)'')"

definition access_entry :: "cfg_env \<Rightarrow> toml_table \<Rightarrow> exn + access_descriptor" where
  "access_entry env tbl =
     bindS (access_key (cf_passwd env) tbl ''user'') (\<lambda>user.
       bindS (access_key (cf_group env) tbl ''group'') (\<lambda>grp.
         if user = None \<and> grp = None
         then Inl (RuntimeError ''invalid access.allow specifier: neither user nor group specified'')
         else (case map_of tbl ''paths'' of
                 Some (TArray xs) \<Rightarrow>
                   bindS (allowed_paths xs {}) (\<lambda>A.
                     Inr \<lparr>ad_user = user, ad_group = grp, ad_allowed = A\<rparr>)
               | _ \<Rightarrow> Inl (RuntimeError ''invalid access.allow.paths key (expected array)''))))"

definition ReadAccessAllow :: "cfg_env \<Rightarrow> toml_table \<Rightarrow> (config, unit) op" where
  "ReadAccessAllow env tbl =
     bindE (lift (access_entry env tbl)) (\<lambda>desc s.
       (Inr (), s\<lparr>cfg_allowList := cfg_allowList s @ [desc]\<rparr>))"

definition ReadAccess :: "cfg_env \<Rightarrow> toml_table \<Rightarrow> (config, unit) op" where
  "ReadAccess env tbl =
     (case map_of tbl ''allow'' of
        None \<Rightarrow> ret ()
      | Some (TArray xs) \<Rightarrow>
          if \<not> cf_tables env xs
          then raise (RuntimeError ''invalid access.allow key (expected array of tables)'')
          else each (\<lambda>x. case x of
                 TTable t \<Rightarrow> ReadAccessAllow env t
               | _ \<Rightarrow> raise (RuntimeError ''invalid access.allow value (expected table)'')) xs
      | Some _ \<Rightarrow> raise (RuntimeError ''invalid access.allow key (expected array of tables)''))"

section \<open>Files and includes\<close>

text \<open>
  The functions of the include mechanism call one another; \<open>rd\<close> stands for the call of \<open>Read\<close>
  with \<open>isRoot\<close> false.
\<close>

definition include_entry ::
  "(string \<Rightarrow> (config, unit) op) \<Rightarrow> exn + (string \<times> (exn + file_kind)) \<Rightarrow> (config, unit) op" where
  "include_entry rd entry =
     bindE (lift entry) (\<lambda>(dentPath, kind).
       bindE (lift kind) (\<lambda>k.
         if k \<noteq> FRegular then ret ()
         else if path_extension dentPath \<noteq> ''.toml'' then ret ()
         else rd dentPath))"

definition ProcessIncludeDirectory ::
  "cfg_env \<Rightarrow> (string \<Rightarrow> (config, unit) op) \<Rightarrow> string \<Rightarrow> (config, unit) op" where
  "ProcessIncludeDirectory env rd path =
     bindE (lift (cf_list env path)) (each (include_entry rd))"

definition ReadInclude ::
  "cfg_env \<Rightarrow> (string \<Rightarrow> (config, unit) op) \<Rightarrow> toml_table \<Rightarrow> (config, unit) op" where
  "ReadInclude env rd tbl =
     (let path = string_or_empty tbl ''path'' in
      if path = '''' then raise (RuntimeError ''invalid empty include path'')
      else bindE (lift (file_exists env path)) (\<lambda>found.
        if \<not> found then raise (RuntimeError ''include path does not exist'')
        else bindE (lift (is_directory env path)) (\<lambda>dir.
          if dir then ProcessIncludeDirectory env rd path else rd path)))"

text \<open>A section that must be a table; in the root file two of them must be there.\<close>

definition read_section ::
  "toml_table \<Rightarrow> string \<Rightarrow> bool \<Rightarrow> (toml_table \<Rightarrow> (config, unit) op) \<Rightarrow> (config, unit) op" where
  "read_section tbl key mandatory reader =
     (case map_of tbl key of
        Some (TTable t) \<Rightarrow> reader t
      | Some _ \<Rightarrow> raise (RuntimeError (''invalid `'' @ key @ ''` key''))
      | None \<Rightarrow> if mandatory then raise (RuntimeError (''missing `'' @ key @ ''` key'')) else ret ())"

text \<open>What \<open>Read\<close> does before the includes.\<close>

definition read_settings :: "cfg_env \<Rightarrow> bool \<Rightarrow> toml_table \<Rightarrow> (config, unit) op" where
  "read_settings env isRoot tbl =
     bindE (read_section tbl ''rpc'' isRoot (ReadRpc env)) (\<lambda>_.
       bindE (read_section tbl ''storage'' isRoot (ReadStorage env)) (\<lambda>_.
         read_section tbl ''access'' False (ReadAccess env)))"

definition read_includes ::
  "cfg_env \<Rightarrow> (string \<Rightarrow> (config, unit) op) \<Rightarrow> toml_table \<Rightarrow> (config, unit) op" where
  "read_includes env rd tbl =
     (case map_of tbl ''include'' of
        None \<Rightarrow> ret ()
      | Some (TArray xs) \<Rightarrow>
          if \<not> cf_tables env xs
          then raise (RuntimeError ''invalid `include` directives (expected array of tables)'')
          else each (\<lambda>directive. case directive of
                 TTable t \<Rightarrow> ReadInclude env rd t
               | _ \<Rightarrow> raise (LogicError ''unexpected `include` directive type'')) xs
      | Some _ \<Rightarrow> raise (RuntimeError ''invalid `include` directives (expected array of tables)''))"

text \<open>\<open>Read\<close>. The first argument bounds the depth of the includes; without it the call does not
  return.\<close>

fun Config_Read :: "nat \<Rightarrow> cfg_env \<Rightarrow> string \<Rightarrow> bool \<Rightarrow> (config, unit) op" where
  "Config_Read 0 env path isRoot = raise Blocks"
| "Config_Read (Suc n) env path isRoot =
     (\<lambda>s. if path \<in> set (cfg_opened s)
          then (Inl (RuntimeError ''recursion detected''), s)
          else bindE (lift (cf_parse env path)) (\<lambda>tbl.
                 bindE (read_settings env isRoot tbl) (\<lambda>_.
                   read_includes env (\<lambda>p. Config_Read n env p False) tbl))
               (s\<lparr>cfg_opened := cfg_opened s @ [path]\<rparr>))"

end
