(* ===== verification/Config_Correct.thy ===== *)
theory Config_Correct
  imports Config
begin

text \<open>
  What reading the configuration guarantees: it returns, whatever the files include (the bound on
  the depth is any number above the number of files that parse), it throws nothing but runtime
  errors, it amounts to reading the files it opened one after the other, none of them twice, and
  a configuration it accepted has what the daemon takes from it.
\<close>

section \<open>Termination and errors\<close>

text \<open>What is relied on: the libraries throw runtime errors, and an array of tables holds tables.\<close>

definition cfg_env_ok :: "cfg_env \<Rightarrow> bool" where
  "cfg_env_ok env \<longleftrightarrow>
     (\<forall>p e. cf_parse env p = Inl e \<longrightarrow> is_runtime_error e)
   \<and> (\<forall>p e. cf_stat env p = Inl e \<longrightarrow> is_runtime_error e)
   \<and> (\<forall>p e. cf_list env p = Inl e \<longrightarrow> is_runtime_error e)
   \<and> (\<forall>p xs e. cf_list env p = Inr xs \<and> Inl e \<in> set xs \<longrightarrow> is_runtime_error e)
   \<and> (\<forall>p xs q e. cf_list env p = Inr xs \<and> Inr (q, Inl e) \<in> set xs \<longrightarrow> is_runtime_error e)
   \<and> (\<forall>xs. cf_tables env xs \<longrightarrow> (\<forall>x \<in> set xs. is_toml_table x))"

definition parseable :: "cfg_env \<Rightarrow> string set" where
  "parseable env = {p. \<exists>t. cf_parse env p = Inr t}"

text \<open>At most \<open>k\<close> files that parse are still unopened.\<close>

definition files_left :: "cfg_env \<Rightarrow> nat \<Rightarrow> config \<Rightarrow> bool" where
  "files_left env k s \<longleftrightarrow> card (parseable env - set (cfg_opened s)) \<le> k"

text \<open>\<open>safe_read\<close>: with so many files left, the operation throws runtime errors only and leaves no
  more files; \<open>agree_read\<close>: two operations do the same then.\<close>

definition safe_read :: "cfg_env \<Rightarrow> nat \<Rightarrow> (config, unit) op \<Rightarrow> bool" where
  "safe_read env k m \<longleftrightarrow> (\<forall>s r s'. files_left env k s \<longrightarrow> m s = (r, s')
     \<longrightarrow> files_left env k s' \<and> (\<forall>e. r = Inl e \<longrightarrow> is_runtime_error e))"

definition agree_read :: "cfg_env \<Rightarrow> nat \<Rightarrow> (config, 'a) op \<Rightarrow> (config, 'a) op \<Rightarrow> bool" where
  "agree_read env k m m' \<longleftrightarrow> (\<forall>s. files_left env k s \<longrightarrow> m s = m' s)"

named_theorems read_intros \<open>closure of the properties of reading\<close>

lemma safe_readI:
  assumes "\<And>s r s'. m s = (r, s') \<Longrightarrow> cfg_opened s' = cfg_opened s" and "fails_in is_runtime_error m"
  shows "safe_read env k m"
  unfolding safe_read_def files_left_def
  using assms(1) fails_inD [OF assms(2)] by metis

lemma safe_bindE [read_intros]:
  "fails_in is_runtime_error m \<Longrightarrow> reads_only m \<Longrightarrow> (\<And>x s s'. m s = (Inr x, s') \<Longrightarrow> safe_read env k (g x))
   \<Longrightarrow> safe_read env k (bindE m g)"
  unfolding safe_read_def fails_in_def reads_only_def bindE_result by blast

lemma safe_seq [read_intros]:
  "safe_read env k m \<Longrightarrow> safe_read env k m' \<Longrightarrow> safe_read env k (bindE m (\<lambda>_. m'))"
  unfolding safe_read_def bindE_result by blast

lemma safe_ret [read_intros]: "safe_read env k (ret ())"
  by (simp add: safe_read_def)

lemma safe_raise [read_intros]: "is_runtime_error e \<Longrightarrow> safe_read env k (raise e)"
  by (simp add: safe_read_def)

lemma safe_each [read_intros]:
  "(\<And>x. x \<in> set xs \<Longrightarrow> safe_read env k (f x)) \<Longrightarrow> safe_read env k (each f xs)"
  by (induction xs) (auto intro: safe_ret safe_seq)

lemma safe_if [read_intros]:
  "(b \<Longrightarrow> safe_read env k m) \<Longrightarrow> (\<not> b \<Longrightarrow> safe_read env k m') \<Longrightarrow> safe_read env k (if b then m else m')"
  by simp

lemma agree_refl [read_intros]: "agree_read env k m m"
  by (simp add: agree_read_def)

lemma agree_seq:
  "agree_read env k m m' \<Longrightarrow> safe_read env k m \<Longrightarrow> agree_read env k g g'
   \<Longrightarrow> agree_read env k (bindE m (\<lambda>_. g)) (bindE m' (\<lambda>_. g'))"
  unfolding agree_read_def safe_read_def bindE_def
  by (auto split: prod.splits sum.splits)

lemma agree_read_only [read_intros]:
  "reads_only m \<Longrightarrow> (\<And>x. agree_read env k (g x) (g' x)) \<Longrightarrow> agree_read env k (bindE m g) (bindE m g')"
  unfolding agree_read_def reads_only_def bindE_def
  by (auto split: prod.splits sum.splits) blast

lemma agree_each [read_intros]:
  "(\<And>x. x \<in> set xs \<Longrightarrow> agree_read env k (f x) (g x)) \<Longrightarrow> (\<And>x. x \<in> set xs \<Longrightarrow> safe_read env k (f x))
   \<Longrightarrow> agree_read env k (each f xs) (each g xs)"
  by (induction xs) (auto intro: agree_refl agree_seq)

lemma agree_if [read_intros]:
  "agree_read env k m n \<Longrightarrow> agree_read env k m' n'
   \<Longrightarrow> agree_read env k (if b then m else m') (if b then n else n')"
  by simp

lemma lift_fails: "(\<And>e. r = Inl e \<Longrightarrow> P e) \<Longrightarrow> fails_in P (lift r)"
  by (rule fails_in_intros)

subsection \<open>The sections of a file\<close>

lemma ReadRpc_opened: "ReadRpc env t s = (r, s') \<Longrightarrow> cfg_opened s' = cfg_opened s"
  by (auto simp: ReadRpc_def Let_def split: if_splits option.splits)

lemma ReadStorage_opened: "ReadStorage env t s = (r, s') \<Longrightarrow> cfg_opened s' = cfg_opened s"
  by (auto simp: ReadStorage_def Let_def split: if_splits sum.splits bool.splits)

lemma ReadAccessAllow_opened: "ReadAccessAllow env t s = (r, s') \<Longrightarrow> cfg_opened s' = cfg_opened s"
  by (auto simp: ReadAccessAllow_def op_simps split: sum.splits)

lemma is_directory_fails: "cfg_env_ok env \<Longrightarrow> is_directory env p = Inl e \<Longrightarrow> is_runtime_error e"
  by (cases "cf_stat env p") (auto simp: is_directory_def cfg_env_ok_def)

lemma file_exists_fails: "cfg_env_ok env \<Longrightarrow> file_exists env p = Inl e \<Longrightarrow> is_runtime_error e"
  by (cases "cf_stat env p") (auto simp: file_exists_def cfg_env_ok_def)

lemma ReadRpc_fails: "fails_in is_runtime_error (ReadRpc env t)"
  by (auto simp: fails_in_def ReadRpc_def Let_def split: if_splits option.splits)

lemma ReadStorage_fails: "cfg_env_ok env \<Longrightarrow> fails_in is_runtime_error (ReadStorage env t)"
  using is_directory_fails [of env]
  by (fastforce simp: fails_in_def ReadStorage_def Let_def split: if_splits sum.splits bool.splits)

lemma allowed_paths_fails: "allowed_paths xs A = Inl e \<Longrightarrow> is_runtime_error e"
  by (induction xs A rule: allowed_paths.induct) auto

lemma access_key_fails: "access_key f t k = Inl e \<Longrightarrow> is_runtime_error e"
  by (auto simp: access_key_def access_id_def split: option.splits toml.splits sum.splits)

lemma access_entry_fails: "access_entry env t = Inl e \<Longrightarrow> is_runtime_error e"
  by (auto simp: access_entry_def bindS_def split: sum.splits if_splits option.splits toml.splits
      dest: access_key_fails allowed_paths_fails)

lemma ReadAccessAllow_fails: "fails_in is_runtime_error (ReadAccessAllow env t)"
  unfolding ReadAccessAllow_def
  by (rule fails_in_bindE) (auto simp: fails_in_def access_entry_fails)

lemma ReadAccess_safe: "safe_read env k (ReadAccess env t)"
proof -
  have "safe_read env k (ReadAccessAllow env u)" for u
    by (rule safe_readI [OF ReadAccessAllow_opened ReadAccessAllow_fails])
  then show ?thesis
    unfolding ReadAccess_def
    by (auto split: option.splits toml.splits intro!: read_intros)
qed

lemma read_section_safe:
  "(\<And>u. safe_read env k (rd u)) \<Longrightarrow> safe_read env k (read_section t key b rd)"
  by (auto simp: read_section_def split: option.splits toml.splits intro!: read_intros)

lemma read_settings_safe: "cfg_env_ok env \<Longrightarrow> safe_read env k (read_settings env root t)"
  unfolding read_settings_def
  by (intro safe_seq read_section_safe ReadAccess_safe safe_readI [OF ReadRpc_opened ReadRpc_fails]
      safe_readI [OF ReadStorage_opened ReadStorage_fails])

subsection \<open>The includes\<close>

lemma include_entry_safe:
  assumes "cfg_env_ok env" and "\<And>p. safe_read env k (rd p)"
    and "cf_list env p = Inr xs" and "x \<in> set xs"
  shows "safe_read env k (include_entry rd x)"
proof -
  have 1: "is_runtime_error e" if "x = Inl e" for e
    using assms that unfolding cfg_env_ok_def by blast
  have 2: "is_runtime_error e" if "x = Inr (q, Inl e)" for q e
    using assms that unfolding cfg_env_ok_def by blast
  show ?thesis
    unfolding include_entry_def
    by (intro read_intros op_intros 1)
      (auto split: prod.splits intro!: read_intros op_intros assms(2) intro: 2)
qed

lemma ProcessIncludeDirectory_safe:
  assumes "cfg_env_ok env" and "\<And>p. safe_read env k (rd p)"
  shows "safe_read env k (ProcessIncludeDirectory env rd path)"
proof -
  have "is_runtime_error e" if "cf_list env path = Inl e" for e
    using assms that unfolding cfg_env_ok_def by blast
  then show ?thesis
    unfolding ProcessIncludeDirectory_def
    by (intro read_intros op_intros) (auto intro: include_entry_safe [OF assms])
qed

lemma ReadInclude_safe:
  assumes "cfg_env_ok env" and "\<And>p. safe_read env k (rd p)"
  shows "safe_read env k (ReadInclude env rd t)"
  unfolding ReadInclude_def Let_def
  using assms
  by (intro read_intros op_intros ProcessIncludeDirectory_safe)
    (auto dest: is_directory_fails file_exists_fails)

lemma read_includes_safe:
  assumes "cfg_env_ok env" and "\<And>p. safe_read env k (rd p)"
  shows "safe_read env k (read_includes env rd t)"
proof -
  have "safe_read env k (ReadInclude env rd u)" for u
    by (rule ReadInclude_safe [OF assms])
  moreover have "cf_tables env xs \<Longrightarrow> x \<in> set xs \<Longrightarrow> is_toml_table x" for xs x
    using assms(1) unfolding cfg_env_ok_def by blast
  ultimately show ?thesis
    unfolding read_includes_def
    by (fastforce split: option.splits toml.splits intro!: read_intros)
qed

lemma read_includes_agree:
  assumes "cfg_env_ok env" and "\<And>p. safe_read env k (rd p)" and "\<And>p. agree_read env k (rd p) (rd' p)"
  shows "agree_read env k (read_includes env rd t) (read_includes env rd' t)"
proof -
  have tables: "cf_tables env xs \<Longrightarrow> x \<in> set xs \<Longrightarrow> is_toml_table x" for xs x
    using assms(1) unfolding cfg_env_ok_def by blast
  have 1: "agree_read env k (ProcessIncludeDirectory env rd p) (ProcessIncludeDirectory env rd' p)" for p
  proof (cases "cf_list env p")
    case (Inl e)
    then show ?thesis by (simp add: ProcessIncludeDirectory_def agree_read_def)
  next
    case (Inr xs)
    have "agree_read env k (each (include_entry rd) xs) (each (include_entry rd') xs)"
    proof (rule agree_each)
      show "safe_read env k (include_entry rd x)" if "x \<in> set xs" for x
        using include_entry_safe [OF assms(1,2) Inr that] .
      show "agree_read env k (include_entry rd x) (include_entry rd' x)" for x
        unfolding include_entry_def
        by (intro read_intros op_intros) (auto split: prod.splits intro!: read_intros op_intros assms(3))
    qed
    with Inr show ?thesis by (simp add: ProcessIncludeDirectory_def agree_read_def)
  qed
  have 2: "agree_read env k (ReadInclude env rd u) (ReadInclude env rd' u)" for u
    unfolding ReadInclude_def Let_def
    by (intro read_intros op_intros 1 assms)
  show ?thesis
    unfolding read_includes_def
    using 2 ReadInclude_safe [OF assms(1,2)] tables
    by (fastforce split: option.splits toml.splits intro!: read_intros)
qed


subsection \<open>Files\<close>

text \<open>Opening a file that parses leaves one file less.\<close>

lemma files_left_open:
  assumes "finite (parseable env)" and "files_left env k s" and "p \<in> parseable env"
    and "p \<notin> set (cfg_opened s)"
  shows "0 < k" and "files_left env (k - 1) (s\<lparr>cfg_opened := cfg_opened s @ [p]\<rparr>)"
proof -
  let ?R = "parseable env - set (cfg_opened s)"
  have p: "p \<in> ?R" and fin: "finite ?R" using assms by auto
  have eq: "parseable env - set (cfg_opened s @ [p]) = ?R - {p}" by auto
  have "card (?R - {p}) = card ?R - 1" "0 < card ?R"
    using p fin by (auto simp: card_gt_0_iff)
  moreover have "card ?R \<le> k" using assms(2) by (simp add: files_left_def)
  ultimately have *: "0 < k" "card (?R - {p}) \<le> k - 1" by linarith+
  then show "0 < k" by simp
  have "files_left env (k - 1) (s\<lparr>cfg_opened := cfg_opened s @ [p]\<rparr>)
        \<longleftrightarrow> card (parseable env - set (cfg_opened s @ [p])) \<le> k - 1"
    by (simp add: files_left_def)
  with *(2) show "files_left env (k - 1) (s\<lparr>cfg_opened := cfg_opened s @ [p]\<rparr>)"
    by (simp only: eq)
qed

lemma files_left_mono: "files_left env j s \<Longrightarrow> j \<le> k \<Longrightarrow> files_left env k s"
  by (simp add: files_left_def)

lemma files_left_any:
  assumes "finite (parseable env)" and "files_left env k s"
  shows "files_left env k (s\<lparr>cfg_opened := cfg_opened s @ [p]\<rparr>)"
proof -
  have "card (parseable env - set (cfg_opened s @ [p])) \<le> card (parseable env - set (cfg_opened s))"
    by (rule card_mono) (use assms(1) in auto)
  with assms(2) show ?thesis by (simp add: files_left_def)
qed

text \<open>The steps of \<open>Read\<close> behind the check for recursion.\<close>

definition read_file :: "cfg_env \<Rightarrow> (string \<Rightarrow> (config, unit) op) \<Rightarrow> bool \<Rightarrow> toml_table \<Rightarrow> (config, unit) op"
  where "read_file env rd isRoot tbl =
     bindE (read_settings env isRoot tbl) (\<lambda>_. read_includes env rd tbl)"

lemma Config_Read_Suc:
  "Config_Read (Suc n) env p root s =
     (if p \<in> set (cfg_opened s) then (Inl (RuntimeError ''recursion detected''), s)
      else case cf_parse env p of
             Inl e \<Rightarrow> (Inl e, s\<lparr>cfg_opened := cfg_opened s @ [p]\<rparr>)
           | Inr tbl \<Rightarrow> read_file env (\<lambda>q. Config_Read n env q False) root tbl
                          (s\<lparr>cfg_opened := cfg_opened s @ [p]\<rparr>))"
  by (simp add: read_file_def op_simps split: sum.splits)

declare Config_Read.simps(2) [simp del]

lemma Config_Read_safe:
  assumes ok: "cfg_env_ok env" and fin: "finite (parseable env)"
  shows "k < n \<Longrightarrow> safe_read env k (Config_Read n env p root)"
proof (induction n arbitrary: k p root)
  case (Suc n)
  show ?case
    unfolding safe_read_def
  proof (intro allI impI)
    fix s :: config and r s'
    let ?s1 = "s\<lparr>cfg_opened := cfg_opened s @ [p]\<rparr>"
    assume s: "files_left env k s" and run: "Config_Read (Suc n) env p root s = (r, s')"
    show "files_left env k s' \<and> (\<forall>e. r = Inl e \<longrightarrow> is_runtime_error e)"
    proof (cases "p \<in> set (cfg_opened s)")
      case False
      show ?thesis
      proof (cases "cf_parse env p")
        case (Inl e)
        with False run s ok show ?thesis
          by (auto simp: Config_Read_Suc files_left_any [OF fin] cfg_env_ok_def)
      next
        case (Inr tbl)
        then have "p \<in> parseable env" by (simp add: parseable_def)
        note left = files_left_open [OF fin s this False]
        have "safe_read env (k - 1) (read_file env (\<lambda>q. Config_Read n env q False) root tbl)"
          unfolding read_file_def using left Suc.prems
          by (intro safe_seq read_settings_safe read_includes_safe Suc.IH ok) simp
        moreover have "read_file env (\<lambda>q. Config_Read n env q False) root tbl ?s1 = (r, s')"
          using run False Inr by (simp add: Config_Read_Suc)
        ultimately show ?thesis
          using left(2) files_left_mono [of env "k - 1" s' k] unfolding safe_read_def by auto
      qed
    qed (use run s in \<open>auto simp: Config_Read_Suc\<close>)
  qed
qed simp

lemma Config_Read_agree:
  assumes ok: "cfg_env_ok env" and fin: "finite (parseable env)"
  shows "k < n \<Longrightarrow> k < m \<Longrightarrow> agree_read env k (Config_Read n env p root) (Config_Read m env p root)"
proof (induction n arbitrary: k m p root)
  case (Suc n)
  then obtain m' where m: "m = Suc m'" by (cases m) auto
  show ?case
    unfolding agree_read_def
  proof (intro allI impI)
    fix s :: config
    assume s: "files_left env k s"
    show "Config_Read (Suc n) env p root s = Config_Read m env p root s"
    proof (cases "p \<in> set (cfg_opened s) \<or> (\<exists>e. cf_parse env p = Inl e)")
      case False
      then obtain tbl where tbl: "cf_parse env p = Inr tbl" by (cases "cf_parse env p") auto
      then have "p \<in> parseable env" by (simp add: parseable_def)
      note left = files_left_open [OF fin s this]
      have "agree_read env (k - 1) (read_file env (\<lambda>q. Config_Read n env q False) root tbl)
              (read_file env (\<lambda>q. Config_Read m' env q False) root tbl)"
        unfolding read_file_def using left(1) False Suc.prems m
        by (intro agree_seq agree_refl read_settings_safe read_includes_agree Suc.IH
            Config_Read_safe ok fin) auto
      with left(2) False tbl m show ?thesis by (simp add: Config_Read_Suc agree_read_def)
    qed (auto simp: Config_Read_Suc m)
  qed
qed simp


section \<open>Reading as a sequence of files\<close>

text \<open>What one file does by itself: it is opened and parsed and its settings are taken over.\<close>

definition apply_file :: "cfg_env \<Rightarrow> bool \<Rightarrow> string \<Rightarrow> (config, unit) op" where
  "apply_file env root p =
     (\<lambda>s. bindE (lift (cf_parse env p)) (read_settings env root)
            (s\<lparr>cfg_opened := cfg_opened s @ [p]\<rparr>))"

text \<open>\<open>flat m\<close>: a run of \<open>m\<close> that succeeds has opened new files only, none of them twice, and has
  done what these files do one after the other.\<close>

definition flat :: "cfg_env \<Rightarrow> (config, unit) op \<Rightarrow> bool" where
  "flat env m \<longleftrightarrow> (\<forall>s s'. m s = (Inr (), s') \<longrightarrow>
     (\<exists>ps. cfg_opened s' = cfg_opened s @ ps \<and> distinct ps \<and> set ps \<inter> set (cfg_opened s) = {}
           \<and> each (apply_file env False) ps s = (Inr (), s')))"

named_theorems flat_intros \<open>closure of reading file by file\<close>

lemma flatE:
  assumes "flat env m" and "m s = (Inr (), s')"
  obtains ps where "cfg_opened s' = cfg_opened s @ ps" and "distinct ps"
    and "set ps \<inter> set (cfg_opened s) = {}" and "each (apply_file env False) ps s = (Inr (), s')"
  using assms unfolding flat_def by blast

lemma flat_ret [flat_intros]: "flat env (ret ())"
  unfolding flat_def by (auto intro!: exI [of _ "[]"])

lemma flat_raise [flat_intros]: "flat env (raise e)"
  by (simp add: flat_def)

lemma flat_seq [flat_intros]:
  assumes "flat env m" and "flat env m'"
  shows "flat env (bindE m (\<lambda>_. m'))"
  unfolding flat_def
proof (intro allI impI)
  fix s s' assume "bindE m (\<lambda>_. m') s = (Inr (), s')"
  then obtain t where 1: "m s = (Inr (), t)" and 2: "m' t = (Inr (), s')"
    by (auto elim: bindE_InrE)
  from assms(1) 1 obtain ps where ps: "cfg_opened t = cfg_opened s @ ps" "distinct ps"
    "set ps \<inter> set (cfg_opened s) = {}" "each (apply_file env False) ps s = (Inr (), t)"
    by (rule flatE)
  from assms(2) 2 obtain qs where qs: "cfg_opened s' = cfg_opened t @ qs" "distinct qs"
    "set qs \<inter> set (cfg_opened t) = {}" "each (apply_file env False) qs t = (Inr (), s')"
    by (rule flatE)
  have "distinct (ps @ qs)" "set (ps @ qs) \<inter> set (cfg_opened s) = {}"
    using ps qs by auto
  with ps qs show "\<exists>ps. cfg_opened s' = cfg_opened s @ ps \<and> distinct ps
      \<and> set ps \<inter> set (cfg_opened s) = {} \<and> each (apply_file env False) ps s = (Inr (), s')"
    by (intro exI [of _ "ps @ qs"]) (simp add: each_append)
qed

lemma flat_lift [flat_intros]: "(\<And>x. flat env (g x)) \<Longrightarrow> flat env (bindE (lift r) g)"
  by (cases r) (auto simp: flat_def)

lemma flat_if [flat_intros]: "flat env m \<Longrightarrow> flat env m' \<Longrightarrow> flat env (if b then m else m')"
  by simp

lemma flat_each [flat_intros]: "(\<And>x. flat env (f x)) \<Longrightarrow> flat env (each f xs)"
  by (induction xs) (auto intro: flat_intros)

lemma flat_prod [flat_intros]: "(\<And>x y. flat env (f x y)) \<Longrightarrow> flat env (case z of (x, y) \<Rightarrow> f x y)"
  by (cases z) simp

lemma flat_includes:
  assumes "\<And>p. flat env (rd p)"
  shows "flat env (read_includes env rd t)"
proof -
  have "flat env (ReadInclude env rd u)" for u
    unfolding ReadInclude_def Let_def ProcessIncludeDirectory_def include_entry_def [abs_def]
    by (intro flat_intros assms)
  then show ?thesis
    unfolding read_includes_def
    by (auto split: option.splits toml.splits intro!: flat_intros)
qed

lemma opened_each:
  assumes "\<And>x s r s'. f x s = (r, s') \<Longrightarrow> cfg_opened s' = cfg_opened s"
  shows "each f xs s = (r, s') \<Longrightarrow> cfg_opened s' = cfg_opened s"
  by (induction xs arbitrary: s) (auto simp: bindE_result dest: assms)

lemma ReadAccess_opened: "ReadAccess env t s = (r, s') \<Longrightarrow> cfg_opened s' = cfg_opened s"
  unfolding ReadAccess_def
  by (auto split: option.splits toml.splits if_splits dest!: opened_each [rotated]
      dest: ReadAccessAllow_opened)

lemma read_section_opened:
  "(\<And>u s r s'. rd u s = (r, s') \<Longrightarrow> cfg_opened s' = cfg_opened s)
   \<Longrightarrow> read_section t key b rd s = (r, s') \<Longrightarrow> cfg_opened s' = cfg_opened s"
  by (auto simp: read_section_def split: option.splits toml.splits if_splits)

lemma read_settings_opened: "read_settings env root t s = (r, s') \<Longrightarrow> cfg_opened s' = cfg_opened s"
proof -
  have "cfg_opened s' = cfg_opened s" if "read_section t k b (ReadRpc env) s = (r, s')" for k b s r s'
    by (rule read_section_opened [OF _ that]) (rule ReadRpc_opened)
  moreover have "cfg_opened s' = cfg_opened s" if "read_section t k b (ReadStorage env) s = (r, s')"
    for k b s r s'
    by (rule read_section_opened [OF _ that]) (rule ReadStorage_opened)
  moreover have "cfg_opened s' = cfg_opened s" if "read_section t k b (ReadAccess env) s = (r, s')"
    for k b s r s'
    by (rule read_section_opened [OF _ that]) (rule ReadAccess_opened)
  moreover assume "read_settings env root t s = (r, s')"
  ultimately show ?thesis unfolding read_settings_def bindE_result by metis
qed

lemma Config_Read_flat_step:
  assumes run: "Config_Read (Suc n) env p root s = (Inr (), s')"
    and rd: "\<And>p. flat env (Config_Read n env p False)"
  obtains s1 ps where "p \<notin> set (cfg_opened s)" and "apply_file env root p s = (Inr (), s1)"
    and "each (apply_file env False) ps s1 = (Inr (), s')" and "distinct (p # ps)"
    and "set (p # ps) \<inter> set (cfg_opened s) = {}" and "cfg_opened s' = cfg_opened s @ p # ps"
proof -
  from run have p: "p \<notin> set (cfg_opened s)" by (auto simp: Config_Read_Suc split: if_splits)
  with run obtain tbl where tbl: "cf_parse env p = Inr tbl"
    and "read_file env (\<lambda>q. Config_Read n env q False) root tbl
           (s\<lparr>cfg_opened := cfg_opened s @ [p]\<rparr>) = (Inr (), s')"
    by (auto simp: Config_Read_Suc split: sum.splits)
  then obtain s1 where 1: "read_settings env root tbl (s\<lparr>cfg_opened := cfg_opened s @ [p]\<rparr>) = (Inr (), s1)"
    and 2: "read_includes env (\<lambda>q. Config_Read n env q False) tbl s1 = (Inr (), s')"
    unfolding read_file_def by (auto elim: bindE_InrE)
  have op: "cfg_opened s1 = cfg_opened s @ [p]" using read_settings_opened [OF 1] by simp
  from flat_includes [OF rd] 2 obtain ps where "cfg_opened s' = cfg_opened s1 @ ps" "distinct ps"
    "set ps \<inter> set (cfg_opened s1) = {}" "each (apply_file env False) ps s1 = (Inr (), s')"
    by (rule flatE)
  then show thesis
    using that [of s1 ps] p op 1 tbl by (simp add: apply_file_def)
qed

lemma Config_Read_flat: "flat env (Config_Read n env p False)"
proof (induction n arbitrary: p)
  case (Suc n)
  show ?case
    unfolding flat_def
  proof (intro allI impI)
    fix s s' assume "Config_Read (Suc n) env p False s = (Inr (), s')"
    from Config_Read_flat_step [OF this Suc] obtain s1 ps where
      "apply_file env False p s = (Inr (), s1)" "each (apply_file env False) ps s1 = (Inr (), s')"
      "distinct (p # ps)" "set (p # ps) \<inter> set (cfg_opened s) = {}" "cfg_opened s' = cfg_opened s @ p # ps" .
    then show "\<exists>ps. cfg_opened s' = cfg_opened s @ ps \<and> distinct ps
        \<and> set ps \<inter> set (cfg_opened s) = {} \<and> each (apply_file env False) ps s = (Inr (), s')"
      by (intro exI [of _ "p # ps"]) simp
  qed
qed (simp add: flat_raise)


section \<open>What an accepted configuration has\<close>

text \<open>The mode has permission bits only, and every entry of the allow list names a user or a
  group: this holds all the time.\<close>

definition cfg_common :: "config \<Rightarrow> bool" where
  "cfg_common s \<longleftrightarrow> cfg_socketMode s AND rwx_all = cfg_socketMode s
     \<and> (\<forall>d \<in> set (cfg_allowList s). ad_user d \<noteq> None \<or> ad_group d \<noteq> None)"

lemma keeps_section [keeps_intros]: "(\<And>t. keeps Q (rd t)) \<Longrightarrow> keeps Q (read_section tbl k b rd)"
  by (auto simp: read_section_def split: option.splits toml.splits intro: keeps_intros)

lemma keeps_access:
  "(\<And>t. keeps Q (ReadAccessAllow env t)) \<Longrightarrow> keeps Q (ReadAccess env tbl)"
  by (auto simp: ReadAccess_def split: option.splits toml.splits intro!: keeps_intros)

text \<open>A property of the configuration that does not look at the files opened is kept by a file when
  its sections keep it.\<close>

definition settings_only :: "(config \<Rightarrow> bool) \<Rightarrow> bool" where
  "settings_only Q \<longleftrightarrow> (\<forall>s ps. Q (s\<lparr>cfg_opened := ps\<rparr>) = Q s)"

lemma keeps_file:
  assumes "settings_only Q" and "\<And>t. keeps Q (ReadRpc env t)" and "\<And>t. keeps Q (ReadStorage env t)"
    and "\<And>t. keeps Q (ReadAccessAllow env t)"
  shows "keeps Q (read_settings env root tbl)" and "keeps Q (apply_file env root p)"
proof -
  show settings: "keeps Q (read_settings env root tbl)" for tbl
    unfolding read_settings_def by (intro keeps_intros keeps_access assms)
  show "keeps Q (apply_file env root p)"
    unfolding keeps_unit apply_file_def
  proof (intro allI impI)
    fix s s' assume "Q s"
      and run: "bindE (lift (cf_parse env p)) (read_settings env root)
                  (s\<lparr>cfg_opened := cfg_opened s @ [p]\<rparr>) = (Inr (), s')"
    then have Q: "Q (s\<lparr>cfg_opened := cfg_opened s @ [p]\<rparr>)"
      using assms(1) by (simp add: settings_only_def)
    from run obtain t where "read_settings env root t (s\<lparr>cfg_opened := cfg_opened s @ [p]\<rparr>) = (Inr (), s')"
      by (cases "cf_parse env p") auto
    with settings [of t] Q show "Q s'" by (rule keepsD)
  qed
qed

lemma cfg_common_settings: "settings_only cfg_common"
  by (simp add: settings_only_def cfg_common_def)

lemma access_entry_named: "access_entry env t = Inr d \<Longrightarrow> ad_user d \<noteq> None \<or> ad_group d \<noteq> None"
  by (auto simp: access_entry_def bindS_Inr_conv split: if_splits option.splits toml.splits)

lemma ReadAccessAllow_ok:
  "ReadAccessAllow env t s = (Inr (), s') \<Longrightarrow>
   \<exists>d. access_entry env t = Inr d \<and> s' = s\<lparr>cfg_allowList := cfg_allowList s @ [d]\<rparr>"
  by (cases "access_entry env t") (auto simp: ReadAccessAllow_def)

lemma common_sections:
  "keeps cfg_common (ReadRpc env t)" "keeps cfg_common (ReadStorage env t)" "keeps cfg_common (ReadAccessAllow env t)"
proof -
  show "keeps cfg_common (ReadRpc env t)"
    by (rule keeps_unitI) (auto simp: ReadRpc_def Let_def cfg_common_def and.assoc split: if_splits)
  show "keeps cfg_common (ReadStorage env t)"
    by (rule keeps_unitI) (auto simp: ReadStorage_def Let_def cfg_common_def split: if_splits sum.splits bool.splits)
  show "keeps cfg_common (ReadAccessAllow env t)"
    by (rule keeps_unitI) (auto dest!: ReadAccessAllow_ok access_entry_named simp: cfg_common_def)
qed

text \<open>The sections with a key in a list of files, in the order of the files.\<close>

definition section_of :: "cfg_env \<Rightarrow> string \<Rightarrow> string \<Rightarrow> toml_table option" where
  "section_of env key p =
     (case cf_parse env p of
        Inl _ \<Rightarrow> None
      | Inr tbl \<Rightarrow> (case map_of tbl key of Some (TTable t) \<Rightarrow> Some t | _ \<Rightarrow> None))"

fun sections :: "cfg_env \<Rightarrow> string \<Rightarrow> string list \<Rightarrow> toml_table list" where
  "sections env key [] = []"
| "sections env key (p # ps) =
     (case section_of env key p of None \<Rightarrow> sections env key ps | Some t \<Rightarrow> t # sections env key ps)"

lemma sections_append: "sections env key (ps @ qs) = sections env key ps @ sections env key qs"
  by (induction ps) (auto split: option.splits)

text \<open>What a section of each kind makes of its path, and that a path is the one of the last section or,
  when there is none, the one from before.\<close>

definition rpc_path :: "toml_table \<Rightarrow> string \<Rightarrow> bool" where
  "rpc_path t path \<longleftrightarrow> path = string_or_empty t ''listen'' \<and> path \<noteq> ''''"

definition storage_path :: "cfg_env \<Rightarrow> toml_table \<Rightarrow> string \<Rightarrow> bool" where
  "storage_path env t path \<longleftrightarrow> is_directory env (string_or_empty t ''dir'') = Inr True \<and> string_or_empty t ''db'' \<noteq> ''''
     \<and> path = path_append (string_or_empty t ''dir'') (string_or_empty t ''db'')"

definition from_last :: "('t \<Rightarrow> 'a \<Rightarrow> bool) \<Rightarrow> 't list \<Rightarrow> 'a \<Rightarrow> 'a \<Rightarrow> bool" where
  "from_last P ts old new = (if ts = [] then new = old else P (last ts) new)"

lemma from_last_append: "from_last P ts a b \<Longrightarrow> from_last P us b c \<Longrightarrow> from_last P (ts @ us) a c"
  by (cases "us = []") (simp_all add: from_last_def)

definition paths_from :: "cfg_env \<Rightarrow> string list \<Rightarrow> config \<Rightarrow> config \<Rightarrow> bool" where
  "paths_from env ps s s' \<longleftrightarrow>
     from_last rpc_path (sections env ''rpc'' ps) (cfg_socketPath s) (cfg_socketPath s')
     \<and> from_last (storage_path env) (sections env ''storage'' ps) (cfg_storagePath s) (cfg_storagePath s')"

lemma paths_from_append: "paths_from env ps s t \<Longrightarrow> paths_from env qs t u \<Longrightarrow> paths_from env (ps @ qs) s u"
  by (auto simp: paths_from_def sections_append intro: from_last_append)

lemma ReadRpc_path:
  "ReadRpc env t s = (Inr (), s') \<Longrightarrow> rpc_path t (cfg_socketPath s') \<and> cfg_storagePath s' = cfg_storagePath s"
  by (auto simp: ReadRpc_def rpc_path_def Let_def split: if_splits)

lemma ReadStorage_path:
  "ReadStorage env t s = (Inr (), s') \<Longrightarrow> storage_path env t (cfg_storagePath s') \<and> cfg_socketPath s' = cfg_socketPath s"
  by (auto simp: ReadStorage_def storage_path_def Let_def split: if_splits sum.splits bool.splits)

lemma apply_file_paths:
  assumes "apply_file env root p s = (Inr (), s')"
  shows "paths_from env [p] s s'"
    and "root \<Longrightarrow> sections env ''rpc'' [p] \<noteq> [] \<and> sections env ''storage'' [p] \<noteq> []"
proof -
  obtain tbl where tbl: "cf_parse env p = Inr tbl"
    and run: "read_settings env root tbl (s\<lparr>cfg_opened := cfg_opened s @ [p]\<rparr>) = (Inr (), s')"
    using assms unfolding apply_file_def by (cases "cf_parse env p") auto
  then obtain s1 s2 where
    1: "read_section tbl ''rpc'' root (ReadRpc env) (s\<lparr>cfg_opened := cfg_opened s @ [p]\<rparr>) = (Inr (), s1)"
    and 2: "read_section tbl ''storage'' root (ReadStorage env) s1 = (Inr (), s2)"
    and 3: "read_section tbl ''access'' False (ReadAccess env) s2 = (Inr (), s')"
    unfolding read_settings_def by (auto elim!: bindE_InrE)
  let ?Q = "\<lambda>c. cfg_socketPath c = cfg_socketPath s2 \<and> cfg_storagePath c = cfg_storagePath s2"
  have "keeps ?Q (read_section tbl ''access'' False (ReadAccess env))"
    by (intro keeps_intros keeps_access keeps_unitI) (auto dest!: ReadAccessAllow_ok)
  then have q: "?Q s'" by (rule keepsD) (use 3 in simp_all)
  have s: "sections env key [p] = (case map_of tbl key of Some (TTable t) \<Rightarrow> [t] | _ \<Rightarrow> [])" for key
    by (auto simp: section_of_def tbl split: option.splits toml.splits)
  show "paths_from env [p] s s'"
    using 1 2 q unfolding paths_from_def from_last_def s
    by (auto simp: read_section_def split: option.splits toml.splits if_splits dest!: ReadRpc_path ReadStorage_path)
  show "root \<Longrightarrow> sections env ''rpc'' [p] \<noteq> [] \<and> sections env ''storage'' [p] \<noteq> []"
    using 1 2 unfolding s by (auto simp: read_section_def split: option.splits toml.splits if_splits)
qed

lemma files_paths: "each (apply_file env root) ps s = (Inr (), s') \<Longrightarrow> paths_from env ps s s'"
proof (induction ps arbitrary: s)
  case (Cons p ps)
  then obtain t where "apply_file env root p s = (Inr (), t)" "each (apply_file env root) ps t = (Inr (), s')"
    by (auto elim!: bindE_InrE)
  with apply_file_paths(1) Cons.IH paths_from_append [of env "[p]" s t ps s'] show ?case by auto
qed (simp add: paths_from_def from_last_def)


section \<open>The properties\<close>

text \<open>
  The configuration the witnesses read: \<open>/c\<close> includes the directory \<open>/i\<close>, which holds one more
  configuration file, \<open>/i/a.toml\<close>, and a file with another extension. There is no user \<open>nobody\<close>.
\<close>

definition demo_root :: toml_table where
  "demo_root =
     [(''rpc'', TTable [(''listen'', TString ''/s''), (''umode'', TInt 0x1B0)]),
      (''storage'', TTable [(''dir'', TString ''/d''), (''db'', TString ''x.db'')]),
      (''include'', TArray [TTable [(''path'', TString ''/i'')]])]"

definition demo_entry :: toml_table where
  "demo_entry = [(''user'', TString ''nobody''), (''group'', TInt 5), (''paths'', TArray [TString ''k''])]"

definition demo_sub :: toml_table where
  "demo_sub = [(''access'', TTable [(''allow'', TArray [TTable demo_entry])])]"

definition demo_cfg :: cfg_env where
  "demo_cfg = \<lparr>
     cf_parse = (\<lambda>p. if p = ''/c'' then Inr demo_root else if p = ''/i/a.toml'' then Inr demo_sub
                      else Inl (TomlParseError ''cannot open'')),
     cf_int_value = (\<lambda>v. case v of TInt i \<Rightarrow> Some (sint i) | _ \<Rightarrow> None),
     cf_tables = (\<lambda>xs. xs \<noteq> [] \<and> list_all is_toml_table xs),
     cf_stat = (\<lambda>p. Inr (if p \<in> {''/d'', ''/i''} then FDirectory else FNone)),
     cf_list = (\<lambda>p. Inr [Inr (''/i/README'', Inr FRegular), Inr (''/i/a.toml'', Inr FRegular)]),
     cf_passwd = (\<lambda>_. Inr None), cf_group = (\<lambda>_. Inr None)\<rparr>"

lemma demo_cfg_ok: "cfg_env_ok demo_cfg"
  by (auto simp: cfg_env_ok_def demo_cfg_def list_all_iff)

lemma demo_parseable: "parseable demo_cfg = {''/c'', ''/i/a.toml''}"
  by (auto simp: parseable_def demo_cfg_def)

lemmas demo_run = demo_cfg_def demo_root_def demo_sub_def demo_entry_def config_init_def read_file_def
  read_settings_def read_section_def ReadRpc_def ReadStorage_def ReadAccess_def ReadAccessAllow_def
  access_entry_def access_key_def access_id_def read_includes_def ReadInclude_def
  ProcessIncludeDirectory_def include_entry_def string_or_empty_def is_directory_def file_exists_def
  path_append_def path_extension_def path_filename_def rwx_all_def Let_def Config_Read_Suc

definition demo_result :: config where
  "demo_result = \<lparr>cfg_socketPath = ''/s'', cfg_socketMode = 0x1B0, cfg_storagePath = ''/d/x.db'',
     cfg_allowList = [\<lparr>ad_user = None, ad_group = Some 5, ad_allowed = {''k''}\<rparr>],
     cfg_opened = [''/c'', ''/i/a.toml'']\<rparr>"

lemma demo_read: "Config_Read 3 demo_cfg ''/c'' True config_init = (Inr (), demo_result)"
proof -
  have "Config_Read (Suc (Suc (Suc 0))) demo_cfg ''/c'' True config_init = (Inr (), demo_result)"
    by (simp add: demo_run demo_result_def)
  then show ?thesis by (simp add: numeral_3_eq_3)
qed

text \<open>C26. Reading a configuration returns, whatever its files include: as soon as the bound on the
  depth exceeds the number of files that parse, the call has an outcome that no greater bound
  changes, and what it throws is a runtime error, which \<open>main\<close> catches.\<close>

theorem config_read_returns:
  assumes "cfg_env_ok env" and "finite (parseable env)" and "card (parseable env) < n"
  shows "\<exists>r s'. (\<forall>m. card (parseable env) < m \<longrightarrow> Config_Read m env p root s = (r, s'))
    \<and> Config_Read n env p root s = (r, s') \<and> (\<forall>e. r = Inl e \<longrightarrow> is_runtime_error e)"
proof -
  have left: "files_left env (card (parseable env)) s"
    unfolding files_left_def by (rule card_mono) (use assms(2) in auto)
  obtain r s' where run: "Config_Read n env p root s = (r, s')" by fastforce
  have "Config_Read m env p root s = (r, s')" if "card (parseable env) < m" for m
    using Config_Read_agree [OF assms(1,2,3) that] left run by (auto simp: agree_read_def)
  moreover have "\<forall>e. r = Inl e \<longrightarrow> is_runtime_error e"
    using Config_Read_safe [OF assms] left run unfolding safe_read_def by blast
  ultimately show ?thesis using run by blast
qed

theorem config_read_returns_witness:
  "\<exists>r s'. Config_Read 3 demo_cfg ''/c'' True config_init = (r, s')
    \<and> Config_Read 7 demo_cfg ''/c'' True config_init = (r, s')"
proof -
  have "card (parseable demo_cfg) < 3" "card (parseable demo_cfg) < 7" by (simp_all add: demo_parseable)
  then show ?thesis
    using config_read_returns [OF demo_cfg_ok, of 3 "''/c''" True config_init] by (force simp: demo_parseable)
qed

text \<open>C27. Reading a configuration that succeeds is reading files one after the other: the file
  itself, then the included ones in the order they were opened, none of them twice and none that
  had been opened before; a later file overrides the socket and the storage of an earlier one.\<close>

theorem config_is_sequence:
  assumes "Config_Read n env p root s = (Inr (), s')"
  shows "\<exists>s1 ps. apply_file env root p s = (Inr (), s1)
    \<and> each (apply_file env False) ps s1 = (Inr (), s')
    \<and> cfg_opened s' = cfg_opened s @ p # ps \<and> distinct (p # ps)
    \<and> set (p # ps) \<inter> set (cfg_opened s) = {}"
proof (cases n)
  case (Suc k)
  from Config_Read_flat_step [OF assms [unfolded Suc] Config_Read_flat] show ?thesis by metis
qed (use assms in simp)

theorem config_is_sequence_witness:
  "\<exists>s1 ps. apply_file demo_cfg True ''/c'' config_init = (Inr (), s1)
    \<and> each (apply_file demo_cfg False) ps s1 = (Inr (), demo_result)
    \<and> cfg_opened demo_result = cfg_opened config_init @ ''/c'' # ps \<and> distinct (''/c'' # ps)
    \<and> set (''/c'' # ps) \<inter> set (cfg_opened config_init) = {}"
  by (rule config_is_sequence) (rule demo_read)

text \<open>C28. A configuration that was accepted has all the daemon takes from it. The socket path is the one
  of the last file read that has such a section, and is not empty; the socket mode has permission
  bits only. The database is given by the last storage section: its directory exists and its name
  is not empty, and the database lies in that directory unless the name is an absolute path, which
  replaces the directory that was checked. Each entry of the allow list names a user or a group.\<close>

theorem accepted_config:
  assumes "Config_Read n env p True config_init = (Inr (), s')"
  shows "sections env ''rpc'' (cfg_opened s') \<noteq> [] \<and> sections env ''storage'' (cfg_opened s') \<noteq> []
    \<and> cfg_socketPath s' = string_or_empty (last (sections env ''rpc'' (cfg_opened s'))) ''listen''
    \<and> cfg_socketPath s' \<noteq> '''' \<and> cfg_socketMode s' AND rwx_all = cfg_socketMode s'
    \<and> (let t = last (sections env ''storage'' (cfg_opened s'));
           dir = string_or_empty t ''dir''; name = string_or_empty t ''db''
       in is_directory env dir = Inr True \<and> name \<noteq> ''''
          \<and> cfg_storagePath s' = (if hd name = CHR ''/'' then name
                                  else if dir = '''' \<or> last dir = CHR ''/'' then dir @ name
                                  else dir @ ''/'' @ name))
    \<and> (\<forall>d \<in> set (cfg_allowList s'). ad_user d \<noteq> None \<or> ad_group d \<noteq> None)"
proof -
  obtain k where n: "n = Suc k" using assms by (cases n) simp_all
  from Config_Read_flat_step [OF assms [unfolded n] Config_Read_flat] obtain s1 ps where
    root: "apply_file env True p config_init = (Inr (), s1)"
    and 2: "each (apply_file env False) ps s1 = (Inr (), s')"
    and op: "cfg_opened s' = p # ps" by (metis append_Nil config.select_convs(5) config_init_def)
  have 0: "cfg_common config_init" by (simp add: cfg_common_def config_init_def)
  have 1: "cfg_common s1"
    by (rule keepsD [OF keeps_file(2) [OF cfg_common_settings] 0 root]) (rule common_sections)+
  have common: "cfg_common s'"
    by (rule keepsD [where Q = cfg_common, OF keeps_each 1 2])
      (rule keeps_file(2) [OF cfg_common_settings]; rule common_sections)
  have "sections env key (p # ps) = sections env key [p] @ sections env key ps" for key
    using sections_append [of env key "[p]" ps] by simp
  with apply_file_paths(2) [OF root]
  have ne: "sections env ''rpc'' (cfg_opened s') \<noteq> []" "sections env ''storage'' (cfg_opened s') \<noteq> []"
    by (simp_all add: op)
  have "paths_from env (cfg_opened s') config_init s'"
    using paths_from_append [OF apply_file_paths(1) [OF root] files_paths [OF 2]] by (simp add: op)
  with ne have "rpc_path (last (sections env ''rpc'' (cfg_opened s'))) (cfg_socketPath s')"
    "storage_path env (last (sections env ''storage'' (cfg_opened s'))) (cfg_storagePath s')"
    by (simp_all add: paths_from_def from_last_def)
  with ne common show ?thesis
    unfolding cfg_common_def rpc_path_def storage_path_def path_append_def Let_def by auto
qed

theorem accepted_config_witness:
  "cfg_socketPath demo_result \<noteq> '''' \<and> cfg_socketMode demo_result AND rwx_all = cfg_socketMode demo_result
    \<and> is_directory demo_cfg ''/d'' = Inr True \<and> cfg_storagePath demo_result = ''/d'' @ ''/'' @ ''x.db''
    \<and> ad_group (hd (cfg_allowList demo_result)) \<noteq> None"
proof -
  have "sections demo_cfg ''storage'' (cfg_opened demo_result)
      = [[(''dir'', TString ''/d''), (''db'', TString ''x.db'')]]"
    by (simp add: section_of_def demo_result_def demo_cfg_def demo_root_def demo_sub_def)
  with accepted_config [OF demo_read] show ?thesis
    by (auto simp: string_or_empty_def Let_def demo_result_def)
qed

text \<open>The check on the directory says nothing about a database with an absolute name.\<close>

theorem absolute_name_escapes:
  assumes "is_directory env (string_or_empty tbl ''dir'') = Inr True"
    and "string_or_empty tbl ''db'' = CHR ''/'' # name"
  shows "ReadStorage env tbl s = (Inr (), s\<lparr>cfg_storagePath := CHR ''/'' # name\<rparr>)"
  using assms by (simp add: ReadStorage_def path_append_def Let_def)

theorem absolute_name_escapes_witness:
  "ReadStorage demo_cfg [(''dir'', TString ''/d''), (''db'', TString ''/x/y.db'')] config_init
   = (Inr (), config_init\<lparr>cfg_storagePath := ''/x/y.db''\<rparr>)"
  using absolute_name_escapes [of demo_cfg "[(''dir'', TString ''/d''), (''db'', TString ''/x/y.db'')]" "''x/y.db''"]
  by (simp add: string_or_empty_def is_directory_def demo_cfg_def)

text \<open>An entry of the allow list whose user is unknown is not refused when it names a group as
  well: it is stored as an entry for the whole group, although both are meant to have to match.\<close>

theorem unknown_user_widens_entry:
  assumes "map_of tbl ''user'' = Some (TString name)" and "cf_passwd env (c_str name) = Inr None"
    and "access_key (cf_group env) tbl ''group'' = Inr (Some gid)"
    and "map_of tbl ''paths'' = Some (TArray xs)" and "allowed_paths xs {} = Inr A"
  shows "ReadAccessAllow env tbl s
    = (Inr (), s\<lparr>cfg_allowList := cfg_allowList s @ [\<lparr>ad_user = None, ad_group = Some gid, ad_allowed = A\<rparr>]\<rparr>)"
  using assms by (simp add: ReadAccessAllow_def access_entry_def access_key_def access_id_def)

theorem unknown_user_widens_entry_witness:
  "ReadAccessAllow demo_cfg demo_entry config_init
   = (Inr (), config_init\<lparr>cfg_allowList := cfg_allowList config_init
       @ [\<lparr>ad_user = None, ad_group = Some 5, ad_allowed = {''k''}\<rparr>]\<rparr>)"
  by (rule unknown_user_widens_entry [where name = "''nobody''" and xs = "[TString ''k'']"])
    (simp_all add: demo_cfg_def demo_entry_def access_key_def access_id_def)

end
