(* ===== verification/Watchdog.thy ===== *)
theory Watchdog
  imports Confd_Prelude "HOL-Library.Signed_Division"
begin

text \<open>
  The interface to the watchdog of the service manager: the class \<open>Watchdog\<close> of confd
  (\<open>daemon/watchdog.cpp\<close>), the copy of it in pl-common (\<open>load-common/Watchdog.h\<close>), and the period of the
  timer both event loops kick it with. What the service manager answers is a parameter. Log output
  is left out.
\<close>

section \<open>The class \<open>Watchdog\<close> of confd\<close>

text \<open>
  The static members of \<open>Watchdog\<close>: an interval in microseconds, 64 bits wide and signed, and what
  has been sent to the service manager.
\<close>

record watchdog =
  wd_active :: bool
  wd_interval :: "64 word"
  wd_notes :: "string list"

definition watchdog_init :: watchdog where
  "watchdog_init = \<lparr>wd_active = False, wd_interval = 0, wd_notes = []\<rparr>"

text \<open>\<open>Init\<close>: \<open>err\<close> and \<open>usec\<close> are what \<open>sd_watchdog_enabled\<close> returns, \<open>errno\<close> what \<open>errno\<close>
  holds then.\<close>

definition Watchdog_Init :: "int \<Rightarrow> u64 \<Rightarrow> int \<Rightarrow> (watchdog, unit) op" where
  "Watchdog_Init err usec errno =
     (\<lambda>w. if 0 < err then (Inr (), w\<lparr>wd_interval := usec, wd_active := True\<rparr>)
          else if err = 0 then (Inr (), w\<lparr>wd_active := False\<rparr>)
          else (Inl (SystemError errno ''sd_watchdog_enabled''), w))"

definition sd_notify :: "string \<Rightarrow> watchdog \<Rightarrow> watchdog" where
  "sd_notify note w = w\<lparr>wd_notes := wd_notes w @ [note]\<rparr>"

definition Watchdog_Start :: "watchdog \<Rightarrow> watchdog" where
  "Watchdog_Start w = sd_notify ''READY=1'' w"

definition Watchdog_Stop :: "watchdog \<Rightarrow> watchdog" where
  "Watchdog_Stop w = sd_notify ''STOPPING=1'' w"

definition Watchdog_Kick :: "watchdog \<Rightarrow> watchdog" where
  "Watchdog_Kick w = (if wd_active w then sd_notify ''WATCHDOG=1'' w else w)"

text \<open>The period of the timer that kicks the watchdog: half the interval, as seconds and
  microseconds; \<open>time_t\<close> and \<open>suseconds_t\<close> have 32 bits.\<close>

definition watchdog_timeval :: "64 word \<Rightarrow> u32 \<times> u32" where
  "watchdog_timeval interval =
     (let usec = sint interval sdiv 2
      in (word_of_int (usec sdiv 1000000), word_of_int (usec smod 1000000)))"

section \<open>The class \<open>Watchdog\<close> of pl-common\<close>

definition Pl_Watchdog_Init :: "int \<Rightarrow> u64 \<Rightarrow> int \<Rightarrow> (watchdog, unit) op" where
  "Pl_Watchdog_Init err usec errno =
     (\<lambda>w. if 0 < err then (Inr (), w\<lparr>wd_interval := usec, wd_active := True\<rparr>)
          else if err = 0 then (Inr (), w\<lparr>wd_active := False\<rparr>)
          else (Inl (SystemError errno ''sd_watchdog_enabled''), w))"

definition Pl_Watchdog_Start :: "watchdog \<Rightarrow> watchdog" where
  "Pl_Watchdog_Start w = sd_notify ''READY=1'' w"

definition Pl_Watchdog_Stop :: "watchdog \<Rightarrow> watchdog" where
  "Pl_Watchdog_Stop w = sd_notify ''STOPPING=1'' w"

definition Pl_Watchdog_Kick :: "watchdog \<Rightarrow> watchdog" where
  "Pl_Watchdog_Kick w = (if wd_active w then sd_notify ''WATCHDOG=1'' w else w)"

section \<open>Facts\<close>

lemma Watchdog_Init_result:
  "Watchdog_Init err usec errno w = (r, w') \<Longrightarrow>
     wd_notes w' = wd_notes w \<and> (case r of Inl e \<Rightarrow> e = SystemError errno ''sd_watchdog_enabled'' \<and> w' = w
                                 | Inr _ \<Rightarrow> True)"
  by (auto simp: Watchdog_Init_def split: if_splits)

lemma Kicks_notes:
  "(Watchdog_Kick ^^ n) w
   = w\<lparr>wd_notes := wd_notes w @ (if wd_active w then replicate n ''WATCHDOG=1'' else [])\<rparr>"
  by (induction n) (auto simp: Watchdog_Kick_def sd_notify_def replicate_append_same)

text \<open>The copy has not diverged.\<close>

lemma Pl_Watchdog_same:
  "Pl_Watchdog_Init = Watchdog_Init" "Pl_Watchdog_Start = Watchdog_Start"
  "Pl_Watchdog_Stop = Watchdog_Stop" "Pl_Watchdog_Kick = Watchdog_Kick"
  by (simp_all add: fun_eq_iff Pl_Watchdog_Init_def Watchdog_Init_def Pl_Watchdog_Start_def
      Watchdog_Start_def Pl_Watchdog_Stop_def Watchdog_Stop_def Pl_Watchdog_Kick_def Watchdog_Kick_def)

end
