(* ===== verification/Logging.thy ===== *)
theory Logging
  imports Confd_Prelude
begin

text \<open>
  The set-up of the log output: the part of confd's \<open>daemon/main.cpp\<close> and the copy of it in pl-common,
  \<open>src/Logging.cpp\<close>. The log framework plog is configured with a level, an appender and a formatter,
  and libevent is given a callback that hands its messages to plog. What the framework then writes
  is not modelled.
\<close>

section \<open>Severities\<close>

text \<open>\<open>plog::Severity\<close>, ordered by how much is logged.\<close>

datatype severity = SevFatal | SevError | SevWarning | SevInfo | SevDebug | SevVerbose

fun severity_rank :: "severity \<Rightarrow> nat" where
  "severity_rank SevFatal = 1" | "severity_rank SevError = 2" | "severity_rank SevWarning = 3"
| "severity_rank SevInfo = 4" | "severity_rank SevDebug = 5" | "severity_rank SevVerbose = 6"

lemma severity_rank_inj: "severity_rank s = severity_rank t \<Longrightarrow> s = t"
  by (cases s; cases t) simp_all

instantiation severity :: linorder
begin

definition less_eq_severity :: "severity \<Rightarrow> severity \<Rightarrow> bool" where
  "less_eq_severity s t \<longleftrightarrow> severity_rank s \<le> severity_rank t"

definition less_severity :: "severity \<Rightarrow> severity \<Rightarrow> bool" where
  "less_severity s t \<longleftrightarrow> severity_rank s < severity_rank t"

instance
  by standard (auto simp: less_eq_severity_def less_severity_def dest: severity_rank_inj)

end

section \<open>The appender\<close>

datatype formatter = FuncMessageFormatter | TxtFormatter

record log_setup =
  lo_level :: severity
  lo_color :: bool
  lo_formatter :: formatter

text \<open>\<open>EVENT_LOG_DEBUG\<close>, \<open>EVENT_LOG_MSG\<close>, \<open>EVENT_LOG_WARN\<close> and \<open>EVENT_LOG_ERR\<close> are 0 to 3.\<close>

section \<open>confd\<close>

text \<open>The switch on the argument of \<open>--log-level\<close> in \<open>main\<close>; \<open>None\<close> is the error.\<close>

definition log_severity :: "int \<Rightarrow> severity option" where
  "log_severity level =
     (if level = -3 then Some SevFatal else if level = -2 then Some SevError
      else if level = -1 then Some SevWarning else if level = 0 then Some SevInfo
      else if level = 1 then Some SevDebug else if level = 2 then Some SevVerbose else None)"

definition InitLog :: "bool \<Rightarrow> severity \<Rightarrow> bool \<Rightarrow> log_setup" where
  "InitLog isTty level simple =
     (if simple
      then if isTty then \<lparr>lo_level = level, lo_color = True, lo_formatter = FuncMessageFormatter\<rparr>
           else \<lparr>lo_level = level, lo_color = False, lo_formatter = FuncMessageFormatter\<rparr>
      else if isTty then \<lparr>lo_level = level, lo_color = True, lo_formatter = TxtFormatter\<rparr>
           else \<lparr>lo_level = level, lo_color = False, lo_formatter = TxtFormatter\<rparr>)"

definition InitLibevent :: "int \<Rightarrow> severity" where
  "InitLibevent sev =
     (if sev = 0 then SevDebug else if sev = 1 then SevInfo else if sev = 2 then SevWarning else SevError)"

section \<open>pl-common\<close>

definition InitPlog :: "bool \<Rightarrow> severity \<Rightarrow> bool \<Rightarrow> log_setup" where
  "InitPlog isTty level simple =
     (if simple
      then if isTty then \<lparr>lo_level = level, lo_color = True, lo_formatter = FuncMessageFormatter\<rparr>
           else \<lparr>lo_level = level, lo_color = False, lo_formatter = FuncMessageFormatter\<rparr>
      else if isTty then \<lparr>lo_level = level, lo_color = True, lo_formatter = TxtFormatter\<rparr>
           else \<lparr>lo_level = level, lo_color = False, lo_formatter = TxtFormatter\<rparr>)"

definition Pl_InitLibevent :: "int \<Rightarrow> severity" where
  "Pl_InitLibevent sev =
     (if sev = 0 then SevDebug else if sev = 1 then SevInfo else if sev = 2 then SevWarning else SevError)"

definition InitLogging :: "bool \<Rightarrow> int \<Rightarrow> bool \<Rightarrow> exn + log_setup" where
  "InitLogging isTty level simple =
     bindS (if level = -3 then Inr SevFatal else if level = -2 then Inr SevError
            else if level = -1 then Inr SevWarning else if level = 0 then Inr SevInfo
            else if level = 1 then Inr SevDebug else if level = 2 then Inr SevVerbose
            else Inl (RuntimeError ''invalid log level: must be [-3, 2]''))
       (\<lambda>logLevel. Inr (InitPlog isTty logLevel simple))"

section \<open>Facts\<close>

lemma log_severity_range: "(\<exists>s. log_severity level = Some s) \<longleftrightarrow> -3 \<le> level \<and> level \<le> 2"
  by (auto simp: log_severity_def)

text \<open>A higher level logs more.\<close>

lemma log_severity_mono:
  "log_severity a = Some s \<Longrightarrow> log_severity b = Some t \<Longrightarrow> s \<le> t \<longleftrightarrow> a \<le> b"
  by (auto simp: log_severity_def less_eq_severity_def split: if_splits)

text \<open>The copy in pl-common sets up the same.\<close>

lemma InitLogging_same:
  "InitLogging isTty level simple =
     (case log_severity level of
        None \<Rightarrow> Inl (RuntimeError ''invalid log level: must be [-3, 2]'')
      | Some s \<Rightarrow> Inr (InitLog isTty s simple))"
  "Pl_InitLibevent = InitLibevent"
  by (auto simp: InitLogging_def log_severity_def InitLog_def InitPlog_def Pl_InitLibevent_def InitLibevent_def
      bindS_def)

end
