(* ===== verification/Daemon.thy ===== *)
theory Daemon
  imports Config DataStore RpcServer Watchdog Logging
begin

text \<open>
  The confd process (\<open>daemon/main.cpp\<close> and the first part of \<open>daemon/RpcServer.cpp\<close>): the command
  line, the watchdog, the creation of the listening socket and of the events, the main loop and the
  shutdown. The components it puts together are the
  configuration, the data store and the server of the other theories.

  The system calls, libevent and the service manager are parameters. Log output is left out.
\<close>

unbundle bit_operations_syntax

section \<open>The listening socket\<close>

text \<open>What the system calls answer: an error number, or success and a result.\<close>

record sock_env =
  so_socket :: "int + int"
  so_unlink :: "string \<Rightarrow> int option"
  so_bind :: "string \<Rightarrow> int option"
  so_getfl :: "int + u32"
  so_setfl :: "u32 \<Rightarrow> int option"
  so_fchmod :: "u32 \<Rightarrow> int option"
  so_listen :: "nat \<Rightarrow> int option"

text \<open>What libevent answers: whether an object could be made.\<close>

record loop_env =
  le_base :: bool
  le_watchdog :: bool
  le_signal :: "int \<Rightarrow> bool"
  le_listen :: bool

datatype loop_event =
    TimerEvent "u32 \<times> u32"
  | SignalEvent int
  | ListenEvent int

record listener =
  ln_sock :: int
  ln_unlinked :: "string list"
  ln_bound :: "string option"
  ln_flags :: "u32 option"
  ln_mode :: "u32 option"
  ln_backlog :: "nat option"
  ln_base :: bool
  ln_events :: "loop_event list"

definition listener_init :: listener where
  "listener_init = \<lparr>ln_sock = -1, ln_unlinked = [], ln_bound = None, ln_flags = None, ln_mode = None,
     ln_backlog = None, ln_base = False, ln_events = []\<rparr>"

definition ENOENT :: int where "ENOENT = 2"

definition O_NONBLOCK :: u32 where "O_NONBLOCK = 0x800"

definition kListenBacklog :: nat where "kListenBacklog = 5"

text \<open>The room for the path in \<open>sockaddr_un\<close>, less the terminator.\<close>

definition sun_path_max :: nat where "sun_path_max = 107"

text \<open>A call that fails with an error number throws; one that succeeds goes on.\<close>

definition sys :: "string \<Rightarrow> int option \<Rightarrow> ('s \<Rightarrow> 's) \<Rightarrow> ('s, unit) op" where
  "sys what err f =
     (\<lambda>s. case err of None \<Rightarrow> (Inr (), f s) | Some e \<Rightarrow> (Inl (SystemError e what), s))"

definition initSocket :: "sock_env \<Rightarrow> config \<Rightarrow> (listener, unit) op" where
  "initSocket env cfg =
     (let path = c_str (cfg_socketPath cfg) in
      case so_socket env of
        Inl e \<Rightarrow> raise (SystemError e ''create rpc socket'')
      | Inr fd \<Rightarrow>
          bindE (\<lambda>s. (Inr (), s\<lparr>ln_sock := fd\<rparr>)) (\<lambda>_.
          bindE (case so_unlink env path of
                   None \<Rightarrow> (\<lambda>s. (Inr (), s\<lparr>ln_unlinked := ln_unlinked s @ [path]\<rparr>))
                 | Some e \<Rightarrow> if e \<noteq> ENOENT then raise (SystemError e ''unlink rpc socket'') else ret ()) (\<lambda>_.
          bindE (let p = take sun_path_max path in
                 sys ''bind rpc socket'' (so_bind env p) (\<lambda>s. s\<lparr>ln_bound := Some p\<rparr>)) (\<lambda>_.
          bindE (case so_getfl env of
                   Inl e \<Rightarrow> raise (SystemError e ''get rpc socket flags'')
                 | Inr fl \<Rightarrow>
                     let fl' = fl OR O_NONBLOCK in
                     sys ''set rpc socket flags'' (so_setfl env fl') (\<lambda>s. s\<lparr>ln_flags := Some fl'\<rparr>)) (\<lambda>_.
          bindE (let mode = cfg_socketMode cfg in
                 if mode \<noteq> 0
                 then sys ''set rpc socket permissions'' (so_fchmod env mode) (\<lambda>s. s\<lparr>ln_mode := Some mode\<rparr>)
                 else ret ()) (\<lambda>_.
          sys ''listen rpc socket'' (so_listen env kListenBacklog)
            (\<lambda>s. s\<lparr>ln_backlog := Some kListenBacklog\<rparr>)))))))"

section \<open>The events of the loop\<close>

definition add_event :: "loop_event \<Rightarrow> bool \<Rightarrow> string \<Rightarrow> (listener, unit) op" where
  "add_event ev ok what =
     (\<lambda>s. if ok then (Inr (), s\<lparr>ln_events := ln_events s @ [ev]\<rparr>) else (Inl (RuntimeError what), s))"

definition initWatchdogEvent :: "loop_env \<Rightarrow> watchdog \<Rightarrow> (listener, unit) op" where
  "initWatchdogEvent env w =
     (if \<not> wd_active w then ret ()
      else add_event (TimerEvent (watchdog_timeval (wd_interval w))) (le_watchdog env)
             ''failed to allocate watchdog event'')"

text \<open>\<open>SIGINT\<close>, \<open>SIGTERM\<close>, \<open>SIGHUP\<close>\<close>

definition kEvents :: "int list" where "kEvents = [2, 15, 1]"

definition initSignalEvents :: "loop_env \<Rightarrow> (listener, unit) op" where
  "initSignalEvents env =
     each (\<lambda>signum. add_event (SignalEvent signum) (le_signal env signum)
             ''failed to allocate signal event'') kEvents"

definition initSocketEvent :: "loop_env \<Rightarrow> (listener, unit) op" where
  "initSocketEvent env =
     (\<lambda>s. add_event (ListenEvent (ln_sock s)) (le_listen env) ''failed to allocate listen event'' s)"

definition initEventLoop :: "loop_env \<Rightarrow> watchdog \<Rightarrow> (listener, unit) op" where
  "initEventLoop env w =
     (\<lambda>s. if \<not> le_base env then (Inl (RuntimeError ''failed to allocate event_base''), s)
          else bindE (initWatchdogEvent env w) (\<lambda>_.
                 bindE (initSignalEvents env) (\<lambda>_. initSocketEvent env)) (s\<lparr>ln_base := True\<rparr>))"


section \<open>The process\<close>

text \<open>
  The state of the process: the set-up of the log and whether libevent's messages go there, the
  static members of \<open>Config\<close> and \<open>Watchdog\<close>, the socket and the events of the server, the server
  once it exists, and the paths its destructor has asked the system to remove.
\<close>

record 's daemon =
  dm_log :: "log_setup option"
  dm_event_log :: "(int \<Rightarrow> severity) option"
  dm_config :: config
  dm_watchdog :: watchdog
  dm_listener :: listener
  dm_server :: "'s server option"
  dm_removed :: "string list"

definition on_listener :: "(listener, unit) op \<Rightarrow> ('s daemon, unit) op" where
  "on_listener m = (\<lambda>d. case m (dm_listener d) of (r, l) \<Rightarrow> (r, d\<lparr>dm_listener := l\<rparr>))"

text \<open>The constructor of the server. When it throws, its destructor does not run.\<close>

definition RpcServer_new :: "sock_env \<Rightarrow> loop_env \<Rightarrow> 's \<Rightarrow> ('s daemon, unit) op" where
  "RpcServer_new se le store =
     (\<lambda>d. bindE (on_listener (initSocket se (dm_config d))) (\<lambda>_.
            bindE (on_listener (initEventLoop le (dm_watchdog d))) (\<lambda>_ d'.
              (Inr (), d'\<lparr>dm_server := Some \<lparr>sv_clients = Map.empty, sv_store = store, sv_sent = [],
                 sv_fds = [ln_sock (dm_listener d')], sv_gRun = True, sv_loop_break = False,
                 sv_kicks = 0\<rparr>\<rparr>))) d)"

text \<open>The destructor: the socket is closed and its file removed, the clients are destroyed, and the
  events are released.\<close>

definition RpcServer_delete :: "'s daemon \<Rightarrow> 's daemon" where
  "RpcServer_delete d =
     d\<lparr>dm_server := map_option (shutdown (ln_sock (dm_listener d))) (dm_server d),
       dm_removed := dm_removed d @ [c_str (cfg_socketPath (dm_config d))],
       dm_listener := (dm_listener d)\<lparr>ln_events := [], ln_base := False\<rparr>\<rparr>"

text \<open>
  One call of \<open>run\<close>: libevent dispatches events until the loop is broken or it has nothing to wait
  for, having cleared the flag that breaks it. Each event of the timer kicks the watchdog.
\<close>

definition server_run :: "('s srv_env \<times> srv_event) list \<Rightarrow> ('s daemon, unit) op" where
  "server_run es =
     (\<lambda>d. case dm_server d of
             None \<Rightarrow> (Inl (Undefined ''no server''), d)
           | Some s \<Rightarrow>
               (case RpcServer_run es (s\<lparr>sv_loop_break := False\<rparr>) of
                  (r, s') \<Rightarrow>
                    (r, d\<lparr>dm_server := Some s',
                          dm_watchdog := (Watchdog_Kick ^^ (sv_kicks s' - sv_kicks s)) (dm_watchdog d)\<rparr>)))"

definition running :: "'s daemon \<Rightarrow> bool" where
  "running d = (case dm_server d of None \<Rightarrow> False | Some s \<Rightarrow> sv_gRun s)"

text \<open>
  \<open>while(gRun) server.run();\<close> over what happens to the process: the events of each call of \<open>run\<close>.
  When nothing happens any more the process waits.
\<close>

fun run_loop :: "('s srv_env \<times> srv_event) list list \<Rightarrow> ('s daemon, unit) op" where
  "run_loop [] = (\<lambda>d. if running d then (Inl Blocks, d) else (Inr (), d))"
| "run_loop (es # rest) =
     (\<lambda>d. if running d then bindE (server_run es) (\<lambda>_. run_loop rest) d else (Inr (), d))"

definition on_watchdog :: "(watchdog \<Rightarrow> watchdog) \<Rightarrow> 's daemon \<Rightarrow> 's daemon" where
  "on_watchdog f d = d\<lparr>dm_watchdog := f (dm_watchdog d)\<rparr>"

text \<open>\<open>MainLoop\<close>: leaving its scope destroys the server, also when an exception passes through.\<close>

definition MainLoop :: "sock_env \<Rightarrow> loop_env \<Rightarrow> ('s srv_env \<times> srv_event) list list \<Rightarrow> 's
    \<Rightarrow> ('s daemon, unit) op" where
  "MainLoop se le rounds store =
     bindE (RpcServer_new se le store) (\<lambda>_ d.
       case run_loop rounds (on_watchdog Watchdog_Start d) of
         (Inr _, d') \<Rightarrow> (Inr (), RpcServer_delete (on_watchdog Watchdog_Stop d'))
       | (Inl e, d') \<Rightarrow> (Inl e, if is_std_exception e then RpcServer_delete d' else d'))"

section \<open>The command line\<close>

text \<open>What \<open>getopt_long\<close> returns: an option of the table with its argument, or an error.\<close>

datatype opt_result =
    OptConfig string
  | OptLogLevel "string option"
  | OptLogSimple
  | OptError

text \<open>\<open>strtol\<close> in base 10 with the 32-bit \<open>long\<close> of the target: text without digits is zero, and
  what does not fit is cut to the nearest value.\<close>

definition c_strtol :: "string \<Rightarrow> int" where
  "c_strtol s =
     (let s1 = dropWhile is_space (c_str s);
          neg = (s1 \<noteq> [] \<and> hd s1 = CHR ''-'');
          s2 = (if s1 \<noteq> [] \<and> hd s1 \<in> {CHR ''-'', CHR ''+''} then tl s1 else s1);
          n = int (read_digits (takeWhile is_digit s2));
          v = (if neg then - n else n)
      in max (- (2 ^ 31)) (min (2 ^ 31 - 1) v))"

record options =
  op_confPath :: string
  op_logLevel :: severity
  op_logSimple :: bool

text \<open>The loop over the options; \<open>None\<close> is the early return. The argument of \<open>--log-level\<close> is
  optional, and without it a null pointer is parsed.\<close>

fun parse_options :: "opt_result list \<Rightarrow> options \<Rightarrow> exn + options option" where
  "parse_options [] op = Inr (Some op)"
| "parse_options (OptConfig arg # rest) op = parse_options rest (op\<lparr>op_confPath := arg\<rparr>)"
| "parse_options (OptLogLevel None # rest) op = Inl (Undefined ''strtol(nullptr)'')"
| "parse_options (OptLogLevel (Some arg) # rest) op =
     (case log_severity (c_strtol arg) of
        None \<Rightarrow> Inr None
      | Some sev \<Rightarrow> parse_options rest (op\<lparr>op_logLevel := sev\<rparr>))"
| "parse_options (OptLogSimple # rest) op = parse_options rest (op\<lparr>op_logSimple := True\<rparr>)"
| "parse_options (OptError # rest) op = parse_options rest op"

definition options_init :: options where
  "options_init = \<lparr>op_confPath = '''', op_logLevel = SevInfo, op_logSimple = False\<rparr>"

section \<open>\<open>main\<close>\<close>

text \<open>
  What the process meets: the command line, whether its output is a terminal, the watchdog's answer, the files, the store behind a
  path (the constructor of \<open>DataStore\<close>), the system calls and the events. \<open>me_depth\<close> bounds the
  depth of the includes.
\<close>

record 's main_env =
  me_opts :: "opt_result list"
  me_tty :: bool
  me_watchdog :: "int \<times> u64 \<times> int"
  me_cfg :: cfg_env
  me_depth :: nat
  me_open :: "string \<Rightarrow> exn + 's"
  me_sock :: sock_env
  me_loop :: loop_env
  me_rounds :: "('s srv_env \<times> srv_event) list list"

definition on_config :: "(config, unit) op \<Rightarrow> ('s daemon, unit) op" where
  "on_config m = (\<lambda>d. case m (dm_config d) of (r, c) \<Rightarrow> (r, d\<lparr>dm_config := c\<rparr>))"

definition on_wd :: "(watchdog, unit) op \<Rightarrow> ('s daemon, unit) op" where
  "on_wd m = (\<lambda>d. case m (dm_watchdog d) of (r, w) \<Rightarrow> (r, d\<lparr>dm_watchdog := w\<rparr>))"

text \<open>A \<open>try\<close> block whose handler returns a status; what it does not catch passes on.\<close>

definition try_or :: "(exn \<Rightarrow> bool) \<Rightarrow> int \<Rightarrow> ('s, 'a) op \<Rightarrow> ('a \<Rightarrow> ('s, int) op) \<Rightarrow> ('s, int) op" where
  "try_or caught status m k =
     (\<lambda>s. case m s of
             (Inr x, s') \<Rightarrow> k x s'
           | (Inl e, s') \<Rightarrow> if caught e then (Inr status, s') else (Inl e, s'))"

definition set_log :: "log_setup \<Rightarrow> ('s daemon, unit) op" where
  "set_log lo = (\<lambda>d. (Inr (), d\<lparr>dm_log := Some lo\<rparr>))"

text \<open>\<open>event_set_log_callback\<close>\<close>

definition set_event_log :: "(int \<Rightarrow> severity) \<Rightarrow> ('s daemon, unit) op" where
  "set_event_log f = (\<lambda>d. (Inr (), d\<lparr>dm_event_log := Some f\<rparr>))"

text \<open>The result is the status \<open>main\<close> returns; an exception nobody catches ends the process.\<close>

definition confd_main :: "'s main_env \<Rightarrow> ('s daemon, int) op" where
  "confd_main env =
     bindE (lift (parse_options (me_opts env) options_init)) (\<lambda>opts.
       case opts of
         None \<Rightarrow> ret (-1)
       | Some op \<Rightarrow>
           if op_confPath op = '''' then ret (-1)
           else bindE (set_log (InitLog (me_tty env) (op_logLevel op) (op_logSimple op))) (\<lambda>_.
             bindE (on_wd (case me_watchdog env of (err, usec, errno) \<Rightarrow> Watchdog_Init err usec errno)) (\<lambda>_.
             try_or is_runtime_error 2
               (on_config (Config_Read (me_depth env) (me_cfg env) (op_confPath op) True)) (\<lambda>_ d.
             try_or is_std_exception 1
               (lift (me_open env (cfg_storagePath (dm_config d)))) (\<lambda>store.
             try_or is_std_exception 1
               (bindE (set_event_log InitLibevent) (\<lambda>_.
                  MainLoop (me_sock env) (me_loop env) (me_rounds env) store)) (\<lambda>_. ret 0)) d))))"

definition daemon_init :: "'s daemon" where
  "daemon_init = \<lparr>dm_log = None, dm_event_log = None, dm_config = config_init, dm_watchdog = watchdog_init, dm_listener = listener_init,
     dm_server = None, dm_removed = []\<rparr>"

end
