(* ===== verification/Daemon_Correct.thy ===== *)
theory Daemon_Correct
  imports Daemon Config_Correct RpcServer_Correct
begin

text \<open>
  What holds of the process as a whole: how the listening socket comes up, the period of the
  watchdog, that a signal ends the process in order, and which statuses \<open>main\<close> returns.
\<close>

section \<open>The listening socket\<close>

lemma sys_app: "sys what err f s = (r, s') \<longleftrightarrow>
    (case err of None \<Rightarrow> r = Inr () \<and> s' = f s | Some e \<Rightarrow> r = Inl (SystemError e what) \<and> s' = s)"
  by (auto simp: sys_def split: option.splits)

definition is_system_error :: "exn \<Rightarrow> bool" where
  "is_system_error e = (case e of SystemError _ _ \<Rightarrow> True | _ \<Rightarrow> False)"

lemma sys_fails [op_intros]: "fails_in is_system_error (sys what err f)"
  by (auto simp: fails_in_def sys_app is_system_error_def split: option.splits)

lemma fails_in_set [op_intros]: "fails_in P (\<lambda>s. (Inr (), f s))"
  by (simp add: fails_in_def)

lemma initSocket_fails: "fails_in is_system_error (initSocket env cfg)"
  unfolding initSocket_def Let_def
  by (auto split: sum.splits option.splits simp: is_system_error_def intro!: op_intros)

lemma initSocket_ok:
  assumes "initSocket env cfg l = (Inr (), l')"
  obtains fd fl where "so_socket env = Inr fd" and "ln_sock l' = fd"
    and "ln_bound l' = Some (take sun_path_max (c_str (cfg_socketPath cfg)))"
    and "ln_flags l' = Some (fl OR O_NONBLOCK)" and "ln_backlog l' = Some kListenBacklog"
    and "cfg_socketMode cfg \<noteq> 0 \<longrightarrow> ln_mode l' = Some (cfg_socketMode cfg)"
  using assms unfolding initSocket_def Let_def
  by (auto simp: bindE_result sys_app split: sum.splits option.splits if_splits)

section \<open>The run loop\<close>

lemma signal_breaks_run:
  assumes "RpcServer_run pre s = (Inr (), s1)" and "\<not> sv_loop_break s1"
  shows "RpcServer_run (pre @ (env, EvSignal) # post) s = (Inr (), handleTermination s1)"
  using assms
proof (induction pre arbitrary: s)
  case Nil
  then show ?case by (simp add: callback_def handleTermination_def)
next
  case (Cons p pre)
  obtain e ev where p: "p = (e, ev)" by fastforce
  from Cons.prems(1) obtain s2 where c: "callback e ev s = (Inr (), s2)"
    and r: "(if sv_loop_break s2 then (Inr (), s2) else RpcServer_run pre s2) = (Inr (), s1)"
    unfolding p by (auto elim!: bindE_InrE)
  with Cons.prems(2) have "\<not> sv_loop_break s2" by (auto split: if_splits)
  with r c show ?case by (simp add: p Cons.IH Cons.prems(2))
qed

section \<open>The properties\<close>

text \<open>C31. When the listening socket could be set up it is non-blocking, listens with a backlog of
  five, has the configured mode unless that is zero, and is bound to the configured path, cut
  silently to the 107 bytes a socket address has room for; when it could not be, a system error
  says which call failed.\<close>

theorem initSocket_outcome:
  assumes "initSocket env cfg l = (r, l')"
  shows "(\<forall>e. r = Inl e \<longrightarrow> (\<exists>err what. e = SystemError err what))
    \<and> (r = Inr () \<longrightarrow> so_socket env = Inr (ln_sock l') \<and> ln_backlog l' = Some 5
         \<and> (\<exists>fl. ln_flags l' = Some fl \<and> fl AND O_NONBLOCK = O_NONBLOCK)
         \<and> (cfg_socketMode cfg \<noteq> 0 \<longrightarrow> ln_mode l' = Some (cfg_socketMode cfg))
         \<and> ln_bound l' = Some (take 107 (c_str (cfg_socketPath cfg)))
         \<and> (ln_bound l' = Some (c_str (cfg_socketPath cfg)) \<longleftrightarrow> length (c_str (cfg_socketPath cfg)) \<le> 107))"
proof (cases r)
  case (Inl e)
  have "is_system_error e"
    by (rule fails_inD [OF initSocket_fails]) (use assms Inl in simp)
  then show ?thesis by (simp add: Inl is_system_error_def split: exn.splits)
next
  case (Inr u)
  with assms have "initSocket env cfg l = (Inr (), l')" by simp
  then obtain fd fl where *: "so_socket env = Inr fd" "ln_sock l' = fd"
    "ln_bound l' = Some (take sun_path_max (c_str (cfg_socketPath cfg)))"
    "ln_flags l' = Some (fl OR O_NONBLOCK)" "ln_backlog l' = Some kListenBacklog"
    "cfg_socketMode cfg \<noteq> 0 \<longrightarrow> ln_mode l' = Some (cfg_socketMode cfg)"
    by (rule initSocket_ok)
  have "(fl OR O_NONBLOCK) AND O_NONBLOCK = O_NONBLOCK"
    by (simp add: word_bw_comms word_ao_absorbs)
  with * Inr show ?thesis by (simp add: kListenBacklog_def sun_path_max_def)
qed


definition demo_sock :: sock_env where
  "demo_sock = \<lparr>so_socket = Inr 7, so_unlink = (\<lambda>_. Some ENOENT), so_bind = (\<lambda>_. None),
     so_getfl = Inr 2, so_setfl = (\<lambda>_. None), so_fchmod = (\<lambda>_. None), so_listen = (\<lambda>_. None)\<rparr>"

definition demo_loop :: loop_env where
  "demo_loop = \<lparr>le_base = True, le_watchdog = True, le_signal = (\<lambda>_. True), le_listen = True\<rparr>"

definition demo_listener :: listener where
  "demo_listener = \<lparr>ln_sock = 7, ln_unlinked = [], ln_bound = Some ''/s'',
     ln_flags = Some (2 OR O_NONBLOCK), ln_mode = Some 0x1B0, ln_backlog = Some 5, ln_base = False,
     ln_events = []\<rparr>"

lemma demo_initSocket: "initSocket demo_sock demo_result listener_init = (Inr (), demo_listener)"
  by (simp add: initSocket_def demo_sock_def demo_result_def demo_listener_def listener_init_def
      sys_def ENOENT_def sun_path_max_def kListenBacklog_def c_str_def NUL_def Let_def)

lemma initSocket_outcome_witness:
  "so_socket demo_sock = Inr (ln_sock demo_listener)
   \<and> (ln_bound demo_listener = Some (c_str (cfg_socketPath demo_result))
      \<longleftrightarrow> length (c_str (cfg_socketPath demo_result)) \<le> 107)"
  using initSocket_outcome [OF demo_initSocket] by simp

text \<open>The timer of the watchdog has a valid period, and it is half the interval the service
  manager asked for, rounded down to the microsecond, for every interval whose half has fewer than
  \<open>2 ^ 31\<close> seconds.\<close>

lemma watchdog_period:
  assumes "0 \<le> sint interval" and "sint interval < 2 * 10 ^ 6 * 2 ^ 31"
  shows "case watchdog_timeval interval of (sec, usec) \<Rightarrow>
    0 \<le> sint sec \<and> 0 \<le> sint usec \<and> sint usec < 10 ^ 6
    \<and> sint sec * 10 ^ 6 + sint usec = sint interval div 2"
proof -
  let ?u = "sint interval div 2"
  have u: "0 \<le> ?u" "?u < 10 ^ 6 * 2 ^ 31" using assms by auto
  have d: "sint interval sdiv 2 = ?u" using assms(1) by (simp add: signed_divide_int_def sgn_if)
  have q: "?u sdiv 1000000 = ?u div 1000000" "?u smod 1000000 = ?u mod 1000000"
    using u(1) by (auto simp: signed_divide_int_def signed_modulo_int_def sgn_if minus_div_mult_eq_mod)
  have b: "0 \<le> ?u div 1000000" "?u div 1000000 < 2 ^ 31" "0 \<le> ?u mod 1000000" "?u mod 1000000 < 10 ^ 6"
    using u by auto
  have s: "sint (word_of_int x :: u32) = x" if "0 \<le> x" "x < 2 ^ 31" for x
    using that by (simp add: signed_of_int signed_take_bit_int_eq_self)
  have "sint (word_of_int (?u div 1000000) :: u32) = ?u div 1000000"
    "sint (word_of_int (?u mod 1000000) :: u32) = ?u mod 1000000"
    using b by (auto intro!: s)
  with b show ?thesis by (simp add: watchdog_timeval_def Let_def d q)
qed

section \<open>\<open>main\<close>\<close>

lemma try_or_result:
  "try_or c st m k s = (r, s') \<longleftrightarrow>
     (\<exists>x t. m s = (Inr x, t) \<and> k x t = (r, s'))
   \<or> (\<exists>e. m s = (Inl e, s') \<and> (if c e then r = Inr st else r = Inl e))"
  by (auto simp: try_or_def split: prod.splits sum.splits)

lemma on_config_result:
  "on_config m d = (r, d') \<longleftrightarrow> (\<exists>c. m (dm_config d) = (r, c) \<and> d' = d\<lparr>dm_config := c\<rparr>)"
  by (auto simp: on_config_def split: prod.splits)

lemma on_wd_result:
  "on_wd m d = (r, d') \<longleftrightarrow> (\<exists>w. m (dm_watchdog d) = (r, w) \<and> d' = d\<lparr>dm_watchdog := w\<rparr>)"
  by (auto simp: on_wd_def split: prod.splits)

lemma run_loop_ok: "run_loop rs d = (Inr (), d') \<Longrightarrow> \<not> running d'"
  by (induction rs arbitrary: d) (auto split: if_splits elim!: bindE_InrE)

text \<open>What the steps of \<open>main\<close> throw: parsing the options throws no exception, setting up the server
  throws only exceptions of the standard library and leaves no server, and a server that runs
  throws none, because every callback catches them.\<close>

definition quiet_failure :: "exn \<Rightarrow> bool" where
  "quiet_failure e \<longleftrightarrow> \<not> is_std_exception e"

lemma parse_options_fails: "parse_options os op = Inl e \<Longrightarrow> quiet_failure e"
  by (induction os op rule: parse_options.induct) (auto simp: quiet_failure_def split: option.splits)

lemma add_event_fails [op_intros]: "fails_in is_std_exception (add_event ev ok what)"
  by (auto simp: fails_in_def add_event_def)

lemma initEventLoop_fails: "fails_in is_std_exception (initEventLoop le w)"
proof -
  have s: "fails_in is_std_exception (initSocketEvent le)"
    using add_event_fails unfolding initSocketEvent_def fails_in_def by blast
  have b: "fails_in is_std_exception (bindE (initWatchdogEvent le w) (\<lambda>_. bindE (initSignalEvents le) (\<lambda>_. initSocketEvent le)))"
    unfolding initWatchdogEvent_def initSignalEvents_def by (intro op_intros s)
  then show ?thesis by (auto simp: fails_in_def initEventLoop_def split: if_splits)
qed

lemma RpcServer_new_fails:
  assumes "RpcServer_new se le store d = (Inl e, d')"
  shows "is_std_exception e" and "\<exists>l. d' = d\<lparr>dm_listener := l\<rparr>"
proof -
  have "is_system_error e' \<Longrightarrow> is_std_exception e'" for e' by (cases e') (simp_all add: is_system_error_def)
  then show "is_std_exception e"
    using assms initSocket_fails [of se] initEventLoop_fails [of le]
    by (auto simp: RpcServer_new_def on_listener_def bindE_result fails_in_def split: prod.splits) blast+
  show "\<exists>l. d' = d\<lparr>dm_listener := l\<rparr>"
    using assms by (auto simp: RpcServer_new_def on_listener_def bindE_result split: prod.splits)
qed

lemma callback_fails: "fails_in quiet_failure (callback env e)"
  by (auto simp: fails_in_def callback_def catching_def quiet_failure_def split: srv_event.splits prod.splits sum.splits if_splits)

lemma RpcServer_run_fails: "fails_in quiet_failure (RpcServer_run es)"
proof (induction es)
  case (Cons p es)
  have "fails_in quiet_failure (\<lambda>s. if sv_loop_break s then (Inr (), s) else RpcServer_run es s)"
    using Cons.IH by (simp add: fails_in_def)
  then show ?case using callback_fails by (cases p) (auto intro: op_intros)
qed (auto simp: fails_in_def)

lemma run_loop_fails: "fails_in quiet_failure (run_loop rs)"
proof (induction rs)
  case (Cons es rs)
  have "fails_in quiet_failure (server_run es)"
    using RpcServer_run_fails [of es]
    by (auto simp: fails_in_def server_run_def quiet_failure_def split: option.splits prod.splits)
  with Cons.IH have "fails_in quiet_failure (bindE (server_run es) (\<lambda>_. run_loop rs))" by (intro op_intros)
  then show ?case by (simp add: fails_in_def)
qed (simp add: fails_in_def quiet_failure_def)

text \<open>A configuration that is read from the initial state with enough depth throws runtime errors only.\<close>

lemma read_fails_runtime:
  assumes "cfg_env_ok env" and "finite (parseable env)" and "card (parseable env) < n"
    and "Config_Read n env p root s = (Inl e, s')"
  shows "is_runtime_error e"
proof -
  have "files_left env (card (parseable env)) s"
    unfolding files_left_def by (rule card_mono) (use assms(2) in auto)
  then show ?thesis
    using Config_Read_safe [OF assms(1-3)] assms(4) unfolding safe_read_def by blast
qed

text \<open>How \<open>main\<close> ends once the data store is open, in the state \<open>d0\<close>. A server that cannot be set up
  gives 1: its destructor does not run, so that the socket is left as it is and its file is not
  removed. A server that runs throws no exception of the standard library; when it returns, the
  status is 0, the run flag is cleared, the server destroyed and the stop announced.\<close>

definition serve_ends :: "'s main_env \<Rightarrow> 's \<Rightarrow> 's daemon \<Rightarrow> exn + int \<Rightarrow> 's daemon \<Rightarrow> bool" where
  "serve_ends env store d0 r d =
     (case RpcServer_new (me_sock env) (me_loop env) store d0 of
        (Inl _, d1) \<Rightarrow> r = Inr 1 \<and> d = d1 \<and> (\<exists>l. d1 = d0\<lparr>dm_listener := l\<rparr>)
      | (Inr _, d1) \<Rightarrow>
          (case run_loop (me_rounds env) (on_watchdog Watchdog_Start d1) of
             (Inl e, d2) \<Rightarrow> r = Inl e \<and> \<not> is_std_exception e \<and> d = d2
           | (Inr _, d2) \<Rightarrow> r = Inr 0 \<and> d = RpcServer_delete (on_watchdog Watchdog_Stop d2)
               \<and> \<not> running d \<and> wd_notes (dm_watchdog d) \<noteq> [] \<and> last (wd_notes (dm_watchdog d)) = ''STOPPING=1''
               \<and> (case dm_server d of None \<Rightarrow> True | Some s \<Rightarrow> sv_clients s = Map.empty)))"

lemma main_serves:
  assumes "try_or is_std_exception 1 (MainLoop (me_sock env) (me_loop env) (me_rounds env) store) (\<lambda>_. ret 0) d0 = (r, d)"
  shows "serve_ends env store d0 r d"
proof -
  obtain rs d1 where s: "RpcServer_new (me_sock env) (me_loop env) store d0 = (rs, d1)" by fastforce
  show ?thesis
  proof (cases rs)
    case (Inl e)
    with RpcServer_new_fails [OF s [unfolded Inl]] s assms show ?thesis
      by (auto simp: serve_ends_def try_or_def MainLoop_def)
  next
    case (Inr v)
    obtain rl d2 where l: "run_loop (me_rounds env) (on_watchdog Watchdog_Start d1) = (rl, d2)" by fastforce
    show ?thesis
    proof (cases rl)
      case (Inl e)
      have "\<not> is_std_exception e"
        using fails_inD [OF run_loop_fails l [unfolded Inl]] by (simp add: quiet_failure_def)
      with Inl Inr s l assms show ?thesis by (simp add: serve_ends_def try_or_def MainLoop_def)
    next
      case ok: (Inr w)
      have "\<not> running d2" by (rule run_loop_ok) (use l ok in simp)
      then have "\<not> running (RpcServer_delete (on_watchdog Watchdog_Stop d2))
          \<and> (case dm_server (RpcServer_delete (on_watchdog Watchdog_Stop d2)) of None \<Rightarrow> True | Some s \<Rightarrow> sv_clients s = Map.empty)"
        by (cases "dm_server d2") (simp_all add: RpcServer_delete_def on_watchdog_def running_def shutdown_def)
      moreover have "wd_notes (dm_watchdog (RpcServer_delete (on_watchdog Watchdog_Stop d2)))
          = wd_notes (dm_watchdog d2) @ [''STOPPING=1'']"
        by (simp add: RpcServer_delete_def on_watchdog_def Watchdog_Stop_def sd_notify_def)
      ultimately show ?thesis using ok Inr s l assms by (simp add: serve_ends_def try_or_def MainLoop_def)
    qed
  qed
qed

lemma try_or_lift: "try_or c st (lift (Inr x)) k = k x" "try_or c st (lift (Inl e)) k = (\<lambda>s. (if c e then Inr st else Inl e, s))"
  by (auto simp: try_or_def)

lemma try_or_set_event_log:
  "try_or c st (bindE (set_event_log f) k) k' d = try_or c st (k ()) k' (d\<lparr>dm_event_log := Some f\<rparr>)"
  by (simp add: try_or_def set_event_log_def)

text \<open>\<open>main\<close> behind the command line.\<close>

lemma main_started:
  assumes "parse_options (me_opts env) options_init = Inr (Some op)" and "op_confPath op \<noteq> ''''"
    and "me_watchdog env = (err, usec, errno)"
  shows "confd_main env daemon_init = bindE (on_wd (Watchdog_Init err usec errno)) (\<lambda>_.
             try_or is_runtime_error 2
               (on_config (Config_Read (me_depth env) (me_cfg env) (op_confPath op) True)) (\<lambda>_ d.
             try_or is_std_exception 1
               (lift (me_open env (cfg_storagePath (dm_config d)))) (\<lambda>store.
             try_or is_std_exception 1
               (bindE (set_event_log InitLibevent) (\<lambda>_.
                  MainLoop (me_sock env) (me_loop env) (me_rounds env) store)) (\<lambda>_. ret 0)) d))
      (daemon_init\<lparr>dm_log := Some (InitLog (me_tty env) (op_logLevel op) (op_logSimple op))\<rparr>)"
  using assms by (simp add: confd_main_def set_log_def)

text \<open>C30. The statuses of \<open>main\<close>, by the step that fails, and the state it leaves. A command line with
  an invalid log level or without a configuration gives -1 and nothing has been done. When the
  watchdog cannot be queried its exception ends the process: the only one of the standard library
  that does. A configuration that is not accepted gives 2, whatever is wrong with it, and a data
  store that cannot be opened gives 1; in both cases the socket has not been touched, there is no
  server and the service manager has heard nothing. Behind the store, a server that cannot be set up
  gives 1, and one that has been set up gives 0 when it returns, see \<open>serve_ends\<close>. The depth of the
  includes exceeds the number of files that parse.\<close>

theorem main_status:
  assumes "cfg_env_ok (me_cfg env)" and "finite (parseable (me_cfg env))"
    and "card (parseable (me_cfg env)) < me_depth env"
    and "confd_main env daemon_init = (r, d)"
  shows "case parse_options (me_opts env) options_init of
      Inl e \<Rightarrow> r = Inl e \<and> \<not> is_std_exception e \<and> d = daemon_init
    | Inr None \<Rightarrow> r = Inr (-1) \<and> d = daemon_init
    | Inr (Some op) \<Rightarrow>
        if op_confPath op = '''' then r = Inr (-1) \<and> d = daemon_init
        else
          (case me_watchdog env of (err, usec, errno) \<Rightarrow>
            (let d0 = daemon_init\<lparr>dm_log := Some (InitLog (me_tty env) (op_logLevel op) (op_logSimple op))\<rparr> in
             case Watchdog_Init err usec errno watchdog_init of
               (Inl _, _) \<Rightarrow> r = Inl (SystemError errno ''sd_watchdog_enabled'') \<and> d = d0
             | (Inr _, w) \<Rightarrow> wd_notes w = [] \<and>
                 (case Config_Read (me_depth env) (me_cfg env) (op_confPath op) True config_init of
                    (Inl _, c) \<Rightarrow> r = Inr 2 \<and> d = d0\<lparr>dm_watchdog := w, dm_config := c\<rparr>
                  | (Inr _, c) \<Rightarrow>
                      (case me_open env (cfg_storagePath c) of
                         Inl e \<Rightarrow> r = (if is_std_exception e then Inr 1 else Inl e)
                                 \<and> d = d0\<lparr>dm_watchdog := w, dm_config := c\<rparr>
                       | Inr store \<Rightarrow>
                           serve_ends env store
                             (d0\<lparr>dm_watchdog := w, dm_config := c, dm_event_log := Some InitLibevent\<rparr>) r d))))"
proof (cases "\<exists>op. parse_options (me_opts env) options_init = Inr (Some op) \<and> op_confPath op \<noteq> ''''")
  case False
  with assms(4) parse_options_fails [of "me_opts env" options_init] show ?thesis
    by (auto simp: confd_main_def quiet_failure_def split: sum.splits option.splits)
next
  case True
  then obtain op where op: "parse_options (me_opts env) options_init = Inr (Some op)" "op_confPath op \<noteq> ''''" by blast
  obtain err usec errno where we: "me_watchdog env = (err, usec, errno)" by (cases "me_watchdog env") auto
  obtain rw w where w: "Watchdog_Init err usec errno watchdog_init = (rw, w)" by fastforce
  obtain rc c where c: "Config_Read (me_depth env) (me_cfg env) (op_confPath op) True config_init = (rc, c)" by fastforce
  have runtime: "is_runtime_error e" if "rc = Inl e" for e
    by (rule read_fails_runtime [OF assms(1-3)]) (use c that in simp)
  have init: "dm_watchdog daemon_init = watchdog_init" "dm_config daemon_init = config_init"
    by (simp_all add: daemon_init_def)
  have same: "(daemon_init :: 'a daemon)\<lparr>dm_log := x, dm_watchdog := watchdog_init\<rparr> = daemon_init\<lparr>dm_log := x\<rparr>" for x
    by (simp add: daemon_init_def)
  note main = assms(4) [unfolded main_started [OF op we]]
    and wr = Watchdog_Init_result [OF w]
  show ?thesis
  proof (cases rw)
    case (Inl e)
    with main w wr same show ?thesis by (auto simp: op we on_wd_def init)
  next
    case wd: (Inr u)
    have n: "wd_notes w = []" using wr by (simp add: watchdog_init_def)
    show ?thesis
    proof (cases "rc \<noteq> Inr () \<or> (\<exists>e. me_open env (cfg_storagePath c) = Inl e)")
      case True
      with wd main w c runtime n show ?thesis
        by (cases rc) (auto simp: op we on_wd_def on_config_def try_or_def init Let_def split: if_splits)
    next
      case False
      then obtain store where "me_open env (cfg_storagePath c) = Inr store" "rc = Inr ()"
        by (cases "me_open env (cfg_storagePath c)") auto
      with wd main w c n show ?thesis
        by (simp add: op we on_wd_def on_config_def try_or_def [of is_runtime_error] init Let_def
            main_serves try_or_lift try_or_set_event_log)
    qed
  qed
qed

definition demo_main :: "db main_env" where
  "demo_main = \<lparr>me_opts = [OptLogLevel (Some ''1''), OptConfig ''/c''], me_tty = False, me_watchdog = (1, 30000000, 0),
     me_cfg = demo_cfg, me_depth = 3, me_open = (\<lambda>_. Inr demo_db), me_sock = demo_sock,
     me_loop = demo_loop,
     me_rounds = [[(demo_env, EvWatchdog)], [(demo_env, EvWatchdog), (demo_env, EvSignal)]]\<rparr>"

text \<open>The set-up of the log that the command line asks for.\<close>

definition main_log :: "'s main_env \<Rightarrow> log_setup option" where
  "main_log env =
     (case parse_options (me_opts env) options_init of
        Inr (Some op) \<Rightarrow> Some (InitLog (me_tty env) (op_logLevel op) (op_logSimple op))
      | _ \<Rightarrow> None)"

text \<open>The state in which the server of \<open>env\<close> starts to run.\<close>

definition served :: "'s main_env \<Rightarrow> watchdog \<Rightarrow> config \<Rightarrow> listener \<Rightarrow> 's \<Rightarrow> 's daemon" where
  "served env w c l store = \<lparr>dm_log = main_log env, dm_event_log = Some InitLibevent, dm_config = c, dm_watchdog = w, dm_listener = l,
     dm_server = Some \<lparr>sv_clients = Map.empty, sv_store = store, sv_sent = [], sv_fds = [ln_sock l],
        sv_gRun = True, sv_loop_break = False, sv_kicks = 0\<rparr>, dm_removed = []\<rparr>"

text \<open>The whole start-up, when every step of it succeeds.\<close>

definition starts_up :: "'s main_env \<Rightarrow> watchdog \<Rightarrow> config \<Rightarrow> listener \<Rightarrow> 's \<Rightarrow> bool" where
  "starts_up env w c l store \<longleftrightarrow>
     (\<exists>op l1. parse_options (me_opts env) options_init = Inr (Some op) \<and> op_confPath op \<noteq> ''''
        \<and> (case me_watchdog env of (err, usec, errno) \<Rightarrow> Watchdog_Init err usec errno watchdog_init) = (Inr (), w)
        \<and> Config_Read (me_depth env) (me_cfg env) (op_confPath op) True config_init = (Inr (), c)
        \<and> me_open env (cfg_storagePath c) = Inr store
        \<and> initSocket (me_sock env) c listener_init = (Inr (), l1)
        \<and> initEventLoop (me_loop env) w l1 = (Inr (), l))"

lemma starts_up_run:
  assumes "starts_up env w c l store"
  shows "confd_main env daemon_init =
    (case run_loop (me_rounds env) (on_watchdog Watchdog_Start (served env w c l store)) of
       (Inr _, d) \<Rightarrow> (Inr 0, RpcServer_delete (on_watchdog Watchdog_Stop d))
     | (Inl e, d) \<Rightarrow> if is_std_exception e then (Inr 1, RpcServer_delete d) else (Inl e, d))"
proof -
  obtain err usec errno where we: "me_watchdog env = (err, usec, errno)" by (cases "me_watchdog env") auto
  with assms obtain op l1 where
    *: "parse_options (me_opts env) options_init = Inr (Some op)" "op_confPath op \<noteq> ''''"
    "Watchdog_Init err usec errno watchdog_init = (Inr (), w)"
    "Config_Read (me_depth env) (me_cfg env) (op_confPath op) True config_init = (Inr (), c)"
    "me_open env (cfg_storagePath c) = Inr store"
    "initSocket (me_sock env) c listener_init = (Inr (), l1)"
    "initEventLoop (me_loop env) w l1 = (Inr (), l)"
    by (auto simp: starts_up_def)
  define d where "d = \<lparr>dm_log = main_log env, dm_event_log = None, dm_config = c, dm_watchdog = w, dm_listener = listener_init,
    dm_server = None :: 'a server option, dm_removed = []\<rparr>"
  have new: "RpcServer_new (me_sock env) (me_loop env) store (d\<lparr>dm_event_log := Some InitLibevent\<rparr>)
      = (Inr (), served env w c l store)"
    using *(6,7) by (simp add: RpcServer_new_def on_listener_def d_def served_def)
  have "confd_main env daemon_init =
      try_or is_std_exception 1 (bindE (set_event_log InitLibevent) (\<lambda>_.
        MainLoop (me_sock env) (me_loop env) (me_rounds env) store)) (\<lambda>_. ret 0) d"
    using *(1-5) by (simp add: confd_main_def main_log_def set_log_def we on_wd_def on_config_def try_or_def daemon_init_def d_def)
  also have "\<dots> = (case run_loop (me_rounds env) (on_watchdog Watchdog_Start (served env w c l store)) of
       (Inr _, d) \<Rightarrow> (Inr 0, RpcServer_delete (on_watchdog Watchdog_Stop d))
     | (Inl e, d) \<Rightarrow> if is_std_exception e then (Inr 1, RpcServer_delete d) else (Inl e, d))"
    by (simp add: try_or_def set_event_log_def MainLoop_def new split: prod.splits sum.splits)
  finally show ?thesis .
qed


text \<open>C29. A termination signal ends a daemon that has come up: whatever the clients did before it,
  \<open>main\<close> returns 0, the service manager saw the daemon become ready, then its kicks, then its stop;
  the store keeps its state, no client is left, neither the listening socket nor the socket of a
  client is open, and the socket's file is removed. The log is set up as the command line asks. Events behind the signal are not handled.\<close>

theorem signal_ends_daemon:
  assumes up: "starts_up env w c l store"
    and rounds: "me_rounds env = (pre @ (senv, EvSignal) # post) # rest"
    and run: "RpcServer_run pre (the (dm_server (served env w c l store))) = (Inr (), s1)"
    and live: "\<not> sv_loop_break s1"
  shows "\<exists>d s. confd_main env daemon_init = (Inr 0, d) \<and> dm_server d = Some s
    \<and> (\<exists>k. wd_notes (dm_watchdog d) = ''READY=1'' # replicate k ''WATCHDOG=1'' @ [''STOPPING=1''])
    \<and> sv_store s = sv_store s1 \<and> sv_sent s = sv_sent s1 \<and> sv_clients s = Map.empty
    \<and> ln_sock l \<notin> set (sv_fds s)
    \<and> (\<forall>ev cl. sv_clients s1 ev = Some cl \<longrightarrow> cl_socket cl \<notin> set (sv_fds s))
    \<and> dm_removed d = [c_str (cfg_socketPath c)] \<and> dm_log d = main_log env"
proof -
  let ?d0 = "on_watchdog Watchdog_Start (served env w c l store)"
  let ?s0 = "the (dm_server (served env w c l store))"
  let ?kick = "(Watchdog_Kick ^^ (sv_kicks (handleTermination s1) - sv_kicks ?s0)) (Watchdog_Start w)"
  let ?d1 = "?d0\<lparr>dm_server := Some (handleTermination s1), dm_watchdog := ?kick\<rparr>"
  have s0: "dm_server ?d0 = Some ?s0" "?s0\<lparr>sv_loop_break := False\<rparr> = ?s0" "sv_gRun ?s0"
    by (simp_all add: on_watchdog_def served_def)
  have w: "dm_watchdog ?d0 = Watchdog_Start w" by (simp add: on_watchdog_def served_def)
  have "server_run (pre @ (senv, EvSignal) # post) ?d0 = (Inr (), ?d1)"
    by (simp add: server_run_def s0 w signal_breaks_run [OF run live])
  moreover have "running ?d0" using s0 by (simp add: running_def)
  moreover have "run_loop rest ?d1 = (Inr (), ?d1)"
    by (cases rest) (simp_all add: running_def handleTermination_def)
  ultimately have "run_loop (me_rounds env) ?d0 = (Inr (), ?d1)" by (simp add: rounds)
  then have main: "confd_main env daemon_init
      = (Inr 0, RpcServer_delete (on_watchdog Watchdog_Stop ?d1))"
    using starts_up_run [OF up] by simp
  have n: "wd_notes w = []"
    using up Watchdog_Init_result [of _ _ _ watchdog_init "Inr ()" w]
    by (auto simp: starts_up_def watchdog_init_def split: prod.splits)
  have "\<exists>k. wd_notes (dm_watchdog (RpcServer_delete (on_watchdog Watchdog_Stop ?d1)))
      = ''READY=1'' # replicate k ''WATCHDOG=1'' @ [''STOPPING=1'']"
    by (auto simp: RpcServer_delete_def on_watchdog_def Watchdog_Stop_def Watchdog_Start_def
        sd_notify_def Kicks_notes n intro: exI [of _ 0])
  with main show ?thesis
    by (intro exI [of _ "RpcServer_delete (on_watchdog Watchdog_Stop ?d1)"]
        exI [of _ "shutdown (ln_sock l) (handleTermination s1)"])
      (auto simp: RpcServer_delete_def on_watchdog_def served_def shutdown_def handleTermination_def dom_def)
qed


definition demo_watchdog :: watchdog where
  "demo_watchdog = \<lparr>wd_active = True, wd_interval = 30000000, wd_notes = []\<rparr>"

definition demo_events :: listener where
  "demo_events = demo_listener\<lparr>ln_base := True,
     ln_events := [TimerEvent (15, 0), SignalEvent 2, SignalEvent 15, SignalEvent 1, ListenEvent 7]\<rparr>"

lemma demo_options: "parse_options [OptLogLevel (Some ''1''), OptConfig ''/c''] options_init
    = Inr (Some \<lparr>op_confPath = ''/c'', op_logLevel = SevDebug, op_logSimple = False\<rparr>)"
  by (simp add: c_strtol_def log_severity_def options_init_def c_str_def NUL_def is_space_def
      is_digit_def read_digits_def digit_val_def Let_def)

lemma demo_initEventLoop:
  "initEventLoop demo_loop demo_watchdog demo_listener = (Inr (), demo_events)"
  by (simp add: initEventLoop_def demo_loop_def demo_watchdog_def demo_listener_def demo_events_def
      initWatchdogEvent_def initSignalEvents_def initSocketEvent_def add_event_def kEvents_def
      watchdog_timeval_def signed_divide_int_def signed_modulo_int_def Let_def)

lemma demo_starts_up: "starts_up demo_main demo_watchdog demo_result demo_events demo_db"
  unfolding starts_up_def
  using demo_options demo_read demo_initSocket demo_initEventLoop
  by (simp add: demo_main_def Watchdog_Init_def watchdog_init_def demo_watchdog_def)

text \<open>A run in which the watchdog is kicked once and the signal arrives.\<close>

definition demo_run_main :: "db main_env" where
  "demo_run_main = demo_main\<lparr>me_rounds := [[(demo_env, EvWatchdog)] @ (demo_env, EvSignal) # []]\<rparr>"

lemma demo_run_starts_up: "starts_up demo_run_main demo_watchdog demo_result demo_events demo_db"
  using demo_starts_up by (simp add: starts_up_def demo_run_main_def)

lemma signal_ends_daemon_witness:
  "\<exists>d s. confd_main demo_run_main daemon_init = (Inr 0, d) \<and> dm_server d = Some s
    \<and> sv_store s = demo_db \<and> 7 \<notin> set (sv_fds s) \<and> dm_removed d = [''/s'']"
proof -
  let ?s0 = "the (dm_server (served demo_run_main demo_watchdog demo_result demo_events demo_db))"
  have "RpcServer_run [(demo_env, EvWatchdog)] ?s0 = (Inr (), ?s0\<lparr>sv_kicks := 1\<rparr>)"
    by (simp add: callback_def served_def)
  moreover have "\<not> sv_loop_break (?s0\<lparr>sv_kicks := 1\<rparr>)" by (simp add: served_def)
  moreover have "me_rounds demo_run_main = ([(demo_env, EvWatchdog)] @ (demo_env, EvSignal) # []) # []"
    by (simp add: demo_run_main_def)
  moreover have "c_str (cfg_socketPath demo_result) = ''/s''" "ln_sock demo_events = 7"
    by (simp_all add: demo_result_def demo_events_def demo_listener_def c_str_def NUL_def)
  ultimately show ?thesis
    using signal_ends_daemon [OF demo_run_starts_up] by (fastforce simp: served_def)
qed

text \<open>A daemon whose configuration file does not exist, and one whose data store cannot be opened.\<close>

definition demo_missing :: "db main_env" where
  "demo_missing = demo_main\<lparr>me_opts := [OptConfig ''/x'']\<rparr>"

definition demo_broken :: "db main_env" where
  "demo_broken = demo_main\<lparr>me_open := \<lambda>_. Inl (SqliteError ''unable to open database file'')\<rparr>"

lemma demo_missing_read: "\<exists>e c. Config_Read 3 demo_cfg ''/x'' True config_init = (Inl e, c)"
  by (simp add: numeral_3_eq_3 Config_Read_Suc demo_cfg_def config_init_def)

lemma main_status_witness:
  "\<exists>d w c. confd_main demo_missing daemon_init = (Inr 2, d)
    \<and> d = daemon_init\<lparr>dm_log := main_log demo_missing, dm_watchdog := w, dm_config := c\<rparr>
    \<and> confd_main demo_broken daemon_init = (Inr 1, daemon_init\<lparr>dm_log := main_log demo_broken,
        dm_watchdog := demo_watchdog, dm_config := demo_result\<rparr>)"
proof -
  have ok: "cfg_env_ok (me_cfg demo_missing)" "finite (parseable (me_cfg demo_missing))"
    "card (parseable (me_cfg demo_missing)) < me_depth demo_missing"
    "cfg_env_ok (me_cfg demo_broken)" "finite (parseable (me_cfg demo_broken))"
    "card (parseable (me_cfg demo_broken)) < me_depth demo_broken"
    by (simp_all add: demo_missing_def demo_broken_def demo_main_def demo_cfg_ok demo_parseable)
  have e: "me_cfg demo_missing = demo_cfg" "me_depth demo_missing = 3" "me_watchdog demo_missing = (1, 30000000, 0)"
    "parse_options (me_opts demo_missing) options_init = Inr (Some (options_init\<lparr>op_confPath := ''/x''\<rparr>))"
    "me_cfg demo_broken = demo_cfg" "me_depth demo_broken = 3" "me_watchdog demo_broken = (1, 30000000, 0)"
    "me_opts demo_broken = [OptLogLevel (Some ''1''), OptConfig ''/c'']"
    "me_open demo_broken p = Inl (SqliteError ''unable to open database file'')" for p
    by (simp_all add: demo_missing_def demo_broken_def demo_main_def)
  have wd: "Watchdog_Init 1 30000000 0 watchdog_init = (Inr (), demo_watchdog)"
    by (simp add: Watchdog_Init_def watchdog_init_def demo_watchdog_def)
  obtain r1 d1 where r1: "confd_main demo_missing daemon_init = (r1, d1)" by fastforce
  obtain r2 d2 where r2: "confd_main demo_broken daemon_init = (r2, d2)" by fastforce
  obtain x c where c: "Config_Read 3 demo_cfg ''/x'' True config_init = (Inl x, c)" using demo_missing_read by blast
  have "r1 = Inr 2 \<and> d1 = daemon_init\<lparr>dm_log := main_log demo_missing, dm_watchdog := demo_watchdog, dm_config := c\<rparr>"
    using main_status [OF ok(1-3) r1] by (simp add: e wd c main_log_def Let_def)
  moreover have "r2 = Inr 1 \<and> d2 = daemon_init\<lparr>dm_log := main_log demo_broken, dm_watchdog := demo_watchdog, dm_config := demo_result\<rparr>"
    using main_status [OF ok(4-6) r2] unfolding e demo_options main_log_def by (simp add: wd demo_read Let_def)
  ultimately show ?thesis using r1 r2 by blast
qed

end
