(* ===== verification/HexDump.thy ===== *)
theory HexDump
  imports Confd_Prelude
begin

text \<open>
  The hex dump with which the utility prints blobs (\<open>src/util/HexDump.h\<close>), written on an output
  stream with the formatting state the header saves, sets and restores.

  Of the state of a \<open>std::ostream\<close> the model has what the header touches: the base and the
  adjustment among the flags, the fill character, the width, and the text written so far. A stream
  that fails is left out: the header does not look at the stream's errors.
\<close>

section \<open>Output streams\<close>

record ostream =
  os_hex :: bool
  os_left :: bool
  os_fill :: char
  os_width :: nat
  os_text :: string

text \<open>A stream in its initial formatting state that has printed \<open>s\<close>.\<close>

definition plain :: "string \<Rightarrow> ostream" where
  "plain s = \<lparr>os_hex = False, os_left = False, os_fill = CHR '' '', os_width = 0, os_text = s\<rparr>"

text \<open>The manipulators \<open>hex\<close>, \<open>left\<close>, \<open>setfill\<close> and \<open>setw\<close>.\<close>

definition os_set_hex :: "ostream \<Rightarrow> ostream" where
  "os_set_hex s = s\<lparr>os_hex := True\<rparr>"

definition os_set_left :: "ostream \<Rightarrow> ostream" where
  "os_set_left s = s\<lparr>os_left := True\<rparr>"

definition setfill :: "char \<Rightarrow> ostream \<Rightarrow> ostream" where
  "setfill c s = s\<lparr>os_fill := c\<rparr>"

definition setw :: "nat \<Rightarrow> ostream \<Rightarrow> ostream" where
  "setw n s = s\<lparr>os_width := n\<rparr>"

text \<open>Unformatted output (\<open>put\<close>, \<open>endl\<close>) ignores the width. Formatted output pads to the width, which
  is then zero again.\<close>

definition put_char :: "char \<Rightarrow> ostream \<Rightarrow> ostream" where
  "put_char c s = s\<lparr>os_text := os_text s @ [c]\<rparr>"

definition put_endl :: "ostream \<Rightarrow> ostream" where
  "put_endl s = put_char (CHR 0x0A) s"

definition pad_left :: "nat \<Rightarrow> char \<Rightarrow> string \<Rightarrow> string" where
  "pad_left w c s = replicate (w - length s) c @ s"

definition pad_right :: "nat \<Rightarrow> char \<Rightarrow> string \<Rightarrow> string" where
  "pad_right w c s = s @ replicate (w - length s) c"

definition put_string :: "string \<Rightarrow> ostream \<Rightarrow> ostream" where
  "put_string x s =
     s\<lparr>os_text := os_text s @ (if os_left s then pad_right else pad_left) (os_width s) (os_fill s) x,
       os_width := 0\<rparr>"

definition hex_digit :: "nat \<Rightarrow> char" where
  "hex_digit d = (if d < 10 then char_of (48 + d) else char_of (87 + d))"

fun show_hex :: "nat \<Rightarrow> string" where
  "show_hex n = (if n < 16 then [hex_digit n] else show_hex (n div 16) @ [hex_digit (n mod 16)])"

declare show_hex.simps [simp del]

definition put_unsigned :: "nat \<Rightarrow> ostream \<Rightarrow> ostream" where
  "put_unsigned n s = put_string (if os_hex s then show_hex n else show_nat n) s"

text \<open>\<open>SavedState\<close>: the flags and the fill of the stream are as before when the scope is left. The
  width and the text are not restored.\<close>

definition SavedState :: "(ostream \<Rightarrow> ostream) \<Rightarrow> ostream \<Rightarrow> ostream" where
  "SavedState body s = (body s)\<lparr>os_hex := os_hex s, os_left := os_left s, os_fill := os_fill s\<rparr>"

section \<open>The header\<close>

definition BytesPerLine :: nat where "BytesPerLine = 16"

definition dumpBytesAsHex :: "byte list \<Rightarrow> ostream \<Rightarrow> ostream" where
  "dumpBytesAsHex bytes =
     SavedState (\<lambda>s.
       fold (\<lambda>b s. put_string '' '' (put_unsigned (unat b) (setw 2 s))) bytes
         (setfill (CHR ''0'') (os_set_hex s)))"

definition is_print :: "byte \<Rightarrow> bool" where
  "is_print b \<longleftrightarrow> 0x20 \<le> b \<and> b \<le> 0x7E"

definition dumpBytesAsText :: "byte list \<Rightarrow> ostream \<Rightarrow> ostream" where
  "dumpBytesAsText bytes =
     fold (\<lambda>b. put_char (if is_print b then char_of (unat b) else CHR ''.'')) bytes"

definition dumpHexLine :: "byte list \<Rightarrow> ostream \<Rightarrow> ostream" where
  "dumpHexLine bytes =
     SavedState (\<lambda>s.
       let hexStream = dumpBytesAsHex bytes (plain '''');
           s1 = put_string (os_text hexStream) (os_set_left (setw (BytesPerLine * 3 + 1) s))
       in put_endl (dumpBytesAsText bytes s1))"

definition dumpHexLine_at :: "nat \<Rightarrow> byte list \<Rightarrow> ostream \<Rightarrow> ostream" where
  "dumpHexLine_at offset bytes s =
     (let s1 = SavedState (\<lambda>s. put_string ''  '' (put_unsigned offset (os_set_hex (setfill (CHR ''0'') (setw 8 s))))) s
      in dumpHexLine bytes s1)"

text \<open>The loop of \<open>dumpStream\<close> over the characters the input delivers before it fails: those collected
  for the line, its offset, which is a \<open>size_t\<close> of 32 bits and wraps around, and the output.\<close>

fun stream_loop :: "byte list \<Rightarrow> byte list \<Rightarrow> nat \<Rightarrow> ostream \<Rightarrow> byte list \<times> nat \<times> ostream" where
  "stream_loop [] bytesToDump offset output = (bytesToDump, offset, output)"
| "stream_loop (b # input) bytesToDump offset output =
     (let line = bytesToDump @ [b] in
      if length line = BytesPerLine
      then stream_loop input [] ((offset + BytesPerLine) mod 2 ^ 32) (dumpHexLine_at offset line output)
      else stream_loop input line offset output)"

definition dumpStream :: "byte list \<Rightarrow> ostream \<Rightarrow> ostream" where
  "dumpStream input output =
     (case stream_loop input [] 0 output of
        (line, offset, output') \<Rightarrow> if line \<noteq> [] then dumpHexLine_at offset line output' else output')"

text \<open>The loop of \<open>dumpBuffer\<close> reads the buffer by its index.\<close>

function dump_loop :: "byte list \<Rightarrow> nat \<Rightarrow> byte list \<Rightarrow> nat \<Rightarrow> ostream \<Rightarrow> ostream" where
  "dump_loop input bytesRead bytesToDump offset output =
     (if bytesRead < length input then
        let line = bytesToDump @ [input ! bytesRead] in
        if length line = BytesPerLine
        then dump_loop input (bytesRead + 1) [] ((offset + BytesPerLine) mod 2 ^ 32) (dumpHexLine_at offset line output)
        else dump_loop input (bytesRead + 1) line offset output
      else if bytesToDump \<noteq> [] then dumpHexLine_at offset bytesToDump output
      else output)"
  by pat_completeness auto
termination
  by (relation "measure (\<lambda>(input, bytesRead, _). length input - bytesRead)") auto

declare dump_loop.simps [simp del]

definition dumpBuffer :: "byte list \<Rightarrow> ostream \<Rightarrow> ostream" where
  "dumpBuffer input output = dump_loop input 0 [] 0 output"

end
