(* ===== verification/Util.thy ===== *)
theory Util
  imports Libconfd HexDump
begin

text \<open>
  The command line utility of confd (\<open>src/util/main.cpp\<close>). It is a client of the library: the calls
  are those of \<open>Libconfd\<close>; blobs are printed by \<open>HexDump\<close>.

  The state is the library's globals and the standard output, a stream of \<open>HexDump\<close>. Files and
  the conversions between numbers in floating point and text are parameters; what goes to the
  standard error is left out, but for the status.
\<close>

section \<open>Values\<close>

datatype operation = OpNone | OpRead | OpWrite | OpDelete

datatype value_type = TyNull | TyString | TyBlob | TyInteger | TyReal | TyBool

definition show_int64 :: "u64 \<Rightarrow> string" where
  "show_int64 v =
     (if sint v < 0 then CHR ''-'' # show_nat (nat (- sint v)) else show_nat (nat (sint v)))"

text \<open>\<open>std::stoll\<close> in base 10.\<close>

definition c_stoll :: "string \<Rightarrow> exn + u64" where
  "c_stoll s =
     (let s1 = dropWhile is_space s;
          neg = (s1 \<noteq> [] \<and> hd s1 = CHR ''-'');
          s2 = (if s1 \<noteq> [] \<and> hd s1 \<in> {CHR ''-'', CHR ''+''} then tl s1 else s1);
          ds = takeWhile is_digit s2;
          n = int (read_digits ds);
          v = (if neg then - n else n)
      in if ds = [] then Inl (InvalidArgument ''stoll'')
         else if v < - (2 ^ 63) \<or> 2 ^ 63 \<le> v then Inl (OutOfRange ''stoll'')
         else Inr (word_of_int v))"

definition parse_bool :: "string \<Rightarrow> bool option" where
  "parse_bool s =
     (if s = ''false'' \<or> s = ''n'' \<or> s = ''f'' then Some False
      else if s = ''true'' \<or> s = ''y'' \<or> s = ''t'' then Some True
      else (case c_stoul s of Inl _ \<Rightarrow> None | Inr n \<Rightarrow> Some (n \<noteq> 0)))"

definition parse_type :: "string \<Rightarrow> value_type option" where
  "parse_type s =
     (if s = ''string'' then Some TyString
      else if s = ''int'' \<or> s = ''integer'' then Some TyInteger
      else if s = ''real'' \<or> s = ''float'' \<or> s = ''double'' \<or> s = ''decimal'' then Some TyReal
      else if s = ''blob'' \<or> s = ''binary'' \<or> s = ''data'' then Some TyBlob
      else if s = ''bool'' \<or> s = ''boolean'' then Some TyBool
      else if s = ''null'' then Some TyNull
      else None)"

section \<open>State and environment\<close>

text \<open>\<open>ut_closed\<close> is the connection \<open>confd_close\<close> has dropped: what became of its other end.\<close>

record 'w util =
  ut_lib :: "'w lib_globals"
  ut_closed :: "'w shared"
  ut_out :: ostream

text \<open>\<open>ue_read_file\<close> is the read of a number of bytes, which throws when the file is shorter.\<close>

record 'w util_env =
  ue_confd :: "'w confd_env"
  ue_dial :: "'w dial_env"
  ue_stod :: "string \<Rightarrow> exn + f64"
  ue_show_real :: "f64 \<Rightarrow> string"
  ue_file_size :: "string \<Rightarrow> exn + nat"
  ue_read_file :: "string \<Rightarrow> nat \<Rightarrow> exn + byte list"

definition on_confd :: "('w shared, 'a) op \<Rightarrow> ('w util, 'a) op" where
  "on_confd m = (\<lambda>u. case m (lg_gShared (ut_lib u)) of (r, g) \<Rightarrow> (r, u\<lparr>ut_lib := (ut_lib u)\<lparr>lg_gShared := g\<rparr>\<rparr>))"

definition on_out :: "(ostream \<Rightarrow> ostream) \<Rightarrow> ('w util, unit) op" where
  "on_out f = (\<lambda>u. (Inr (), u\<lparr>ut_out := f (ut_out u)\<rparr>))"

definition print_line :: "string \<Rightarrow> ('w util, unit) op" where
  "print_line s = on_out (\<lambda>out. put_endl (put_string s out))"

definition EnsureSuccess :: "int \<Rightarrow> bool \<Rightarrow> exn + unit" where
  "EnsureSuccess err ignoreNull =
     (if ignoreNull \<and> err = kConfdNullValue then Inr ()
      else if err \<noteq> kConfdStatusSuccess then Inl (RuntimeError ''confd error'')
      else Inr ())"

text \<open>The line that shows a value: the key, its type, and the text of the value.\<close>

definition value_line :: "string \<Rightarrow> string \<Rightarrow> string \<Rightarrow> string" where
  "value_line key type text = key @ '':'' @ type @ ''='' @ text"

definition size_text :: "nat \<Rightarrow> string" where
  "size_text n = ''('' @ show_nat n @ '' bytes)''"

section \<open>Reading\<close>

text \<open>A call that may report a null value; the value it wrote is printed with \<open>show_value\<close>.\<close>

definition read_typed :: "('w shared, int \<times> 'o option) op \<Rightarrow> string \<Rightarrow> string
    \<Rightarrow> ('o option \<Rightarrow> ('w util, unit) op) \<Rightarrow> ('w util, unit) op" where
  "read_typed call key type show_value =
     bindE (on_confd call) (\<lambda>(err, out).
       bindE (lift (EnsureSuccess err True)) (\<lambda>_.
         if err = kConfdNullValue then print_line (value_line key type ''(null)'')
         else show_value out))"

definition string_buffer :: nat where "string_buffer = 1024 * 64"

definition blob_buffer :: nat where "blob_buffer = 128 * 1024"

text \<open>The buffers of \<open>ReadKey\<close> begin as zeroes; the part the call wrote is overlaid. The blob's buffer
  is then resized to the length the call reported.\<close>

definition shown_string :: "(string \<times> nat option) option \<Rightarrow> string" where
  "shown_string out = (case out of None \<Rightarrow> '''' | Some (s, _) \<Rightarrow> c_str (s @ replicate (string_buffer - length s) NUL))"

definition shown_blob :: "(byte list \<times> nat option) option \<Rightarrow> byte list" where
  "shown_blob out =
     (case out of
        Some (bs, Some actual) \<Rightarrow> resize_buf actual (bs @ replicate (blob_buffer - length bs) 0)
      | _ \<Rightarrow> [])"

definition ReadKey :: "'w util_env \<Rightarrow> string \<Rightarrow> value_type \<Rightarrow> ('w util, unit) op" where
  "ReadKey env key type =
     (let cenv = ue_confd env; k = Some (c_str key) in
      if key = '''' then raise (InvalidArgument ''key name cannot be empty'')
      else (case type of
        TyNull \<Rightarrow> raise (InvalidArgument ''cannot read NULL type keys'')
      | TyString \<Rightarrow>
          read_typed (confd_get_string cenv k True string_buffer True) key ''string''
            (\<lambda>out. print_line (value_line key ''string'' (''`'' @ shown_string out @ ''`'')))
      | TyInteger \<Rightarrow>
          read_typed (confd_get_int cenv k True) key ''integer''
            (\<lambda>out. print_line (value_line key ''integer'' (show_int64 (the out))))
      | TyReal \<Rightarrow>
          read_typed (confd_get_real cenv k True) key ''real''
            (\<lambda>out. print_line (value_line key ''real'' (ue_show_real env (the out))))
      | TyBool \<Rightarrow>
          read_typed (confd_get_bool cenv k True) key ''bool''
            (\<lambda>out. print_line (value_line key ''bool'' (if the out then ''true'' else ''false'')))
      | TyBlob \<Rightarrow>
          read_typed (confd_get_blob cenv k True blob_buffer True) key ''blob''
            (\<lambda>out. bindE (print_line (value_line key ''blob'' (size_text (length (shown_blob out))))) (\<lambda>_.
               on_out (dumpBuffer (shown_blob out))))))"

section \<open>Writing\<close>

text \<open>A write that must succeed, and what is printed behind it.\<close>

definition write_typed :: "('w shared, int \<times> unit option) op \<Rightarrow> ('w util, unit) op
    \<Rightarrow> ('w util, unit) op" where
  "write_typed call shown =
     bindE (on_confd call) (\<lambda>(err, _).
       bindE (lift (EnsureSuccess err False)) (\<lambda>_. shown))"

text \<open>A path is printed in quotes, with quotes and backslashes in it escaped. The line ends in the
  UTF-8 encoding of an ellipsis.\<close>

definition quoted :: "string \<Rightarrow> string" where
  "quoted s = CHR 0x22 # concat (map (\<lambda>c. if c \<in> {CHR 0x22, CHR 0x5C} then [CHR 0x5C, c] else [c]) s)
     @ [CHR 0x22]"

definition print_reading :: "nat \<Rightarrow> string \<Rightarrow> ('w util, unit) op" where
  "print_reading n path =
     on_out (\<lambda>out. put_endl (put_string [CHR 0xE2, CHR 0x80, CHR 0xA6] (put_string (quoted path)
       (put_string '' bytes from '' (put_unsigned n (put_string ''Reading '' out))))))"

text \<open>\<open>data()\<close> of a vector that never held an element is a null pointer.\<close>

definition vector_data :: "byte list \<Rightarrow> byte list option" where
  "vector_data buf = (if buf = [] then None else Some buf)"

definition WriteKey :: "'w util_env \<Rightarrow> string \<Rightarrow> string \<Rightarrow> value_type \<Rightarrow> ('w util, unit) op" where
  "WriteKey env key valueStr type =
     (let cenv = ue_confd env; k = Some (c_str key) in
      if key = '''' then raise (InvalidArgument ''key name cannot be empty'')
      else (case type of
        TyString \<Rightarrow>
          write_typed (confd_set_string cenv k (Some valueStr)) (print_line (value_line key ''string'' (''`'' @ valueStr @ ''`'')))
      | TyInteger \<Rightarrow>
          bindE (lift (c_stoll valueStr)) (\<lambda>v.
            write_typed (confd_set_int cenv k v) (print_line (value_line key ''integer'' (show_int64 v))))
      | TyReal \<Rightarrow>
          bindE (lift (ue_stod env valueStr)) (\<lambda>v.
            write_typed (confd_set_real cenv k v) (print_line (value_line key ''real'' (ue_show_real env v))))
      | TyBool \<Rightarrow>
          (case parse_bool valueStr of
             None \<Rightarrow> raise (InvalidArgument ''failed to parse bool'')
           | Some b \<Rightarrow>
               write_typed (confd_set_bool cenv k b) (print_line (value_line key ''bool'' (if b then ''true'' else ''false''))))
      | TyBlob \<Rightarrow>
          bindE (lift (ue_file_size env valueStr)) (\<lambda>n.
            bindE (print_reading n valueStr) (\<lambda>_.
              bindE (lift (ue_read_file env valueStr n)) (\<lambda>bytes.
                let buf = take n (bytes @ replicate n 0) in
                write_typed (confd_set_blob cenv k (vector_data buf))
                  (bindE (print_line (value_line key ''blob'' (size_text (length buf)))) (\<lambda>_.
                     on_out (dumpBuffer buf))))))
      | TyNull \<Rightarrow> raise (LogicError ''unsupported write type (wtf)'')))"

section \<open>\<open>main\<close>\<close>

datatype util_opt =
    UoSocket string
  | UoKey string
  | UoRead
  | UoWrite string
  | UoDelete
  | UoType string
  | UoError

record util_args =
  ua_socketPath :: string
  ua_what :: operation
  ua_keyName :: string
  ua_valueType :: "value_type option"
  ua_writeValue :: string

definition util_args_init :: util_args where
  "util_args_init = \<lparr>ua_socketPath = ''/var/run/confd/rpc.sock'', ua_what = OpNone, ua_keyName = '''',
     ua_valueType = None, ua_writeValue = ''''\<rparr>"

text \<open>The loop over the options; \<open>None\<close> is the early return with status 1.\<close>

fun util_options :: "util_opt list \<Rightarrow> util_args \<Rightarrow> util_args option" where
  "util_options [] a = Some a"
| "util_options (UoSocket p # rest) a = util_options rest (a\<lparr>ua_socketPath := p\<rparr>)"
| "util_options (UoKey k # rest) a = util_options rest (a\<lparr>ua_keyName := k\<rparr>)"
| "util_options (UoRead # rest) a =
     (if ua_what a \<noteq> OpNone then None else util_options rest (a\<lparr>ua_what := OpRead\<rparr>))"
| "util_options (UoWrite v # rest) a =
     (if ua_what a \<noteq> OpNone then None
      else util_options rest (a\<lparr>ua_what := OpWrite, ua_writeValue := v\<rparr>))"
| "util_options (UoDelete # rest) a =
     (if ua_what a \<noteq> OpNone then None else util_options rest (a\<lparr>ua_what := OpDelete\<rparr>))"
| "util_options (UoType t # rest) a =
     (case parse_type t of None \<Rightarrow> None
      | Some ty \<Rightarrow> util_options rest (a\<lparr>ua_valueType := Some ty\<rparr>))"
| "util_options (UoError # rest) a = util_options rest a"

definition util_request :: "'w util_env \<Rightarrow> util_args \<Rightarrow> ('w util, unit) op" where
  "util_request env a =
     (case ua_what a of
        OpRead \<Rightarrow> ReadKey env (ua_keyName a) (the (ua_valueType a))
      | OpWrite \<Rightarrow> WriteKey env (ua_keyName a) (ua_writeValue a) (the (ua_valueType a))
      | OpDelete \<Rightarrow> raise (RuntimeError ''not yet implemented'')
      | OpNone \<Rightarrow> raise (LogicError ''unknown operation''))"

definition util_close :: "'w util \<Rightarrow> 'w util" where
  "util_close u = (case confd_close (ut_lib u) of (_, g) \<Rightarrow> u\<lparr>ut_lib := g, ut_closed := lg_gShared (ut_lib u)\<rparr>)"

text \<open>The result is the status; an exception that is not one of the standard library passes on.\<close>

definition util_main :: "'w util_env \<Rightarrow> util_opt list \<Rightarrow> ('w util, int) op" where
  "util_main env opts =
     (case util_options opts util_args_init of
        None \<Rightarrow> ret 1
      | Some a \<Rightarrow>
          if ua_keyName a = '''' then ret 1
          else if (ua_what a = OpRead \<or> ua_what a = OpWrite) \<and> ua_valueType a = None then ret 1
          else (\<lambda>u. case confd_open (ue_dial env) (Some (ua_socketPath a)) (ut_lib u) of
                  (err, g) \<Rightarrow>
                    if err \<noteq> 0 then (Inr 1, u\<lparr>ut_lib := g\<rparr>)
                    else (case util_request env a (u\<lparr>ut_lib := g\<rparr>) of
                            (Inr _, u') \<Rightarrow> (Inr 0, util_close u')
                          | (Inl e, u') \<Rightarrow> if is_std_exception e then (Inr 1, util_close u') else (Inl e, u'))))"

end
