(* ===== verification/HexDump_Correct.thy ===== *)
theory HexDump_Correct
  imports HexDump
begin

text \<open>
  What holds of the hex dump: every operation leaves the formatting state of the stream as it was,
  and on a stream in its initial state the dump shows every byte once and in order, in aligned
  columns.
\<close>

section \<open>Formatting\<close>

lemma plain_simps [simp]:
  "os_hex (plain s) = False" "os_left (plain s) = False" "os_fill (plain s) = CHR '' ''"
  "os_width (plain s) = 0" "os_text (plain s) = s"
  by (simp_all add: plain_def)

lemma put_string_plain [simp]: "put_string x (plain s) = plain (s @ x)"
  by (simp add: put_string_def plain_def pad_left_def)

lemma put_endl_plain [simp]: "put_endl (plain s) = plain (s @ [CHR 0x0A])"
  by (simp add: put_endl_def put_char_def plain_def)

lemma put_char_plain [simp]: "put_char c (plain s) = plain (s @ [c])"
  by (simp add: put_char_def plain_def)

lemma put_unsigned_plain [simp]: "put_unsigned n (plain s) = plain (s @ show_nat n)"
  by (simp add: put_unsigned_def)

text \<open>What each operation prints on a stream in its initial state, as a string.\<close>

definition hex_text :: "byte list \<Rightarrow> string" where
  "hex_text bs = concat (map (\<lambda>b. pad_left 2 (CHR ''0'') (show_hex (unat b)) @ '' '') bs)"

definition char_text :: "byte list \<Rightarrow> string" where
  "char_text bs = map (\<lambda>b. if is_print b then char_of (unat b) else CHR ''.'') bs"

definition line_text :: "nat \<Rightarrow> byte list \<Rightarrow> string" where
  "line_text offset bs = pad_left 8 (CHR ''0'') (show_hex offset) @ ''  ''
     @ pad_right 49 (CHR '' '') (hex_text bs) @ char_text bs @ [CHR 0x0A]"

lemma hex_fold:
  "os_hex s \<Longrightarrow> \<not> os_left s \<Longrightarrow> os_fill s = CHR ''0'' \<Longrightarrow> os_width s = 0 \<Longrightarrow>
   fold (\<lambda>b s. put_string '' '' (put_unsigned (unat b) (setw 2 s))) bs s
   = s\<lparr>os_text := os_text s @ hex_text bs\<rparr>"
proof (induction bs arbitrary: s)
  case (Cons b bs)
  have "put_string '' '' (put_unsigned (unat b) (setw 2 s))
      = s\<lparr>os_text := os_text s @ pad_left 2 (CHR ''0'') (show_hex (unat b)) @ '' ''\<rparr>"
    using Cons.prems by (cases s) (simp add: put_string_def put_unsigned_def setw_def pad_left_def)
  then show ?case using Cons by (simp add: hex_text_def)
qed (simp add: hex_text_def)

lemma dumpBytesAsHex_plain: "dumpBytesAsHex bs (plain s) = plain (s @ hex_text bs)"
proof -
  have "fold (\<lambda>b s. put_string '' '' (put_unsigned (unat b) (setw 2 s))) bs
      (setfill (CHR ''0'') (os_set_hex (plain s)))
    = (setfill (CHR ''0'') (os_set_hex (plain s)))\<lparr>os_text := s @ hex_text bs\<rparr>"
    by (subst hex_fold) (simp_all add: setfill_def os_set_hex_def plain_def)
  then show ?thesis
    by (simp add: dumpBytesAsHex_def SavedState_def setfill_def os_set_hex_def plain_def)
qed

lemma dumpBytesAsText_text: "dumpBytesAsText bs s = s\<lparr>os_text := os_text s @ char_text bs\<rparr>"
  unfolding dumpBytesAsText_def
  by (induction bs arbitrary: s) (simp_all add: put_char_def char_text_def)

lemma dumpHexLine_plain:
  "dumpHexLine bs (plain s)
   = plain (s @ pad_right 49 (CHR '' '') (hex_text bs) @ char_text bs @ [CHR 0x0A])"
  by (simp only: dumpHexLine_def Let_def dumpBytesAsHex_plain append_Nil plain_simps)
    (simp add: SavedState_def dumpBytesAsText_text BytesPerLine_def put_endl_def put_char_def put_string_def
      os_set_left_def setw_def plain_def)

lemma dumpHexLine_at_plain: "dumpHexLine_at offset bs (plain s) = plain (s @ line_text offset bs)"
proof -
  have "SavedState (\<lambda>s. put_string ''  '' (put_unsigned offset (os_set_hex (setfill (CHR ''0'') (setw 8 s))))) (plain s)
      = plain (s @ pad_left 8 (CHR ''0'') (show_hex offset) @ ''  '')"
    by (simp add: SavedState_def put_string_def put_unsigned_def os_set_hex_def setfill_def setw_def plain_def)
      (simp add: pad_left_def)
  then show ?thesis by (simp add: dumpHexLine_at_def dumpHexLine_plain line_text_def)
qed

text \<open>On any stream, the flags and the fill are afterwards what they were, and the text grows.\<close>

definition restores :: "(ostream \<Rightarrow> ostream) \<Rightarrow> bool" where
  "restores f \<longleftrightarrow> (\<forall>s. os_hex (f s) = os_hex s \<and> os_left (f s) = os_left s \<and> os_fill (f s) = os_fill s)"

lemma restores_SavedState: "restores (SavedState body)"
  by (simp add: restores_def SavedState_def)

lemma restores_dumpHexLine_at: "restores (dumpHexLine_at offset bs)"
  using restores_SavedState unfolding restores_def dumpHexLine_at_def Let_def dumpHexLine_def by metis

section \<open>Chunks\<close>

text \<open>Both loops print a line for every sixteen bytes: the loop over the index is the loop over the
  bytes that are left.\<close>

fun hex_lines :: "nat \<Rightarrow> byte list \<Rightarrow> ostream \<Rightarrow> ostream" where
  "hex_lines offset bs s =
     (if bs = [] then s else hex_lines ((offset + 16) mod 2 ^ 32) (drop 16 bs) (dumpHexLine_at offset (take 16 bs) s))"

declare hex_lines.simps [simp del]

lemma stream_loop_lines:
  "length acc < 16 \<Longrightarrow>
   (case stream_loop bs acc offset s of
      (line, offset', s') \<Rightarrow> if line \<noteq> [] then dumpHexLine_at offset' line s' else s')
   = hex_lines offset (acc @ bs) s"
proof (induction bs arbitrary: acc offset s)
  case Nil
  then show ?case by (simp add: hex_lines.simps [of offset acc] hex_lines.simps [of _ "[]"])
next
  case (Cons b bs)
  show ?case
  proof (cases "length (acc @ [b]) = 16")
    case True
    then have "take 16 (acc @ b # bs) = acc @ [b]" "drop 16 (acc @ b # bs) = bs" by auto
    then show ?thesis
      using True Cons.IH [of "[]"] by (simp add: hex_lines.simps [of offset "acc @ b # bs"] BytesPerLine_def)
  next
    case False
    with Cons.prems have "length (acc @ [b]) < 16" by simp
    then show ?thesis using Cons.IH [of "acc @ [b]"] False by (simp add: BytesPerLine_def)
  qed
qed

lemma dump_loop_stream:
  "dump_loop bs k acc offset s
   = (case stream_loop (drop k bs) acc offset s of
        (line, offset', s') \<Rightarrow> if line \<noteq> [] then dumpHexLine_at offset' line s' else s')"
proof (induction bs k acc offset s rule: dump_loop.induct)
  case (1 bs k acc offset s)
  show ?case
  proof (cases "k < length bs")
    case True
    then have "drop k bs = bs ! k # drop (k + 1) bs" by (simp add: Cons_nth_drop_Suc)
    then show ?thesis using 1 True by (subst dump_loop.simps) (simp add: Let_def)
  qed (subst dump_loop.simps, simp)
qed

lemma dumpBuffer_lines: "dumpBuffer bs s = hex_lines 0 bs s"
  using stream_loop_lines [of "[]" bs 0 s] by (simp add: dumpBuffer_def dump_loop_stream)

lemma dumpStream_lines: "dumpStream bs s = hex_lines 0 bs s"
  using stream_loop_lines [of "[]" bs 0 s] by (simp add: dumpStream_def)

lemma restores_hex_lines: "restores (hex_lines offset bs)"
proof -
  have "os_hex (hex_lines offset bs s) = os_hex s \<and> os_left (hex_lines offset bs s) = os_left s
      \<and> os_fill (hex_lines offset bs s) = os_fill s" for s
    by (induction offset bs s rule: hex_lines.induct)
      (use restores_dumpHexLine_at in \<open>subst (1 2 3) hex_lines.simps, simp add: restores_def\<close>)
  then show ?thesis by (simp add: restores_def)
qed

lemma chunks_Suc:
  assumes "bs \<noteq> []"
  shows "(length bs + 15) div 16 = Suc ((length (drop 16 bs) + 15) div (16 :: nat))"
proof (cases "16 \<le> length bs")
  case True
  then have "length bs + 15 = (length (drop 16 bs) + 15) + 16" by simp
  then show ?thesis by (simp only: div_add_self2)
next
  case False
  then obtain r where r: "length bs = Suc r" "r < 15" using assms by (cases "length bs") auto
  then have "(length bs + 15) div 16 = 1" by simp
  with False show ?thesis by simp
qed

lemma map_chunks:
  "bs \<noteq> [] \<Longrightarrow> map (\<lambda>i. f (k + 16 * i) (take 16 (drop (16 * i) bs))) [0..<(length bs + 15) div 16]
   = f k (take 16 bs)
     # map (\<lambda>i. f (k + 16 + 16 * i) (take 16 (drop (16 * i) (drop 16 bs)))) [0..<(length (drop 16 bs) + 15) div 16]"
  by (subst chunks_Suc) (simp_all add: upt_conv_Cons map_Suc_upt [symmetric] comp_def ac_simps
      del: upt_Suc map_Suc_upt)

lemma hex_lines_plain:
  "k < 2 ^ 32 \<Longrightarrow> hex_lines k bs (plain s) = plain (s @
     concat (map (\<lambda>i. line_text ((k + 16 * i) mod 2 ^ 32) (take 16 (drop (16 * i) bs))) [0..<(length bs + 15) div 16]))"
proof (induction "length bs" arbitrary: bs k s rule: less_induct)
  case less
  show ?case
  proof (cases "bs = []")
    case False
    let ?k = "(k + 16) mod 2 ^ 32"
    have "length (drop 16 bs) < length bs" "?k < 2 ^ 32" using False by simp_all
    from less.hyps [OF this] less.prems show ?thesis
      using map_chunks [OF False, of "\<lambda>n. line_text (n mod 2 ^ 32)" k] False
      by (subst hex_lines.simps) (simp add: dumpHexLine_at_plain mod_add_left_eq)
  qed (simp add: hex_lines.simps)
qed

lemma concat_chunks:
  "concat (map (\<lambda>i. take 16 (drop (16 * i) bs)) [0..<(length bs + 15) div 16]) = bs"
proof (induction "length bs" arbitrary: bs rule: less_induct)
  case less
  show ?case
  proof (cases "bs = []")
    case False
    then have "length (drop 16 bs) < length bs" by simp
    from less [OF this] show ?thesis
      using map_chunks [OF False, of "\<lambda>_ x. x" 0] by simp
  qed simp
qed

lemma show_hex_byte: "pad_left 2 (CHR ''0'') (show_hex (unat (b :: byte)))
    = [hex_digit (unat b div 16), hex_digit (unat b mod 16)]"
proof -
  have "unat b div 16 < 16" using unat_byte_less [of b] by linarith
  moreover have "CHR ''0'' = hex_digit 0" by (simp add: hex_digit_def char_of_def bit_0)
  ultimately show ?thesis
    by (cases "unat b < 16") (simp_all add: show_hex.simps [of "unat b"] show_hex.simps [of "unat b div 16"]
        pad_left_def numeral_2_eq_2)
qed

text \<open>C37. The hex dump. On a stream in its initial formatting state the loop that collects sixteen bytes
  at a time prints one line for each chunk of sixteen bytes at its offset, taken modulo \<open>2 ^ 32\<close> (the
  \<open>size_t\<close> of the target), and leaves the
  formatting state as it was; the chunks together are the buffer, so that every byte is shown once
  and in order, as two hexadecimal digits and as a character, and the columns of every line are
  aligned. On any stream the flags and the fill are restored, and the loop over an input stream
  does the same as the loop over a buffer.\<close>

theorem dump_is_complete:
  "dumpBuffer bs (plain printed) = plain (printed @
       concat (map (\<lambda>i. line_text (16 * i mod 2 ^ 32) (take 16 (drop (16 * i) bs))) [0..<(length bs + 15) div 16]))
   \<and> concat (map (\<lambda>i. take 16 (drop (16 * i) bs)) [0..<(length bs + 15) div 16]) = bs
   \<and> line_text offset line = pad_left 8 (CHR ''0'') (show_hex offset) @ ''  ''
       @ pad_right 49 (CHR '' '')
           (concat (map (\<lambda>b. [hex_digit (unat b div 16), hex_digit (unat b mod 16), CHR '' '']) line))
       @ map (\<lambda>b. if is_print b then char_of (unat b) else CHR ''.'') line @ [CHR 0x0A]
   \<and> os_hex (dumpBuffer bs s) = os_hex s \<and> os_left (dumpBuffer bs s) = os_left s
   \<and> os_fill (dumpBuffer bs s) = os_fill s
   \<and> dumpStream bs s = dumpBuffer bs s"
proof -
  have "hex_text line
      = concat (map (\<lambda>b. [hex_digit (unat b div 16), hex_digit (unat b mod 16), CHR '' '']) line)"
    by (simp add: hex_text_def show_hex_byte)
  then show ?thesis
    using hex_lines_plain [of 0] restores_hex_lines [of 0 bs]
    by (simp add: dumpBuffer_lines dumpStream_lines concat_chunks line_text_def char_text_def restores_def)
qed

text \<open>The header does not set the adjustment before it prints the offset: on a stream that was left in
  \<open>left\<close> the zeroes follow the digits, and different offsets look the same.\<close>

lemma left_offset:
  assumes "os_left s"
  shows "dumpHexLine_at 16 bs s = dumpHexLine_at 256 bs s"
proof -
  have "pad_right w c (x @ [c]) = pad_right w c x" if "length x < w" for w x and c :: char
    using that by (simp add: pad_right_def replicate_Suc [symmetric] Suc_diff_Suc del: replicate_Suc)
  moreover have "show_hex 256 = show_hex 16 @ [CHR ''0'']"
    by (simp add: show_hex.simps [of 256] hex_digit_def char_of_def bit_0)
  moreover have "length (show_hex 16) < 8"
    by (simp add: show_hex.simps [of 16] show_hex.simps [of "Suc 0"])
  ultimately have "pad_right 8 (CHR ''0'') (show_hex 16) = pad_right 8 (CHR ''0'') (show_hex 256)" by simp
  then have "put_unsigned 16 (os_set_hex (setfill (CHR ''0'') (setw 8 s)))
      = put_unsigned 256 (os_set_hex (setfill (CHR ''0'') (setw 8 s)))"
    using assms by (simp add: put_unsigned_def put_string_def os_set_hex_def setfill_def setw_def)
  then show ?thesis by (simp add: dumpHexLine_at_def SavedState_def)
qed

end
