(* ===== verification/Util_Correct.thy ===== *)
theory Util_Correct
  imports Util HexDump_Correct EndToEnd_Correct
begin

text \<open>
  What holds of the utility: a value that one run of it wrote is what the next run reads, over the
  wire and through the data store; and what it does with the files it writes as blobs.
\<close>

section \<open>Runs of the utility\<close>

definition lib_init :: "'w lib_globals" where
  "lib_init = \<lparr>lg_gShared = None, lg_fds = []\<rparr>"

text \<open>The utility reaches a daemon whose store is \<open>d\<close>.\<close>

definition reaches :: "peer util_env \<Rightarrow> cbor_lib \<Rightarrow> sql_env \<Rightarrow> string \<Rightarrow> db \<Rightarrow> bool" where
  "reaches env lib senv as d \<longleftrightarrow> ue_confd env = client_env lib
     \<and> (\<exists>fd. de_socket (ue_dial env) = Inr fd \<and> 0 \<le> fd)
     \<and> (\<exists>g. confd_open (ue_dial env) (Some ''/var/run/confd/rpc.sock'') lib_init = (0, g)
            \<and> session lib senv as d (lg_gShared g))"

definition util_init :: "peer util" where
  "util_init = \<lparr>ut_lib = lib_init, ut_closed = None, ut_out = plain ''''\<rparr>"

lemma key_arg: "good_key key \<Longrightarrow> c_str key = key \<and> key \<noteq> ''''"
  by (auto simp: good_key_def)

section \<open>Files\<close>

text \<open>A file whose read fails has already been announced, and nothing has been sent. A file of no bytes
  never reaches the daemon: the library is given a null pointer, and the run reports an error.\<close>

lemma unreadable_file:
  assumes "good_key key" and "ue_file_size env path = Inr n" and "ue_read_file env path n = Inl e"
  shows "\<exists>u'. WriteKey env key path TyBlob u = (Inl e, u') \<and> ut_lib u' = ut_lib u
    \<and> (ut_out u = plain s \<longrightarrow> ut_out u' = plain (s @ ''Reading '' @ show_nat n @ '' bytes from ''
          @ quoted path @ [CHR 0xE2, CHR 0x80, CHR 0xA6, CHR 0x0A]))"
  using assms key_arg [OF assms(1)] by (simp add: WriteKey_def print_reading_def on_out_def)

lemma empty_file_is_refused:
  assumes "good_key key" and "ue_file_size env path = Inr 0" and "ue_read_file env path 0 = Inr bytes"
  shows "\<exists>u'. WriteKey env key path TyBlob u = (Inl (RuntimeError ''confd error''), u') \<and> ut_lib u' = ut_lib u"
  using assms key_arg [OF assms(1)]
  by (simp add: WriteKey_def print_reading_def on_out_def vector_data_def write_typed_def on_confd_def
      confd_set_blob_def guarded_def EnsureSuccess_def kConfdInvalidArguments_def kConfdStatusSuccess_def
      bindE_app Let_def)

section \<open>The connection is closed\<close>

text \<open>What the process holds of its connection: the descriptor in the shared object, and those that are
  open.\<close>

definition held :: "'w util \<Rightarrow> int option \<times> int list" where
  "held u = (map_option cn_socket (lg_gShared (ut_lib u)), lg_fds (ut_lib u))"

lemma held_on_confd [untouched_intros]:
  "untouched (map_option cn_socket) m \<Longrightarrow> untouched held (on_confd m)"
  by (rule untouchedI) (auto simp: on_confd_def held_def dest: untouchedD split: prod.splits)

lemma held_on_out [untouched_intros]: "untouched held (on_out f)"
  by (simp add: untouched_def on_out_def held_def)

lemma held_print [untouched_intros]: "untouched held (print_line s)" "untouched held (print_reading n path)"
  unfolding print_line_def print_reading_def by (rule held_on_out)+

lemma held_read_typed [untouched_intros]:
  "untouched (map_option cn_socket) call \<Longrightarrow> (\<And>out. untouched held (show_value out))
   \<Longrightarrow> untouched held (read_typed call key type show_value)"
  unfolding read_typed_def by (intro untouched_intros)

lemma held_write_typed [untouched_intros]:
  "untouched (map_option cn_socket) call \<Longrightarrow> untouched held shown \<Longrightarrow> untouched held (write_typed call shown)"
  unfolding write_typed_def by (intro untouched_intros)

lemma held_request: "untouched held (util_request env a)"
proof -
  have "untouched held (ReadKey env key ty)" for key ty
    by (cases ty) (auto simp: ReadKey_def Let_def intro!: untouched_intros)
  moreover have "untouched held (WriteKey env key v ty)" for key v ty
    by (cases ty) (auto simp: WriteKey_def Let_def intro!: untouched_intros)
  ultimately show ?thesis
    by (cases "ua_what a") (simp_all add: util_request_def untouched_intros)
qed

text \<open>A run that returns has no connection left and has closed the descriptor it opened, unless the
  daemon could not be reached: then the socket stays open.\<close>

lemma util_main_closes:
  assumes "util_main env opts u = (Inr st, u')" and "lg_gShared (ut_lib u) = None"
    and fresh: "\<forall>fd. de_socket (ue_dial env) = Inr fd \<longrightarrow> fd \<noteq> -1 \<and> fd \<notin> set (lg_fds (ut_lib u))"
  shows "lg_gShared (ut_lib u') = None
    \<and> (lg_fds (ut_lib u') = lg_fds (ut_lib u)
       \<or> (\<exists>fd path errno. de_socket (ue_dial env) = Inr fd \<and> de_connect (ue_dial env) path = Inl errno
            \<and> lg_fds (ut_lib u') = fd # lg_fds (ut_lib u)))"
proof (cases "u' = u")
  case False
  then obtain a where "util_options opts util_args_init = Some a" "ua_keyName a \<noteq> ''''"
    and run: "(case confd_open (ue_dial env) (Some (ua_socketPath a)) (ut_lib u) of
        (err, g) \<Rightarrow> if err \<noteq> 0 then (Inr 1, u\<lparr>ut_lib := g\<rparr>)
          else (case util_request env a (u\<lparr>ut_lib := g\<rparr>) of
                  (Inr _, u') \<Rightarrow> (Inr 0, util_close u')
                | (Inl e, u') \<Rightarrow> if is_std_exception e then (Inr 1, util_close u') else (Inl e, u')))
        = (Inr st, u')"
    using assms(1) by (auto simp: util_main_def split: option.splits if_splits)
  obtain err g where o': "confd_open (ue_dial env) (Some (ua_socketPath a)) (ut_lib u) = (err, g)" by fastforce
  obtain r v where q: "util_request env a (u\<lparr>ut_lib := g\<rparr>) = (r, v)" by fastforce
  have v: "map_option cn_socket (lg_gShared (ut_lib v)) = map_option cn_socket (lg_gShared g)"
    "lg_fds (ut_lib v) = lg_fds g"
    using untouchedD [OF held_request q] by (simp_all add: held_def)
  have u': "ut_lib u' = g \<and> err \<noteq> 0 \<or> ut_lib u' = snd (confd_close (ut_lib v)) \<and> err = 0"
    using run o' q by (auto simp: util_close_def split: sum.splits if_splits prod.splits)
  from o' assms(2) show ?thesis
  proof (cases rule: confd_open_outcome)
    case no_socket
    with u' v show ?thesis by (auto simp: confd_close_def RpcConnection_Deinit_def)
  next
    case (no_peer fd errno path)
    with u' v show ?thesis by (auto simp: confd_close_def RpcConnection_Deinit_def)
  next
    case (opened fd c)
    with v obtain c' where "lg_gShared (ut_lib v) = Some c'" "cn_socket c' = fd" by auto
    with opened v u' fresh confd_close_gives_back [of "ut_lib v" c' fd "lg_fds (ut_lib u)"]
    show ?thesis by auto
  qed
qed (use assms(2) in simp)

section \<open>One run writes, the next reads\<close>

lemma reaches_open:
  assumes "reaches env lib senv as d"
  obtains g where "confd_open (ue_dial env) (Some ''/var/run/confd/rpc.sock'') lib_init = (0, g)"
    and "session lib senv as d (lg_gShared g)"
    and "\<And>h. map_option cn_socket h = map_option cn_socket (lg_gShared g)
      \<Longrightarrow> confd_close (g\<lparr>lg_gShared := h\<rparr>) = (0, lib_init)"
proof -
  from assms obtain g fd where g: "de_socket (ue_dial env) = Inr fd" "0 \<le> fd"
    "confd_open (ue_dial env) (Some ''/var/run/confd/rpc.sock'') lib_init = (0, g)"
    "session lib senv as d (lg_gShared g)"
    by (auto simp: reaches_def)
  have "lg_gShared (lib_init :: peer lib_globals) = None" "lg_fds (lib_init :: peer lib_globals) = []"
    by (simp_all add: lib_init_def)
  moreover have "lg_gShared g \<noteq> None" using g(4) by (auto elim: sessionE)
  ultimately obtain c where c: "lg_gShared g = Some c" "cn_socket c = fd" "lg_fds g = [fd]"
    using g(1) by (auto elim: confd_open_outcome [OF g(3)])
  have "confd_close (g\<lparr>lg_gShared := h\<rparr>) = (0, lib_init)"
    if "map_option cn_socket h = map_option cn_socket (lg_gShared g)" for h
    using that c g(2) confd_close_gives_back [of "g\<lparr>lg_gShared := h\<rparr>" _ fd "[]"]
    by (cases g) (auto simp: lib_init_def)
  with g that show thesis by blast
qed

lemmas util_run_defs = util_main_def util_args_init_def parse_type_def util_init_def util_request_def on_confd_def
  EnsureSuccess_def kConfdStatusSuccess_def kConfdNullValue_def print_line_def on_out_def util_close_def bindE_app

lemma util_write_int:
  assumes "reaches env lib senv as d" and "good_key key" and "c_stoll text = Inr v"
    and "\<And>g. session lib senv as d g \<Longrightarrow>
      confd_set_int (client_env lib) (Some key) v g = (Inr (kConfdStatusSuccess, None), g' g)"
  shows "\<exists>g. session lib senv as d g \<and> util_main env [UoKey key, UoType ''int'', UoWrite text] util_init
    = (Inr 0, \<lparr>ut_lib = lib_init, ut_closed = g' g, ut_out = plain (value_line key ''integer'' (show_int64 v) @ [CHR 0x0A])\<rparr>)"
proof -
  obtain g where g:
    "confd_open (ue_dial env) (Some ''/var/run/confd/rpc.sock'') lib_init = (0, g)"
    "session lib senv as d (lg_gShared g)"
    "\<And>h. map_option cn_socket h = map_option cn_socket (lg_gShared g)
      \<Longrightarrow> confd_close (g\<lparr>lg_gShared := h\<rparr>) = (0, lib_init)"
    by (rule reaches_open [OF assms(1)]) blast
  note call = assms(4) [OF g(2)]
  have "confd_close (g\<lparr>lg_gShared := g' (lg_gShared g)\<rparr>) = (0, lib_init)"
    by (rule g(3)) (rule untouchedD [OF socket_calls(8) call])
  moreover have "ue_confd env = client_env lib" using assms(1) by (simp add: reaches_def)
  ultimately show ?thesis
    using g(1,2) call assms(3) key_arg [OF assms(2)]
    by (intro exI [of _ "lg_gShared g"]) (simp add: util_run_defs WriteKey_def write_typed_def)
qed

lemma util_read_int:
  assumes "reaches env lib senv as d" and "good_key key"
    and "\<And>g. session lib senv as d g \<Longrightarrow>
      confd_get_int (client_env lib) (Some key) True g = (Inr (kConfdStatusSuccess, Some v), g' g)"
  shows "\<exists>g. session lib senv as d g \<and> util_main env [UoKey key, UoType ''int'', UoRead] util_init
    = (Inr 0, \<lparr>ut_lib = lib_init, ut_closed = g' g, ut_out = plain (value_line key ''integer'' (show_int64 v) @ [CHR 0x0A])\<rparr>)"
proof -
  obtain g where g:
    "confd_open (ue_dial env) (Some ''/var/run/confd/rpc.sock'') lib_init = (0, g)"
    "session lib senv as d (lg_gShared g)"
    "\<And>h. map_option cn_socket h = map_option cn_socket (lg_gShared g)
      \<Longrightarrow> confd_close (g\<lparr>lg_gShared := h\<rparr>) = (0, lib_init)"
    by (rule reaches_open [OF assms(1)]) blast
  note call = assms(3) [OF g(2)]
  have "confd_close (g\<lparr>lg_gShared := g' (lg_gShared g)\<rparr>) = (0, lib_init)"
    by (rule g(3)) (rule untouchedD [OF socket_calls(3) call])
  moreover have "ue_confd env = client_env lib" using assms(1) by (simp add: reaches_def)
  ultimately show ?thesis
    using g(1,2) call key_arg [OF assms(2)]
    by (intro exI [of _ "lg_gShared g"]) (simp add: util_run_defs ReadKey_def read_typed_def)
qed


text \<open>C33. Round trip through the whole system, for a key that is new or holds an integer (a key of another
  type is refused, see C19): a run of the utility that writes an integer given as
  text returns 0, prints the value, closes its connection and gives the descriptor back; a later run
  against a daemon with the store the first one left returns 0 and prints the same line.\<close>

theorem util_write_then_read:
  assumes lib: "cbor_codec lib" and nf: "no_fault senv" and d: "db_inv d" "not_full d"
    and room: "Suc (db_seq d kPropertyKeys) < 2 ^ 32"
    and reach: "reaches env lib senv as d" and key: "good_key key" and val: "c_stoll text = Inr v"
    and old: "store_view d key = None \<or> (\<exists>x. store_view d key = Some (PVInteger x))"
    and fits: "\<forall>x \<in> {query_item key, update_item key (cbor_build_uint64 v), update_answer key,
               query_answer lib key (Some (PVInteger v))}. fits_packet lib x"
  shows "\<exists>u d'. util_main env [UoKey key, UoType ''int'', UoWrite text] util_init = (Inr 0, u)
    \<and> ut_out u = plain (value_line key ''integer'' (show_int64 v) @ [CHR 0x0A])
    \<and> ut_lib u = lib_init \<and> session lib senv as d' (ut_closed u) \<and> store_view d' = (store_view d)(key \<mapsto> PVInteger v)
    \<and> (\<forall>env'. reaches env' lib senv as d' \<longrightarrow>
         (\<exists>u'. util_main env' [UoKey key, UoType ''int'', UoRead] util_init = (Inr 0, u') \<and> ut_out u' = ut_out u))"
proof -
  have "\<exists>g'. \<forall>g. session lib senv as d g \<longrightarrow>
      confd_set_int (client_env lib) (Some key) v g = (Inr (kConfdStatusSuccess, None), g' g)
      \<and> (\<exists>d'. session lib senv as d' (g' g) \<and> db_inv d' \<and> store_view d' = (store_view d)(key \<mapsto> PVInteger v))"
    using set_int_call [OF lib nf d room _ key old, of as _ v] fits by (intro choice) blast
  then obtain g' where g': "\<And>g. session lib senv as d g \<Longrightarrow>
      confd_set_int (client_env lib) (Some key) v g = (Inr (kConfdStatusSuccess, None), g' g)"
    "\<And>g. session lib senv as d g \<Longrightarrow>
      \<exists>d'. session lib senv as d' (g' g) \<and> db_inv d' \<and> store_view d' = (store_view d)(key \<mapsto> PVInteger v)"
    by blast
  from util_write_int [OF reach key val g'(1)] obtain g where g: "session lib senv as d g"
    "util_main env [UoKey key, UoType ''int'', UoWrite text] util_init
      = (Inr 0, \<lparr>ut_lib = lib_init, ut_closed = g' g, ut_out = plain (value_line key ''integer'' (show_int64 v) @ [CHR 0x0A])\<rparr>)" by blast
  from g'(2) [OF g(1)] obtain d' where d': "session lib senv as d' (g' g)" "db_inv d'"
    "store_view d' = (store_view d)(key \<mapsto> PVInteger v)" by blast
  have "\<exists>u'. util_main env' [UoKey key, UoType ''int'', UoRead] util_init = (Inr 0, u')
      \<and> ut_out u' = plain (value_line key ''integer'' (show_int64 v) @ [CHR 0x0A])" if r: "reaches env' lib senv as d'" for env'
  proof -
    have "\<exists>h. \<forall>g. session lib senv as d' g \<longrightarrow>
        confd_get_int (client_env lib) (Some key) True g = (Inr (kConfdStatusSuccess, Some v), h g)"
      using get_int_call [OF lib nf d'(2) _ key, of as _ v] d'(3) fits by (intro choice) auto
    then obtain h where "\<And>g. session lib senv as d' g \<Longrightarrow>
        confd_get_int (client_env lib) (Some key) True g = (Inr (kConfdStatusSuccess, Some v), h g)" by blast
    from util_read_int [OF r key this] show ?thesis by auto
  qed
  with g(2) d' show ?thesis by auto
qed

text \<open>The utility against a daemon with the store \<open>d\<close>.\<close>

definition demo_util :: "db \<Rightarrow> peer util_env" where
  "demo_util d = \<lparr>ue_confd = client_env demo_lib,
     ue_dial = \<lparr>de_socket = Inr 3, de_connect = (\<lambda>_. Inr \<lparr>pe_server = demo_server d, pe_env = demo_env,
        pe_bev = 3, pe_pipe = [], pe_sigpipe = True\<rparr>)\<rparr>,
     ue_stod = (\<lambda>_. Inl (InvalidArgument ''stod'')), ue_show_real = (\<lambda>_. ''''),
     ue_file_size = (\<lambda>_. Inr 0), ue_read_file = (\<lambda>_ _. Inr [])\<rparr>"

lemma demo_reaches: "reaches (demo_util d) demo_lib quiet [NUL] d"
proof -
  let ?c = "\<lparr>cn_socket = 3, cn_nextTag = 0, cn_transmitBuf = [], cn_receiveBuf = [],
    cn_peer = \<lparr>pe_server = demo_server d, pe_env = demo_env, pe_bev = 3, pe_pipe = [], pe_sigpipe = True\<rparr>\<rparr>"
  have "confd_open (ue_dial (demo_util d)) (Some ''/var/run/confd/rpc.sock'') lib_init
      = (0, \<lparr>lg_gShared = Some ?c, lg_fds = [3]\<rparr>)"
    by (simp add: demo_util_def confd_open_def RpcConnection_Init_def new_RpcConnection_def lib_init_def)
  moreover have "session demo_lib quiet [NUL] d (Some ?c)"
    unfolding session_def by (intro exI [of _ ?c] exI [of _ "[]"]) (simp add: peer_up_def demo_env_def)
  moreover have "ue_confd (demo_util d) = client_env demo_lib" "de_socket (ue_dial (demo_util d)) = Inr 3" by (simp_all add: demo_util_def)
  ultimately show ?thesis unfolding reaches_def by fastforce
qed

lemma util_write_then_read_witness:
  "\<exists>u d' u'. util_main (demo_util demo_db) [UoKey ''k'', UoType ''int'', UoWrite ''-7''] util_init = (Inr 0, u)
    \<and> ut_out u = plain (''k:integer=-7'' @ [CHR 0x0A]) \<and> session demo_lib quiet [NUL] d' (ut_closed u)
    \<and> util_main (demo_util d') [UoKey ''k'', UoType ''int'', UoRead] util_init = (Inr 0, u')
    \<and> ut_out u' = plain (''k:integer=-7'' @ [CHR 0x0A])"
proof -
  have v: "c_stoll ''-7'' = Inr (- 7)"
    by (simp add: c_stoll_def is_space_def is_digit_def read_digits_def digit_val_def Let_def)
  have s: "value_line ''k'' ''integer'' (show_int64 (- 7)) = ''k:integer=-7''"
    by (simp add: value_line_def show_int64_def show_nat.simps [of 7] digit_char_def char_of_def bit_0)
  have room: "Suc (db_seq demo_db kPropertyKeys) < 2 ^ 32"
    by (simp add: demo_db_def fresh_db_def table_names)
  have old: "store_view demo_db ''k'' = None \<or> (\<exists>x. store_view demo_db ''k'' = Some (PVInteger x))"
    by simp
  have fits: "\<forall>x \<in> {query_item ''k'', update_item ''k'' (cbor_build_uint64 (- 7)), update_answer ''k'',
               query_answer demo_lib ''k'' (Some (PVInteger (- 7)))}. fits_packet demo_lib x"
    by simp
  from util_write_then_read [OF demo_codec quiet_no_fault demo_db_ok(1,2) room demo_reaches good_key_k v old fits]
  obtain u d' where u: "util_main (demo_util demo_db) [UoKey ''k'', UoType ''int'', UoWrite ''-7''] util_init = (Inr 0, u)"
    "ut_out u = plain (''k:integer=-7'' @ [CHR 0x0A])" "session demo_lib quiet [NUL] d' (ut_closed u)"
    and later: "\<And>env'. reaches env' demo_lib quiet [NUL] d' \<Longrightarrow>
         \<exists>u'. util_main env' [UoKey ''k'', UoType ''int'', UoRead] util_init = (Inr 0, u') \<and> ut_out u' = ut_out u"
    unfolding s by blast
  from later [OF demo_reaches] u(2) obtain u' where
    "util_main (demo_util d') [UoKey ''k'', UoType ''int'', UoRead] util_init = (Inr 0, u')"
    "ut_out u' = plain (''k:integer=-7'' @ [CHR 0x0A])" by auto
  with u show ?thesis by blast
qed

end
