(* ===== verification/Pl_EventLoop.thy ===== *)
theory Pl_EventLoop
  imports Watchdog
begin

text \<open>
  The event loop of pl-common (\<open>src/EventLoop.cpp\<close>, \<open>load-common/EventLoop.h\<close>). libevent's answers
  and the events that arrive are parameters.
\<close>

section \<open>State\<close>

text \<open>The array of the signal events has no initialiser: until it is filled its pointers hold
  whatever the memory held.\<close>

datatype event_ptr = Indeterminate | Event int

record event_loop =
  el_base :: bool
  el_watchdog :: "(u32 \<times> u32) option"
  el_signals :: "event_ptr list"
  el_gRun :: bool
  el_break :: bool
  el_wd :: watchdog

record event_env =
  ee_base :: bool
  ee_watchdog :: bool
  ee_signal :: "int \<Rightarrow> bool"

definition el_kEvents :: "int list" where "el_kEvents = [2, 15, 1]"

section \<open>Construction and destruction\<close>

definition el_initWatchdogEvent :: "event_env \<Rightarrow> (event_loop, unit) op" where
  "el_initWatchdogEvent env =
     (\<lambda>l. if \<not> wd_active (el_wd l) then (Inr (), l)
          else if \<not> ee_watchdog env then (Inl (RuntimeError ''failed to allocate watchdog event''), l)
          else (Inr (), l\<lparr>el_watchdog := Some (watchdog_timeval (wd_interval (el_wd l)))\<rparr>))"

fun el_signal_loop :: "event_env \<Rightarrow> nat \<Rightarrow> int list \<Rightarrow> (event_loop, unit) op" where
  "el_signal_loop env i [] = ret ()"
| "el_signal_loop env i (signum # rest) =
     (\<lambda>l. if \<not> ee_signal env signum then (Inl (RuntimeError ''failed to allocate signal event''), l)
          else el_signal_loop env (Suc i) rest (l\<lparr>el_signals := (el_signals l)[i := Event signum]\<rparr>))"

definition el_initSignalEvents :: "event_env \<Rightarrow> (event_loop, unit) op" where
  "el_initSignalEvents env = el_signal_loop env 0 el_kEvents"

text \<open>The state of a new object, before the body of its constructor.\<close>

definition event_loop_raw :: "watchdog \<Rightarrow> event_loop" where
  "event_loop_raw w = \<lparr>el_base = False, el_watchdog = None, el_signals = replicate 3 Indeterminate,
     el_gRun = True, el_break = False, el_wd = w\<rparr>"

definition EventLoop_new :: "event_env \<Rightarrow> bool \<Rightarrow> (event_loop, unit) op" where
  "EventLoop_new env isMainLoop =
     (\<lambda>l. if \<not> ee_base env then (Inl (RuntimeError ''failed to allocate event_base''), l)
          else if isMainLoop
          then bindE (el_initWatchdogEvent env) (\<lambda>_. el_initSignalEvents env) (l\<lparr>el_base := True\<rparr>)
          else (Inr (), l\<lparr>el_base := True\<rparr>))"

text \<open>The destructor tests and frees every pointer of the array.\<close>

definition EventLoop_delete :: "(event_loop, unit) op" where
  "EventLoop_delete =
     (\<lambda>l. if Indeterminate \<in> set (el_signals l) then (Inl (Undefined ''indeterminate pointer''), l)
          else (Inr (), l\<lparr>el_signals := [], el_watchdog := None, el_base := False\<rparr>))"

section \<open>The loops of a thread\<close>

text \<open>
  The loops that exist on a thread, by their address, and the thread-local weak pointer to the one
  that was activated last. A weak pointer does not keep its loop alive, and is null afterwards; an
  address stands for one loop.
\<close>

record thread =
  th_loops :: "nat \<rightharpoonup> event_loop"
  th_gCurrentEventLoop :: "nat option"

definition EventLoop_Current :: "thread \<Rightarrow> nat option" where
  "EventLoop_Current t =
     (case th_gCurrentEventLoop t of
        None \<Rightarrow> None
      | Some a \<Rightarrow> if th_loops t a = None then None else Some a)"

definition activate :: "nat \<Rightarrow> thread \<Rightarrow> thread" where
  "activate a t = t\<lparr>th_gCurrentEventLoop := Some a\<rparr>"

definition EventLoop_arm :: "nat \<Rightarrow> thread \<Rightarrow> thread" where
  "EventLoop_arm a t = activate a t"

text \<open>A loop is made and destroyed at an address; a constructor that throws leaves none.\<close>

definition thread_new :: "event_env \<Rightarrow> bool \<Rightarrow> watchdog \<Rightarrow> nat \<Rightarrow> (thread, unit) op" where
  "thread_new env isMainLoop w a =
     (\<lambda>t. case EventLoop_new env isMainLoop (event_loop_raw w) of
             (Inl e, l) \<Rightarrow> (Inl e, t)
           | (Inr _, l) \<Rightarrow> (Inr (), t\<lparr>th_loops := (th_loops t)(a \<mapsto> l)\<rparr>))"

definition thread_delete :: "nat \<Rightarrow> (thread, unit) op" where
  "thread_delete a =
     (\<lambda>t. case th_loops t a of
             None \<Rightarrow> (Inl (Undefined ''no loop''), t)
           | Some l \<Rightarrow>
               (case EventLoop_delete l of
                  (Inl e, l') \<Rightarrow> (Inl e, t)
                | (Inr _, l') \<Rightarrow> (Inr (), t\<lparr>th_loops := (th_loops t)(a := None)\<rparr>)))"

section \<open>Running\<close>

datatype el_event = ElTimer | ElSignal int | ElOther

definition el_handleTermination :: "event_loop \<Rightarrow> event_loop" where
  "el_handleTermination l = l\<lparr>el_gRun := False, el_break := True\<rparr>"

text \<open>An event reaches a callback of the loop when the loop has installed one for it.\<close>

definition el_callback :: "el_event \<Rightarrow> event_loop \<Rightarrow> event_loop" where
  "el_callback e l =
     (case e of
        ElTimer \<Rightarrow> if el_watchdog l = None then l else l\<lparr>el_wd := Pl_Watchdog_Kick (el_wd l)\<rparr>
      | ElSignal n \<Rightarrow> if Event n \<in> set (el_signals l) then el_handleTermination l else l
      | ElOther \<Rightarrow> l)"

fun el_dispatch :: "el_event list \<Rightarrow> event_loop \<Rightarrow> event_loop" where
  "el_dispatch [] l = l"
| "el_dispatch (e # es) l = (let l' = el_callback e l in if el_break l' then l' else el_dispatch es l')"

text \<open>libevent's dispatch clears the flag that breaks the loop.\<close>

definition EventLoop_run :: "nat \<Rightarrow> el_event list \<Rightarrow> (thread, unit) op" where
  "EventLoop_run a es =
     (\<lambda>t. case th_loops t a of
             None \<Rightarrow> (Inl (Undefined ''no loop''), t)
           | Some l \<Rightarrow>
               (Inr (), (activate a t)\<lparr>th_loops := (th_loops t)(a \<mapsto> el_dispatch es (l\<lparr>el_break := False\<rparr>))\<rparr>))"

section \<open>Facts\<close>

lemma main_loop_signals:
  assumes "EventLoop_new env True (event_loop_raw w) = (Inr (), l)"
  shows "el_signals l = [Event 2, Event 15, Event 1]"
    and "el_watchdog l = (if wd_active w then Some (watchdog_timeval (wd_interval w)) else None)"
    and "el_wd l = w" and "el_gRun l"
  using assms
  by (auto simp: EventLoop_new_def event_loop_raw_def el_initWatchdogEvent_def el_initSignalEvents_def
      el_kEvents_def numeral_3_eq_3 bindE_def split: if_splits)

text \<open>The events before a signal only kick the watchdog, once for each round of the timer.\<close>

lemma main_loop_events:
  assumes "el_signals l = [Event 2, Event 15, Event 1]" and "\<not> el_break l"
    and "set pre \<inter> ElSignal ` {2, 15, 1} = {}"
  shows "el_dispatch (pre @ rest) l = el_dispatch rest
    (l\<lparr>el_wd := (Pl_Watchdog_Kick ^^ (if el_watchdog l = None then 0 else count_list pre ElTimer)) (el_wd l)\<rparr>)"
  using assms
proof (induction pre arbitrary: l)
  case (Cons e pre)
  define l' where "l' = el_callback e l"
  have e: "e \<notin> ElSignal ` {2, 15, 1}" using Cons.prems(3) by auto
  have l': "l' = (if e = ElTimer \<and> el_watchdog l \<noteq> None then l\<lparr>el_wd := Pl_Watchdog_Kick (el_wd l)\<rparr> else l)"
    using e Cons.prems(1) by (cases e) (auto simp: l'_def el_callback_def)
  have "el_dispatch ((e # pre) @ rest) l = el_dispatch (pre @ rest) l'"
    using l' Cons.prems(2) by (simp add: l'_def Let_def)
  also have "\<dots> = el_dispatch rest
      (l'\<lparr>el_wd := (Pl_Watchdog_Kick ^^ (if el_watchdog l' = None then 0 else count_list pre ElTimer)) (el_wd l')\<rparr>)"
    by (rule Cons.IH) (use l' Cons.prems in auto)
  also have "l'\<lparr>el_wd := (Pl_Watchdog_Kick ^^ (if el_watchdog l' = None then 0 else count_list pre ElTimer)) (el_wd l')\<rparr>
      = l\<lparr>el_wd := (Pl_Watchdog_Kick ^^ (if el_watchdog l = None then 0 else count_list (e # pre) ElTimer)) (el_wd l)\<rparr>"
    using l' by (simp add: funpow_swap1)
  finally show ?case .
qed simp

text \<open>The current loop is the one that was armed or run last, for as long as it exists; when it is
  destroyed there is none, also when another loop has run on the thread before.\<close>

lemma Current_is_last:
  "th_loops t a = Some l \<Longrightarrow> EventLoop_Current (EventLoop_arm a t) = Some a"
  "EventLoop_run a es t = (Inr (), t') \<Longrightarrow> EventLoop_Current t' = Some a"
  by (auto simp: EventLoop_Current_def EventLoop_arm_def activate_def EventLoop_run_def split: option.splits)

lemma Current_after_delete:
  assumes "thread_delete b t = (Inr (), t')"
  shows "EventLoop_Current t' = (if EventLoop_Current t = Some b then None else EventLoop_Current t)"
  using assms
  by (auto simp: thread_delete_def EventLoop_Current_def split: option.splits prod.splits sum.splits if_splits)

text \<open>A loop that is not the main loop never fills the array: destroying it reads indeterminate
  pointers. A main loop can be destroyed.\<close>

lemma EventLoop_delete_defined:
  assumes "EventLoop_new env isMain (event_loop_raw w) = (Inr (), l)"
  shows "(\<exists>l'. EventLoop_delete l = (Inr (), l')) \<longleftrightarrow> isMain"
proof (cases isMain)
  case True
  then show ?thesis using main_loop_signals(1) [of env w l] assms by (simp add: EventLoop_delete_def)
next
  case False
  then show ?thesis
    using assms by (auto simp: EventLoop_new_def EventLoop_delete_def event_loop_raw_def numeral_3_eq_3
        split: if_splits)
qed

text \<open>C32. The life of the main loop of pl-common. Once it has been made, a run of it handles what
  arrives until the first of the three signals: the service manager gets one kick for each round of
  the timer before it, and none without a watchdog; then the run returns, the process is told to
  end, and what arrived behind the signal is not handled. While it exists the loop is the current
  one of its thread, it can be destroyed without following a pointer it never set, and the thread
  then has no current loop.\<close>

theorem main_loop_life:
  assumes "thread_new env True w a t = (Inr (), t1)" and "set pre \<inter> ElSignal ` {2, 15, 1} = {}"
    and "n \<in> {2, 15, 1}"
  shows "\<exists>t2 t3 l. EventLoop_run a (pre @ ElSignal n # post) t1 = (Inr (), t2) \<and> th_loops t2 a = Some l
    \<and> \<not> el_gRun l \<and> EventLoop_Current t2 = Some a
    \<and> wd_notes (el_wd l) = wd_notes w @ (if wd_active w then replicate (count_list pre ElTimer) ''WATCHDOG=1'' else [])
    \<and> thread_delete a t2 = (Inr (), t3) \<and> EventLoop_Current t3 = None"
proof -
  from assms(1) obtain l where l: "EventLoop_new env True (event_loop_raw w) = (Inr (), l)"
    "th_loops t1 a = Some l"
    by (auto simp: thread_new_def split: prod.splits sum.splits)
  note s = main_loop_signals [OF l(1)]
  define l0 where "l0 = l\<lparr>el_break := False\<rparr>"
  define l1 where "l1 = el_dispatch (pre @ ElSignal n # post) l0"
  have "l1 = el_handleTermination (l0\<lparr>el_wd := (Pl_Watchdog_Kick ^^
      (if el_watchdog l0 = None then 0 else count_list pre ElTimer)) (el_wd l0)\<rparr>)"
    unfolding l1_def using assms(2,3) s(1)
    by (subst main_loop_events) (auto simp: l0_def el_callback_def el_handleTermination_def Let_def)
  then have l1: "\<not> el_gRun l1" "el_signals l1 = [Event 2, Event 15, Event 1]"
    "wd_notes (el_wd l1) = wd_notes w @ (if wd_active w then replicate (count_list pre ElTimer) ''WATCHDOG=1'' else [])"
    using s by (simp_all add: l0_def el_handleTermination_def Pl_Watchdog_same Kicks_notes)
  let ?t2 = "(activate a t1)\<lparr>th_loops := (th_loops t1)(a \<mapsto> l1)\<rparr>"
  let ?t3 = "?t2\<lparr>th_loops := (th_loops ?t2)(a := None)\<rparr>"
  have "EventLoop_run a (pre @ ElSignal n # post) t1 = (Inr (), ?t2)"
    using l(2) by (simp add: EventLoop_run_def l0_def l1_def)
  moreover have "EventLoop_Current ?t2 = Some a" by (simp add: EventLoop_Current_def activate_def)
  moreover have del: "thread_delete a ?t2 = (Inr (), ?t3)"
    using l1(2) by (simp add: thread_delete_def EventLoop_delete_def)
  moreover have "EventLoop_Current ?t3 = None"
    using Current_after_delete [OF del] by (simp add: EventLoop_Current_def activate_def)
  ultimately show ?thesis using l1 by (intro exI [of _ ?t2] exI [of _ ?t3] exI [of _ l1]) simp
qed

definition demo_event_env :: event_env where
  "demo_event_env = \<lparr>ee_base = True, ee_watchdog = True, ee_signal = (\<lambda>_. True)\<rparr>"

lemma main_loop_life_witness:
  "\<exists>t1 t2 l. thread_new demo_event_env True \<lparr>wd_active = True, wd_interval = 30000000, wd_notes = []\<rparr> 1
       \<lparr>th_loops = Map.empty, th_gCurrentEventLoop = None\<rparr> = (Inr (), t1)
    \<and> EventLoop_run 1 ([ElTimer, ElOther, ElSignal 10, ElTimer] @ ElSignal 15 # [ElTimer]) t1 = (Inr (), t2)
    \<and> th_loops t2 1 = Some l \<and> \<not> el_gRun l \<and> wd_notes (el_wd l) = [''WATCHDOG=1'', ''WATCHDOG=1'']"
proof -
  let ?w = "\<lparr>wd_active = True, wd_interval = 30000000, wd_notes = []\<rparr>"
  let ?t = "\<lparr>th_loops = Map.empty, th_gCurrentEventLoop = None\<rparr>"
  obtain t1 where t1: "thread_new demo_event_env True ?w 1 ?t = (Inr (), t1)"
    by (simp add: thread_new_def EventLoop_new_def demo_event_env_def el_initWatchdogEvent_def
        el_initSignalEvents_def el_kEvents_def event_loop_raw_def)
  have "set [ElTimer, ElOther, ElSignal 10, ElTimer] \<inter> ElSignal ` {2, 15, 1} = {}"
    "(15 :: int) \<in> {2, 15, 1}" by auto
  from main_loop_life [OF t1 this, of "[ElTimer]"] t1 show ?thesis
    by (auto simp: numeral_2_eq_2)
qed

end
