(* ===== verification/Pl_Client.thy ===== *)
theory Pl_Client
  imports Rpc_Types Cbor Pl_EventLoop
begin

text \<open>
  The RPC client of pl-common, the base class of the clients of loadd and pinballd:
  \<open>src/Rpc/ClientBase.cpp\<close> and \<open>load-common/Rpc/ClientBase.h\<close>. It is driven by libevent: a
  callback takes the bytes that have arrived, and the class hands the decoded message to a method
  of the subclass.

  The state is the object with the state \<open>'h\<close> of the subclass, the open descriptors of the process
  and the writes made. The system calls, libevent, libcbor and the subclass's handlers are
  parameters. The header has the layout of \<open>Rpc_Types\<close>.
\<close>

unbundle bit_operations_syntax

section \<open>State\<close>

record 'h client_base =
  cb_fd :: int
  cb_bev :: bool
  cb_nextTag :: u8
  cb_rxBuf :: "byte list"
  cb_self :: 'h
  cb_fds :: "int list"
  cb_written :: "(int \<times> byte list) list"

record client_conn_env =
  ce_socket :: "int + int"
  ce_connect :: "string \<Rightarrow> int option"
  ce_nonblock :: "int option"
  ce_bev :: bool
  ce_enable :: bool

text \<open>The subclass's methods and what the process reads behind a buffer.\<close>

record 'h client_env =
  cl_lib :: cbor_lib
  cl_message :: "rpc_header \<Rightarrow> cbor_item option \<Rightarrow> ('h, unit) op"
  cl_closed :: "('h, unit) op"
  cl_io_error :: "u32 \<Rightarrow> ('h, unit) op"
  cl_after_rx :: "byte list"
  cl_drain_ok :: bool
  cl_write :: "int \<Rightarrow> byte list \<Rightarrow> int option"

definition on_self :: "('h, 'a) op \<Rightarrow> ('h client_base, 'a) op" where
  "on_self m = (\<lambda>c. case m (cb_self c) of (r, h) \<Rightarrow> (r, c\<lparr>cb_self := h\<rparr>))"

definition client_closes :: "int \<Rightarrow> 'h client_base \<Rightarrow> 'h client_base" where
  "client_closes fd c = c\<lparr>cb_fds := filter (\<lambda>x. x \<noteq> fd) (cb_fds c)\<rparr>"

section \<open>Connecting\<close>

definition connectSocket :: "client_conn_env \<Rightarrow> string \<Rightarrow> ('h client_base, int) op" where
  "connectSocket env path =
     (\<lambda>c. case ce_socket env of
             Inl e \<Rightarrow> (Inl (SystemError e ''create rpc socket''), c)
           | Inr fd \<Rightarrow>
               let c1 = c\<lparr>cb_fds := fd # cb_fds c\<rparr> in
               (case ce_connect env (take 107 (c_str path)) of
                  Some e \<Rightarrow> (Inl (SystemError e ''dial rpc socket''), client_closes fd c1)
                | None \<Rightarrow>
                    (case ce_nonblock env of
                       Some e \<Rightarrow> (Inl (SystemError e ''evutil_make_socket_nonblocking''), client_closes fd c1)
                     | None \<Rightarrow> (Inr fd, c1))))"

text \<open>The constructor. The event loop is used before it is checked; \<open>have_loop\<close> tells whether the
  pointer is set. The destructor does not run for an object whose constructor throws.\<close>

definition ClientBase_new :: "client_conn_env \<Rightarrow> bool \<Rightarrow> string \<Rightarrow> ('h client_base, unit) op" where
  "ClientBase_new env have_loop path =
     (if \<not> have_loop then raise (Undefined ''null event loop'')
      else if path = '''' then raise (InvalidArgument ''rpc socket path is empty!'')
      else bindE (connectSocket env path) (\<lambda>fd c.
        let c1 = c\<lparr>cb_fd := fd\<rparr> in
        if \<not> ce_bev env then (Inl (RuntimeError ''failed to create bufferevent''), c1)
        else let c2 = c1\<lparr>cb_bev := True\<rparr> in
          if \<not> ce_enable env then (Inl (RuntimeError ''failed to enable bufferevent''), c2)
          else (Inr (), c2)))"

text \<open>The constructor without a loop takes the current one of the thread.\<close>

definition ClientBase_current :: "client_conn_env \<Rightarrow> thread \<Rightarrow> string \<Rightarrow> ('h client_base, unit) op" where
  "ClientBase_current env t path = ClientBase_new env (EventLoop_Current t \<noteq> None) path"

definition ClientBase_delete :: "'h client_base \<Rightarrow> 'h client_base" where
  "ClientBase_delete c =
     (let c1 = c\<lparr>cb_bev := False\<rparr> in if cb_fd c \<noteq> -1 then client_closes (cb_fd c) c1 else c1)"

section \<open>Receiving\<close>

text \<open>\<open>handleIncomingMessageRaw\<close>: an empty payload is no message; what does not decode throws.\<close>

definition handleIncomingMessageRaw ::
  "'h client_env \<Rightarrow> rpc_header \<Rightarrow> byte list \<Rightarrow> ('h client_base, unit) op" where
  "handleIncomingMessageRaw env hdr payload =
     (if payload = [] then on_self (cl_message env hdr None)
      else (case cbor_load (cl_lib env) payload of
              None \<Rightarrow> raise (RuntimeError ''cbor_load failed'')
            | Some item \<Rightarrow> on_self (cl_message env hdr (Some item))))"

text \<open>
  \<open>bevRead\<close>: everything pending is taken, but only the first message in it is looked at. The length
  the header announces is not compared with what has arrived.
\<close>

definition bevRead :: "'h client_env \<Rightarrow> byte list \<Rightarrow> ('h client_base, unit) op" where
  "bevRead env pending =
     (\<lambda>c. let buf = (if cl_drain_ok env then pending
                     else take (length pending) (cb_rxBuf c)
                            @ replicate (length pending - length (cb_rxBuf c)) 0);
              c1 = c\<lparr>cb_rxBuf := buf\<rparr>
          in if \<not> cl_drain_ok env then (Inl (RuntimeError ''failed to drain read buffer''), c1)
             else (case parse_header buf of
                     None \<Rightarrow> (Inr (), c1)
                   | Some hdr \<Rightarrow>
                       if hdr_version hdr \<noteq> kRpcVersionLatest then (Inr (), c1)
                       else if unat (hdr_length hdr) < sizeof_rpc_header then (Inr (), c1)
                       else handleIncomingMessageRaw env hdr
                              (take (unat (hdr_length hdr) - sizeof_rpc_header)
                                 (drop sizeof_rpc_header (buf @ cl_after_rx env))) c1))"

definition BEV_EVENT_EOF :: u32 where "BEV_EVENT_EOF = 0x10"

definition BEV_EVENT_ERROR :: u32 where "BEV_EVENT_ERROR = 0x20"

definition bevEvent :: "'h client_env \<Rightarrow> u32 \<Rightarrow> ('h client_base, unit) op" where
  "bevEvent env flags =
     (if flags AND BEV_EVENT_EOF \<noteq> 0 then
        bindE (on_self (cl_closed env)) (\<lambda>_ c. (Inr (), c\<lparr>cb_fd := 0\<rparr>))
      else if flags AND BEV_EVENT_ERROR \<noteq> 0 then on_self (cl_io_error env flags)
      else ret ())"

text \<open>The default handlers of a closed connection and of an error write to the log and do nothing else.\<close>

definition handleConnectionClosed :: "('h, unit) op" where
  "handleConnectionClosed = ret ()"

definition handleIoError :: "u32 \<Rightarrow> ('h, unit) op" where
  "handleIoError flags = ret ()"

text \<open>The callbacks installed with libevent log what is thrown and go on.\<close>

definition client_catching :: "('h client_base, unit) op \<Rightarrow> ('h client_base, unit) op" where
  "client_catching m =
     (\<lambda>c. case m c of
             (Inr x, c') \<Rightarrow> (Inr x, c')
           | (Inl e, c') \<Rightarrow> if is_std_exception e then (Inr (), c') else (Inl e, c'))"

definition on_read :: "'h client_env \<Rightarrow> byte list \<Rightarrow> ('h client_base, unit) op" where
  "on_read env pending = client_catching (bevRead env pending)"

definition on_event :: "'h client_env \<Rightarrow> u32 \<Rightarrow> ('h client_base, unit) op" where
  "on_event env flags = client_catching (bevEvent env flags)"

section \<open>Sending\<close>

definition sendRaw :: "'h client_env \<Rightarrow> byte list \<Rightarrow> ('h client_base, unit) op" where
  "sendRaw env bs =
     (\<lambda>c. case cl_write env (cb_fd c) bs of
             Some e \<Rightarrow> (Inl (SystemError e ''write''), c)
           | None \<Rightarrow> (Inr (), c\<lparr>cb_written := cb_written c @ [(cb_fd c, bs)]\<rparr>))"

text \<open>The loop that picks the next tag that is not zero.\<close>

function next_tag :: "u8 \<Rightarrow> u8" where
  "next_tag tag = (let tag' = tag + 1 in if tag' = 0 then next_tag tag' else tag')"
  by pat_completeness auto

termination
proof (relation "measure (\<lambda>t :: u8. if t = -1 then 1 else 0)")
  fix tag tag' :: u8
  assume "tag' = tag + 1" and "tag' = 0"
  then have "tag = -1" by (simp add: eq_neg_iff_add_eq_0)
  with \<open>tag' = 0\<close> show "(tag', tag) \<in> measure (\<lambda>t :: u8. if t = -1 then 1 else 0)" by simp
qed simp

definition client_packet :: "u8 \<Rightarrow> u8 \<Rightarrow> byte list \<Rightarrow> byte list" where
  "client_packet ep tag payload =
     header_bytes \<lparr>hdr_version = kRpcVersionLatest,
        hdr_length = u16_of_size (sizeof_rpc_header + length payload),
        hdr_endpoint = ep, hdr_tag = tag, hdr_flags = 0, hdr_reserved = 0\<rparr> @ payload"

definition client_sendPacket :: "'h client_env \<Rightarrow> u8 \<Rightarrow> byte list \<Rightarrow> ('h client_base, u8) op" where
  "client_sendPacket env ep payload =
     (\<lambda>c. let tag = next_tag (cb_nextTag c) in
          bindE (sendRaw env (client_packet ep tag payload)) (\<lambda>_. ret tag) (c\<lparr>cb_nextTag := tag\<rparr>))"

declare next_tag.simps [simp del]

end
