(* ===== verification/Pl_Client_Correct.thy ===== *)
theory Pl_Client_Correct
  imports Pl_Client
begin

text \<open>
  What holds of the pl-common client: the tags and packets it sends, which messages reach the
  subclass, what the constructor leaves open, and what happens behind the end of the connection.
\<close>

section \<open>Tags\<close>

lemma unat_next_tag: "unat (next_tag t) = unat t mod 255 + 1"
proof (cases "t = -1")
  case True
  have "next_tag t = 1"
    by (simp add: True next_tag.simps [of "-1"] next_tag.simps [of 0])
  moreover have "unat (-1 :: u8) = 255" by (simp add: unsigned_minus_1_eq_mask mask_eq_exp_minus_1)
  ultimately show ?thesis by (simp add: True)
next
  case False
  then have "t + 1 \<noteq> 0" by (simp add: eq_neg_iff_add_eq_0)
  then have "next_tag t = t + 1" by (simp add: next_tag.simps [of t])
  moreover have s: "unat (t + 1) = unat t + 1" using \<open>t + 1 \<noteq> 0\<close> by (simp add: unatSuc add.commute)
  moreover have "unat t + 1 < 256" using unat_byte_less [of "t + 1"] s by simp
  ultimately show ?thesis by simp
qed

lemma unat_next_tags: "unat ((next_tag ^^ Suc n) t) = (unat t + n) mod 255 + 1"
proof (induction n)
  case (Suc n)
  have "unat ((next_tag ^^ Suc (Suc n)) t) = unat ((next_tag ^^ Suc n) t) mod 255 + 1"
    by (simp add: unat_next_tag)
  also have "\<dots> = (Suc (unat t + n)) mod 255 + 1" by (simp only: Suc.IH mod_simps) simp
  finally show ?case by simp
qed (simp add: unat_next_tag)

lemma next_tag_nonzero: "next_tag t \<noteq> 0"
  using unat_next_tag [of t] by auto

lemma mod_255_inj: "i < 255 \<Longrightarrow> j < 255 \<Longrightarrow> (u + i) mod 255 = (u + j) mod 255 \<Longrightarrow> i = j" for i j u :: nat
proof -
  have le: "i = j" if "i \<le> j" "j < 255" "(u + i) mod 255 = (u + j) mod 255" for i j :: nat
  proof -
    have "255 dvd (u + j) - (u + i)" using that by (metis mod_eq_dvd_iff_nat add_le_cancel_left)
    then have "255 dvd j - i" by simp
    moreover have "j - i < 255" using that by simp
    ultimately have "j - i = 0" by (metis dvd_imp_le neq0_conv not_le)
    with that(1) show ?thesis by simp
  qed
  assume "i < 255" "j < 255" "(u + i) mod 255 = (u + j) mod 255"
  then show ?thesis using le [of i j] le [of j i] by (cases "i \<le> j") auto
qed

lemma next_tags_distinct:
  assumes "n \<le> 255"
  shows "distinct (map (\<lambda>i. (next_tag ^^ Suc i) t) [0..<n])"
proof -
  have "i = j" if "i < 255" "j < 255" "(next_tag ^^ Suc i) t = (next_tag ^^ Suc j) t" for i j
  proof -
    have "(unat t + i) mod 255 = (unat t + j) mod 255"
      using unat_next_tags [of i t] unat_next_tags [of j t] that(3) by simp
    then show ?thesis by (rule mod_255_inj [OF that(1,2)])
  qed
  then show ?thesis using assms by (auto simp: distinct_map inj_on_def)
qed


section \<open>Packets\<close>

text \<open>Sending a list of packets; the result is the list of their tags.\<close>

fun client_sends :: "'h client_env \<Rightarrow> (u8 \<times> byte list) list \<Rightarrow> ('h client_base, u8 list) op" where
  "client_sends env [] = ret []"
| "client_sends env ((ep, payload) # rest) =
     bindE (client_sendPacket env ep payload) (\<lambda>tag.
       bindE (client_sends env rest) (\<lambda>tags. ret (tag # tags)))"

lemma client_sendPacket_ok:
  assumes "client_sendPacket env ep payload c = (Inr tag, c')"
  shows "tag = next_tag (cb_nextTag c)"
    and "c' = c\<lparr>cb_nextTag := tag, cb_written := cb_written c @ [(cb_fd c, client_packet ep tag payload)]\<rparr>"
  using assms
  by (auto simp: client_sendPacket_def sendRaw_def Let_def bindE_def split: option.splits)

lemma client_sends_ok:
  "client_sends env ps c = (Inr tags, c') \<Longrightarrow>
     tags = map (\<lambda>i. (next_tag ^^ Suc i) (cb_nextTag c)) [0..<length ps]
   \<and> cb_written c' = cb_written c
       @ map (\<lambda>((ep, payload), tag). (cb_fd c, client_packet ep tag payload)) (zip ps tags)"
proof (induction ps arbitrary: c tags)
  case (Cons p ps)
  obtain ep payload where p: "p = (ep, payload)" by fastforce
  from Cons.prems obtain tag c1 tags' where
    1: "client_sendPacket env ep payload c = (Inr tag, c1)"
    and 2: "client_sends env ps c1 = (Inr tags', c')" and t: "tags = tag # tags'"
    unfolding p by (auto elim!: bindE_InrE)
  note s = client_sendPacket_ok [OF 1]
  have m: "map (\<lambda>i. (next_tag ^^ Suc i) x) [0..<length (p # ps)]
      = next_tag x # map (\<lambda>i. (next_tag ^^ Suc i) (next_tag x)) [0..<length ps]" for x
    by (simp only: list.size add_0_right upt_conv_Cons zero_less_Suc map_Suc_upt [symmetric] list.map
        map_map comp_def funpow_Suc_right o_apply add_Suc_right One_nat_def funpow_0)
  show ?case
    using Cons.IH [OF 2] s m [of "cb_nextTag c"] by (simp add: t p)
qed simp

lemma parse_client_packet:
  "\<exists>h. parse_header (client_packet ep tag payload) = Some h \<and> hdr_endpoint h = ep \<and> hdr_tag h = tag
     \<and> drop sizeof_rpc_header (client_packet ep tag payload) = payload
     \<and> (unat (hdr_length h) = length (client_packet ep tag payload) \<longleftrightarrow> length payload < 65528)"
proof -
  have "unat (u16_of_size (sizeof_rpc_header + length payload)) = sizeof_rpc_header + length payload
        \<longleftrightarrow> length payload < 65528"
    by (simp add: unat_u16_of_size_eq_iff sizeof_rpc_header_def)
  then show ?thesis by (simp add: client_packet_def)
qed


section \<open>The properties\<close>

text \<open>A client whose subclass keeps the list of the messages it was handed, on descriptor 5.\<close>

definition demo_client_env :: "(rpc_header \<times> cbor_item option) list client_env" where
  "demo_client_env = \<lparr>
     cl_lib = \<lparr>cbor_load = (\<lambda>bs. if bs = [1] then Some (CUint (CInt8 1)) else None),
        cbor_serialize = (\<lambda>_. [1]), ctrl_as_bool = (\<lambda>_. False), float_widen = (\<lambda>_. 0), float_narrow = (\<lambda>_. 0)\<rparr>,
     cl_message = (\<lambda>h m s. (Inr (), s @ [(h, m)])),
     cl_closed = ret (), cl_io_error = (\<lambda>_. ret ()), cl_after_rx = [], cl_drain_ok = True,
     cl_write = (\<lambda>_ _. None)\<rparr>"

definition demo_pl_client :: "(rpc_header \<times> cbor_item option) list client_base" where
  "demo_pl_client = \<lparr>cb_fd = 5, cb_bev = True, cb_nextTag = 254, cb_rxBuf = [], cb_self = [],
     cb_fds = [5], cb_written = []\<rparr>"

text \<open>C34. Sending packets: each goes out as one write of a header and its payload, from which the
  receiver reads the endpoint, the tag and the payload, with a length field that is exact below
  65528 bytes of payload; no tag is zero, and up to 255 packets in a row have different tags, so
  that their replies can be told apart.\<close>

theorem client_packets:
  assumes "client_sends env ps c = (Inr tags, c')"
  shows "length tags = length ps \<and> 0 \<notin> set tags \<and> (length ps \<le> 255 \<longrightarrow> distinct tags)
    \<and> cb_written c' = cb_written c
        @ map (\<lambda>((ep, payload), tag). (cb_fd c, client_packet ep tag payload)) (zip ps tags)
    \<and> (\<forall>((ep, payload), tag) \<in> set (zip ps tags).
         \<exists>h. parse_header (client_packet ep tag payload) = Some h \<and> hdr_endpoint h = ep \<and> hdr_tag h = tag
           \<and> drop sizeof_rpc_header (client_packet ep tag payload) = payload
           \<and> (unat (hdr_length h) = length (client_packet ep tag payload) \<longleftrightarrow> length payload < 65528))"
proof -
  note s = client_sends_ok [OF assms]
  have "0 \<notin> set tags" using s by (auto simp: o_def next_tag_nonzero dest: sym)
  moreover have "distinct tags" if "length ps \<le> 255" using s next_tags_distinct [OF that] by simp
  moreover have "length tags = length ps" using s by simp
  ultimately show ?thesis using s parse_client_packet by (simp add: case_prod_beta)
qed

lemma client_packets_witness:
  "\<exists>c'. client_sends demo_client_env [(1, [7]), (2, [])] demo_pl_client = (Inr [255, 1], c')
    \<and> cb_written c' = [(5, client_packet 1 255 [7]), (5, client_packet 2 1 [])] \<and> distinct [255, 1 :: u8]"
proof -
  have t: "next_tag 254 = 255" "next_tag 255 = 1"
    using unat_next_tag [of 254] unat_next_tag [of 255] by (auto intro!: word_eqI_unat)
  obtain c' where run: "client_sends demo_client_env [(1, [7]), (2, [])] demo_pl_client = (Inr [255, 1], c')"
    by (simp add: client_sendPacket_def sendRaw_def demo_client_env_def demo_pl_client_def bindE_def t Let_def)
  show ?thesis
    using client_packets [OF run] run by (auto simp: demo_pl_client_def)
qed

text \<open>C35. Receiving: when the pending bytes begin with a whole message, the subclass is handed its
  header and its decoded payload (nothing for an empty one), exactly once; what stands behind the
  first message in the same buffer is taken from the connection and lost.\<close>

theorem client_reads_first_message:
  assumes "cl_drain_ok env" and "hdr_version h = kRpcVersionLatest"
    and "unat (hdr_length h) = sizeof_rpc_header + length payload"
    and "payload = [] \<and> msg = None \<or> payload \<noteq> [] \<and> cbor_load (cl_lib env) payload = Some item \<and> msg = Some item"
    and "cl_message env h msg (cb_self c) = (Inr (), self')"
  shows "on_read env (header_bytes h @ payload @ behind) c
    = (Inr (), c\<lparr>cb_rxBuf := header_bytes h @ payload @ behind, cb_self := self'\<rparr>)"
proof -
  have "sizeof_rpc_header \<le> unat (hdr_length h)" using assms(3) by simp
  moreover have "take (unat (hdr_length h) - sizeof_rpc_header)
      (drop sizeof_rpc_header ((header_bytes h @ payload @ behind) @ cl_after_rx env)) = payload"
    using assms(3) by simp
  ultimately have "bevRead env (header_bytes h @ payload @ behind) c
      = handleIncomingMessageRaw env h payload (c\<lparr>cb_rxBuf := header_bytes h @ payload @ behind\<rparr>)"
    using assms(1,2) by (simp add: bevRead_def Let_def del: append_assoc)
  with assms(4,5) show ?thesis
    by (auto simp: on_read_def client_catching_def handleIncomingMessageRaw_def on_self_def)
qed

lemma client_reads_first_message_witness:
  "on_read demo_client_env
     (header_bytes \<lparr>hdr_version = kRpcVersionLatest, hdr_length = 9, hdr_endpoint = 3, hdr_tag = 4,
        hdr_flags = 2, hdr_reserved = 0\<rparr> @ [1] @ [9, 9]) demo_pl_client
   = (Inr (), demo_pl_client\<lparr>
       cb_rxBuf := header_bytes \<lparr>hdr_version = kRpcVersionLatest, hdr_length = 9, hdr_endpoint = 3,
          hdr_tag = 4, hdr_flags = 2, hdr_reserved = 0\<rparr> @ [1] @ [9, 9],
       cb_self := [(\<lparr>hdr_version = kRpcVersionLatest, hdr_length = 9, hdr_endpoint = 3, hdr_tag = 4,
          hdr_flags = 2, hdr_reserved = 0\<rparr>, Some (CUint (CInt8 1)))]\<rparr>)"
  by (rule client_reads_first_message [where msg = "Some (CUint (CInt8 1))" and item = "CUint (CInt8 1)"])
    (simp_all add: demo_client_env_def demo_pl_client_def sizeof_rpc_header_def)

text \<open>C36. Behind the end of the connection the client works on descriptor 0: it forgets its own
  descriptor, which stays open; what it sends is written to descriptor 0, and its destructor closes
  descriptor 0.\<close>

theorem client_after_end:
  assumes "flags AND BEV_EVENT_EOF \<noteq> 0" and "cl_closed env (cb_self c) = (Inr (), self')"
    and "cb_fd c \<in> set (cb_fds c)" and "cb_fd c \<noteq> 0"
  shows "\<exists>c'. on_event env flags c = (Inr (), c') \<and> cb_fd c' = 0 \<and> cb_fd c \<in> set (cb_fds c')
    \<and> cb_fd c \<in> set (cb_fds (ClientBase_delete c')) \<and> 0 \<notin> set (cb_fds (ClientBase_delete c'))
    \<and> (\<forall>ep payload. cl_write env 0 (client_packet ep (next_tag (cb_nextTag c)) payload) = None \<longrightarrow>
         (\<exists>c''. client_sendPacket env ep payload c' = (Inr (next_tag (cb_nextTag c)), c'')
            \<and> cb_written c'' = cb_written c @ [(0, client_packet ep (next_tag (cb_nextTag c)) payload)]))"
proof -
  let ?c' = "c\<lparr>cb_self := self', cb_fd := 0\<rparr>"
  have "on_event env flags c = (Inr (), ?c')"
    using assms(1,2) by (simp add: on_event_def client_catching_def bevEvent_def on_self_def bindE_def)
  then show ?thesis
    using assms(3,4)
    by (intro exI [of _ ?c'])
      (auto simp: ClientBase_delete_def client_closes_def Let_def client_sendPacket_def sendRaw_def bindE_def)
qed

lemma client_after_end_witness:
  "\<exists>c'. on_event demo_client_env 0x11 demo_pl_client = (Inr (), c') \<and> cb_fd c' = 0
    \<and> 5 \<in> set (cb_fds (ClientBase_delete c'))"
proof -
  have "(0x11 :: u32) AND BEV_EVENT_EOF \<noteq> 0" by (simp add: BEV_EVENT_EOF_def)
  from client_after_end [OF this, of demo_client_env demo_pl_client "[]"]
  show ?thesis by (auto simp: demo_client_env_def demo_pl_client_def)
qed

section \<open>What the constructor leaves open\<close>

text \<open>A connection that fails leaves no descriptor behind; a failure behind it leaves one, which no
  destructor closes. A null pointer for the event loop is followed before it is checked.\<close>

lemma connectSocket_no_leak:
  assumes "connectSocket env path c = (Inl e, c')" and "\<forall>fd. ce_socket env = Inr fd \<longrightarrow> fd \<notin> set (cb_fds c)"
  shows "cb_fds c' = cb_fds c"
  using assms
  by (auto simp: connectSocket_def client_closes_def Let_def filter_id_conv split: sum.splits option.splits)

lemma ClientBase_new_leaks:
  assumes "connectSocket env path c = (Inr fd, c1)" and "path \<noteq> ''''" and "\<not> ce_bev env \<or> \<not> ce_enable env"
  shows "\<exists>e c'. ClientBase_new env True path c = (Inl e, c') \<and> is_std_exception e \<and> cb_fds c' = fd # cb_fds c"
  using assms
  by (auto simp: ClientBase_new_def connectSocket_def Let_def bindE_def split: sum.splits option.splits)

lemma ClientBase_new_null_loop: "\<exists>e. ClientBase_new env False path c = (Inl e, c) \<and> \<not> is_std_exception e"
  by (simp add: ClientBase_new_def)

text \<open>So a client that is made without a loop, on a thread that has not armed one or has destroyed the
  one it armed, is undefined; a loop that is armed is the one it uses.\<close>

lemma ClientBase_without_loop:
  "EventLoop_Current t = None \<Longrightarrow> \<exists>e. ClientBase_current env t path c = (Inl e, c) \<and> \<not> is_std_exception e"
  "th_loops t a = Some l \<Longrightarrow>
   ClientBase_current env (EventLoop_arm a t) path c = ClientBase_new env True path c"
  using ClientBase_new_null_loop Current_is_last(1) by (simp_all add: ClientBase_current_def)

lemma ClientBase_after_delete:
  assumes "EventLoop_Current t = Some a" and "thread_delete a t = (Inr (), t')"
  shows "\<exists>e. ClientBase_current env t' path c = (Inl e, c) \<and> \<not> is_std_exception e"
  using Current_after_delete [OF assms(2)] assms(1) ClientBase_without_loop(1) by simp

text \<open>A client with the default handlers is not told that its connection has ended: the callback for an
  error leaves everything as it was, and the one for the end only replaces the descriptor.\<close>

lemma default_handlers:
  assumes "cl_closed env = handleConnectionClosed" and "cl_io_error env = handleIoError"
  shows "bevEvent env flags c =
    (Inr (), if flags AND BEV_EVENT_EOF \<noteq> 0 then c\<lparr>cb_fd := 0\<rparr> else c)"
  using assms
  by (simp add: bevEvent_def handleConnectionClosed_def handleIoError_def on_self_def bindE_app)

end
