(* ===== verification/Srm_Msg.thy ===== *)
theory Srm_Msg
  imports Confd_Prelude
begin

text \<open>
  The messages of the remoteproc system resource manager, \<open>rproc_srm_core.h\<close> of the kernel: their
  layout in memory, the two views of the union, and the string functions of the kernel the driver
  reads them with. A message is what the coprocessor has put into the buffer of the rpmsg channel;
  the driver reads it in place and never looks at the length of what has arrived.
\<close>

section \<open>Little-endian words\<close>

definition le32_bytes :: "u32 \<Rightarrow> byte list" where
  "le32_bytes w = [ucast w, ucast (drop_bit 8 w), ucast (drop_bit 16 w), ucast (drop_bit 24 w)]"

definition le32_word :: "byte \<Rightarrow> byte \<Rightarrow> byte \<Rightarrow> byte \<Rightarrow> u32" where
  "le32_word b0 b1 b2 b3 =
     or (or (ucast b0) (push_bit 8 (ucast b1))) (or (push_bit 16 (ucast b2)) (push_bit 24 (ucast b3)))"

text \<open>The word at an offset of a struct; the structs here are long enough for every offset.\<close>

definition le32_at :: "byte list \<Rightarrow> nat \<Rightarrow> u32" where
  "le32_at bs i = le32_word (bs ! i) (bs ! (i + 1)) (bs ! (i + 2)) (bs ! (i + 3))"

lemma length_le32_bytes [simp]: "length (le32_bytes w) = 4"
  by (simp add: le32_bytes_def)

lemma bit_le32_word:
  "bit (le32_word b0 b1 b2 b3) n \<longleftrightarrow>
     (if n < 8 then bit b0 n else if n < 16 then bit b1 (n - 8)
      else if n < 24 then bit b2 (n - 16) else n < 32 \<and> bit b3 (n - 24))"
  by (auto simp: le32_word_def bit_simps dest: bit_imp_le_length)

lemma le32_word_bytes [simp]:
  "le32_word (ucast w) (ucast (drop_bit 8 w)) (ucast (drop_bit 16 w)) (ucast (drop_bit 24 w)) = w"
  by (rule bit_word_eqI) (auto simp: bit_le32_word bit_simps)

lemma le32_bytes_word [simp]: "le32_bytes (le32_word b0 b1 b2 b3) = [b0, b1, b2, b3]"
  by (auto simp: le32_bytes_def intro!: bit_word_eqI)
     (auto simp: bit_le32_word bit_simps dest: bit_imp_le_length)

section \<open>Messages\<close>

definition RPROC_SRM_MSG_GETCONFIG :: u32 where "RPROC_SRM_MSG_GETCONFIG = 0x00"
definition RPROC_SRM_MSG_SETCONFIG :: u32 where "RPROC_SRM_MSG_SETCONFIG = 0x01"
definition RPROC_SRM_MSG_ERROR :: u32 where "RPROC_SRM_MSG_ERROR = 0xFF"
definition RPROC_SRM_RSC_CLOCK :: u32 where "RPROC_SRM_RSC_CLOCK = 0x00"
definition RPROC_SRM_RSC_REGU :: u32 where "RPROC_SRM_RSC_REGU = 0x01"

lemmas srm_constants = RPROC_SRM_MSG_GETCONFIG_def RPROC_SRM_MSG_SETCONFIG_def
  RPROC_SRM_MSG_ERROR_def RPROC_SRM_RSC_CLOCK_def RPROC_SRM_RSC_REGU_def

record clock_cfg =
  cc_index :: u32
  cc_name :: "byte list"
  cc_rate :: u32

record regu_cfg =
  rc_index :: u32
  rc_name :: "byte list"
  rc_enable :: u32
  rc_curr_voltage_mv :: u32
  rc_min_voltage_mv :: u32
  rc_max_voltage_mv :: u32

text \<open>The union of the two configurations is kept as its 36 bytes.\<close>

record rpmsg_srm_msg =
  ms_message_type :: u32
  ms_device_id :: "byte list"
  ms_rsc_type :: u32
  ms_cfg :: "byte list"

definition sizeof_clock_cfg :: nat where "sizeof_clock_cfg = 24"
definition sizeof_regu_cfg :: nat where "sizeof_regu_cfg = 36"
definition sizeof_rpmsg_srm_msg :: nat where "sizeof_rpmsg_srm_msg = 76"

lemmas srm_sizes = sizeof_clock_cfg_def sizeof_regu_cfg_def sizeof_rpmsg_srm_msg_def

text \<open>The cast of the receive buffer: defined when the memory holds a whole message.\<close>

definition msg_of_memory :: "byte list \<Rightarrow> rpmsg_srm_msg option" where
  "msg_of_memory mem =
     (if length mem < sizeof_rpmsg_srm_msg then None
      else Some \<lparr>ms_message_type = le32_at mem 0, ms_device_id = take 32 (drop 4 mem),
                 ms_rsc_type = le32_at mem 36, ms_cfg = take sizeof_regu_cfg (drop 40 mem)\<rparr>)"

definition msg_bytes :: "rpmsg_srm_msg \<Rightarrow> byte list" where
  "msg_bytes m = le32_bytes (ms_message_type m) @ ms_device_id m @ le32_bytes (ms_rsc_type m) @ ms_cfg m"

definition wf_msg :: "rpmsg_srm_msg \<Rightarrow> bool" where
  "wf_msg m \<longleftrightarrow> length (ms_device_id m) = 32 \<and> length (ms_cfg m) = sizeof_regu_cfg"

text \<open>Reading and writing the union as either of its members; writing the shorter one leaves the
  rest of the union as it was.\<close>

definition clock_cfg_of :: "byte list \<Rightarrow> clock_cfg" where
  "clock_cfg_of u = \<lparr>cc_index = le32_at u 0, cc_name = take 16 (drop 4 u), cc_rate = le32_at u 20\<rparr>"

definition put_clock_cfg :: "clock_cfg \<Rightarrow> byte list \<Rightarrow> byte list" where
  "put_clock_cfg c u =
     le32_bytes (cc_index c) @ cc_name c @ le32_bytes (cc_rate c) @ drop sizeof_clock_cfg u"

definition regu_cfg_of :: "byte list \<Rightarrow> regu_cfg" where
  "regu_cfg_of u =
     \<lparr>rc_index = le32_at u 0, rc_name = take 16 (drop 4 u), rc_enable = le32_at u 20,
      rc_curr_voltage_mv = le32_at u 24, rc_min_voltage_mv = le32_at u 28,
      rc_max_voltage_mv = le32_at u 32\<rparr>"

definition put_regu_cfg :: "regu_cfg \<Rightarrow> byte list \<Rightarrow> byte list" where
  "put_regu_cfg c u =
     le32_bytes (rc_index c) @ rc_name c @ le32_bytes (rc_enable c)
     @ le32_bytes (rc_curr_voltage_mv c) @ le32_bytes (rc_min_voltage_mv c)
     @ le32_bytes (rc_max_voltage_mv c) @ drop sizeof_regu_cfg u"

lemma le32_at_bytes [simp]: "length p = i \<Longrightarrow> le32_at (p @ le32_bytes w @ r) i = w"
  by (auto simp: le32_at_def le32_bytes_def nth_append)

lemma le32_at_bytes_0 [simp]: "le32_at (le32_bytes w @ r) 0 = w" "le32_at (le32_bytes w) 0 = w"
  using le32_at_bytes [of "[]" 0 w r] le32_at_bytes [of "[]" 0 w "[]"] by simp_all

lemma msg_of_memory_bytes [simp]: "wf_msg m \<Longrightarrow> msg_of_memory (msg_bytes m @ r) = Some m"
  using le32_at_bytes [of "le32_bytes (ms_message_type m) @ ms_device_id m" 36
      "ms_rsc_type m" "ms_cfg m @ r"]
  by (simp add: msg_of_memory_def msg_bytes_def wf_msg_def srm_sizes)

lemma wf_msg_of_memory: "msg_of_memory mem = Some m \<Longrightarrow> wf_msg m"
  by (auto simp: msg_of_memory_def wf_msg_def srm_sizes split: if_splits)

lemma clock_cfg_of_put [simp]:
  "length (cc_name c) = 16 \<Longrightarrow> clock_cfg_of (put_clock_cfg c u) = c"
  using le32_at_bytes [of "le32_bytes (cc_index c) @ cc_name c" 20 "cc_rate c"
      "drop sizeof_clock_cfg u"]
  by (simp add: clock_cfg_of_def put_clock_cfg_def)

lemma regu_cfg_of_put [simp]:
  assumes "length (rc_name c) = 16"
  shows "regu_cfg_of (put_regu_cfg c u) = c"
proof -
  let ?a = "le32_bytes (rc_index c) @ rc_name c"
  let ?b = "?a @ le32_bytes (rc_enable c)" and ?r = "drop sizeof_regu_cfg u"
  let ?c = "?b @ le32_bytes (rc_curr_voltage_mv c)"
  let ?d = "?c @ le32_bytes (rc_min_voltage_mv c)"
  have l: "length ?a = 20" "length ?b = 24" "length ?c = 28" "length ?d = 32"
    using assms by simp_all
  show ?thesis
    using le32_at_bytes [OF l(1), of "rc_enable c"] le32_at_bytes [OF l(2), of "rc_curr_voltage_mv c"]
      le32_at_bytes [OF l(3), of "rc_min_voltage_mv c"] le32_at_bytes [OF l(4), of "rc_max_voltage_mv c"]
      assms
    by (simp add: regu_cfg_of_def put_regu_cfg_def)
qed

lemma length_put_cfg [simp]:
  "length (cc_name c) = 16 \<Longrightarrow> length u = sizeof_regu_cfg \<Longrightarrow> length (put_clock_cfg c u) = sizeof_regu_cfg"
  "length (rc_name d) = 16 \<Longrightarrow> length u = sizeof_regu_cfg \<Longrightarrow> length (put_regu_cfg d u) = sizeof_regu_cfg"
  by (simp_all add: put_clock_cfg_def put_regu_cfg_def srm_sizes)

section \<open>Strings in memory\<close>

text \<open>\<open>strcmp(s, mem) == 0\<close>, with a proper string \<open>s\<close> and memory that may lack a terminator: the
  comparison reads on as long as the two agree.\<close>

fun strcmp_eq :: "string \<Rightarrow> byte list \<Rightarrow> exn + bool" where
  "strcmp_eq s [] = Inl (Undefined ''strcmp'')"
| "strcmp_eq [] (b # bs) = Inr (b = 0)"
| "strcmp_eq (c # s) (b # bs) = (if of_char c = b then strcmp_eq s bs else Inr False)"

text \<open>\<open>strstr\<close> as the position of the first occurrence; the needle is measured first.\<close>

fun strstr_at :: "string \<Rightarrow> string \<Rightarrow> nat option" where
  "strstr_at [] n = (if n = [] then Some 0 else None)"
| "strstr_at (c # h) n = (if prefix n (c # h) then Some 0 else map_option Suc (strstr_at h n))"

definition strstr_mem :: "string \<Rightarrow> byte list \<Rightarrow> exn + bool" where
  "strstr_mem h mem =
     (case read_c_str (string_of_bytes mem) of
        None \<Rightarrow> Inl (Undefined ''strstr'')
      | Some n \<Rightarrow> Inr (strstr_at h n \<noteq> None))"

lemma strstr_at_iff: "strstr_at h n \<noteq> None \<longleftrightarrow> sublist n h"
  by (induction h) (auto simp: sublist_Cons_right)

lemma strstr_at_Some:
  "strstr_at h n = Some i \<Longrightarrow> i + length n \<le> length h \<and> take (length n) (drop i h) = n"
proof (induction h arbitrary: i)
  case (Cons c h)
  show ?case
  proof (cases "prefix n (c # h)")
    case True
    with Cons.prems have "i = 0" by simp
    moreover from True obtain zs where "c # h = n @ zs" by (auto simp: prefix_def)
    ultimately show ?thesis by simp
  next
    case False
    with Cons show ?thesis by auto
  qed
qed (auto split: if_splits)

lemma of_char_NUL: "(of_char c :: byte) = 0 \<longleftrightarrow> c = NUL"
proof
  assume "(of_char c :: byte) = 0"
  then have "unat (of_char c :: byte) = unat (0 :: byte)" by simp
  then have "(of_char c :: nat) = of_char NUL" by (simp add: unat_of_char NUL_def)
  then show "c = NUL" by (simp only: of_char_eq_iff)
qed (simp add: NUL_def)

lemma strcmp_eq_terminated:
  "NUL \<notin> set s \<Longrightarrow> NUL \<notin> set t \<Longrightarrow> strcmp_eq s (bytes_of_string t @ 0 # r) = Inr (s = t)"
proof (induction s arbitrary: t)
  case Nil
  then show ?case by (cases t) (auto simp: bytes_of_string_def of_char_NUL)
next
  case (Cons c s)
  then show ?case
    by (cases t) (auto simp: bytes_of_string_def of_char_NUL dest: arg_cong [of _ _ unat] simp: unat_of_char)
qed

end
