(* ===== verification/Srm_Dev.thy ===== *)
theory Srm_Dev
  imports Srm_Msg
begin

text \<open>
  The resource device of the remoteproc system resource manager, \<open>rproc_srm_dev.c\<close>: the clocks, the
  regulators and the interrupts a coprocessor uses, how they are acquired and released, switched on
  and off, and changed on the coprocessor's request.

  The rest of the kernel is the parameter \<open>srm_kernel\<close>. Every call of it that has an effect is
  recorded in a log, newest first, and every answer may depend on the log, so that the kernel can
  answer differently each time. What the driver holds (references, enable counts, registrations) is
  read off the log. The debug output is left out.
\<close>

section \<open>The kernel\<close>

type_synonym clk = nat
type_synonym regulator = nat

definition ENOMEM :: int where "ENOMEM = 12"
definition EINVAL :: int where "EINVAL = 22"
definition U32_MAX :: u32 where "U32_MAX = 0xFFFFFFFF"

datatype kcall =
    KAlloc bool
  | KStrdup bool
  | KClkGet nat "int + clk"
  | KClkPut clk
  | KClkEnable clk int
  | KClkDisable clk
  | KClkSetRate clk u32 int
  | KReguGet string "int + regulator"
  | KReguPut regulator
  | KReguEnable regulator int
  | KReguDisable regulator int
  | KReguSetVoltage regulator int int int
  | KIrqGet nat int
  | KIrqRequest int int
  | KIrqFlags int
  | KIrqDisable int
  | KIrqFree int
  | KSend "byte list" int
  | KNbRegister string int
  | KNbUnregister string int
  | KCompAdd string int
  | KCompDel string
  | KPopulate int
  | KDepopulate
  | KMatchAdd nat
  | KMasterAdd int
  | KMasterDel
  | KWait bool
  | KBindAll int
  | KUnbindAll
  | KDriverRegister int
  | KDriverUnregister
  | KSubdevAdd
  | KProbe string int
  | KRemove string
  | KDevBind string int
  | KDevUnbind string
type_synonym klog = "kcall list"

text \<open>
  An \<open>ERR_PTR\<close> is an \<open>Inl\<close>. The fields on the device tree describe the node of the device:
  the names of its properties in their order, and \<open>of_property_read_string_index\<close>.
\<close>

record srm_kernel =
  k_of_node :: bool
  k_prop_names :: "string list"
  k_string_index :: "string \<Rightarrow> nat \<Rightarrow> string option"
  k_kzalloc :: "klog \<Rightarrow> bool"
  k_kstrdup :: "klog \<Rightarrow> bool"
  k_clk_parent_count :: "klog \<Rightarrow> int"
  k_clk_get :: "klog \<Rightarrow> nat \<Rightarrow> int + clk"
  k_clk_get_parent :: "klog \<Rightarrow> clk \<Rightarrow> clk"
  k_clk_prepare_enable :: "klog \<Rightarrow> clk \<Rightarrow> int"
  k_clk_get_rate :: "klog \<Rightarrow> clk \<Rightarrow> u32"
  k_clk_set_rate :: "klog \<Rightarrow> clk \<Rightarrow> u32 \<Rightarrow> int"
  k_regu_get :: "klog \<Rightarrow> string \<Rightarrow> int + regulator"
  k_regu_is_enabled :: "klog \<Rightarrow> regulator \<Rightarrow> bool"
  k_regu_enable :: "klog \<Rightarrow> regulator \<Rightarrow> int"
  k_regu_disable :: "klog \<Rightarrow> regulator \<Rightarrow> int"
  k_regu_set_voltage :: "klog \<Rightarrow> regulator \<Rightarrow> int \<Rightarrow> int \<Rightarrow> int"
  k_regu_get_voltage :: "klog \<Rightarrow> regulator \<Rightarrow> int"
  k_irq_count :: "klog \<Rightarrow> int"
  k_get_irq :: "klog \<Rightarrow> nat \<Rightarrow> int"
  k_request_irq :: "klog \<Rightarrow> int \<Rightarrow> int"
  k_strscpy :: "byte list \<Rightarrow> string \<Rightarrow> byte list"
  k_stack :: "byte list"
  k_rpmsg_send :: "klog \<Rightarrow> byte list \<Rightarrow> int"
  k_nb_register :: "klog \<Rightarrow> string \<Rightarrow> int"
  k_nb_unregister :: "klog \<Rightarrow> string \<Rightarrow> int"
  k_component_add :: "klog \<Rightarrow> string \<Rightarrow> int"
  k_del_unbinds :: "klog \<Rightarrow> bool"

text \<open>\<open>devm_kstrdup\<close>, whose result the driver does not always check.\<close>

definition kstrdup :: "srm_kernel \<Rightarrow> string \<Rightarrow> klog \<Rightarrow> string option \<times> klog" where
  "kstrdup k s l = (let ok = k_kstrdup k l in (if ok then Some s else None, KStrdup ok # l))"

section \<open>The state of a device\<close>

record clk_info =
  ci_index :: u32
  ci_clk :: clk
  ci_name :: "string option"
  ci_parent_enabled :: bool

record regu_info =
  ri_index :: u32
  ri_regu :: regulator
  ri_name :: string
  ri_enabled :: bool

record irq_info =
  ii_index :: u32
  ii_name :: "string option"
  ii_irq :: int

record srm_dev =
  dv_name :: string
  dv_early_boot :: bool
  dv_clks :: "clk_info list"
  dv_regus :: "regu_info list"
  dv_irqs :: "irq_info list"

type_synonym dev_state = "srm_dev \<times> klog"

section \<open>Interrupts\<close>

definition irqs_put :: "dev_state \<Rightarrow> dev_state" where
  "irqs_put = (\<lambda>(d, l). (d\<lparr>dv_irqs := []\<rparr>, rev (map (\<lambda>i. KIrqFree (ii_irq i)) (dv_irqs d)) @ l))"

text \<open>The rounds \<open>i, i + 1, \<dots>\<close> of the loop; the second argument counts those left.\<close>

fun irqs_get_loop :: "srm_kernel \<Rightarrow> nat \<Rightarrow> nat \<Rightarrow> dev_state \<Rightarrow> int \<times> dev_state" where
  "irqs_get_loop k i 0 s = (0, s)"
| "irqs_get_loop k i (Suc n) (d, l) =
     (let ok = k_kzalloc k l; l1 = KAlloc ok # l in
      if \<not> ok then (- ENOMEM, irqs_put (d, l1))
      else let irq = k_get_irq k l1 i; l2 = KIrqGet i irq # l1 in
      if irq \<le> 0 then (irq, irqs_put (d, l2))
      else let r = k_request_irq k l2 irq; l3 = KIrqRequest irq r # l2 in
      if r \<noteq> 0 then (r, irqs_put (d, l3))
      else case kstrdup k (case k_string_index k ''interrupt-names'' i of Some nm \<Rightarrow> nm | None \<Rightarrow> [])
                  (KIrqDisable irq # KIrqFlags irq # l3) of
        (nm, l4) \<Rightarrow>
          irqs_get_loop k (Suc i) n
            (d\<lparr>dv_irqs := dv_irqs d @ [\<lparr>ii_index = of_nat i, ii_name = nm, ii_irq = irq\<rparr>]\<rparr>, l4))"

text \<open>The counter is unsigned, so that a negative number of interrupts is a very large one.\<close>

definition irqs_get :: "srm_kernel \<Rightarrow> dev_state \<Rightarrow> int \<times> dev_state" where
  "irqs_get k = (\<lambda>(d, l).
     if \<not> k_of_node k then (0, d, l)
     else let nr = k_irq_count k l in
     if nr = 0 \<or> dv_early_boot d then (0, d, l)
     else irqs_get_loop k 0 (unat (word_of_int nr :: u32)) (d, l))"

section \<open>Clocks\<close>

fun clocks_unsetup_loop :: "srm_kernel \<Rightarrow> clk_info list \<Rightarrow> klog \<Rightarrow> clk_info list \<times> klog" where
  "clocks_unsetup_loop k [] l = ([], l)"
| "clocks_unsetup_loop k (c # cs) l =
     (if \<not> ci_parent_enabled c
      then case clocks_unsetup_loop k cs l of (cs', l') \<Rightarrow> (c # cs', l')
      else case clocks_unsetup_loop k cs (KClkDisable (k_clk_get_parent k l (ci_clk c)) # l) of
             (cs', l') \<Rightarrow> (c\<lparr>ci_parent_enabled := False\<rparr> # cs', l'))"

definition clocks_unsetup :: "srm_kernel \<Rightarrow> dev_state \<Rightarrow> dev_state" where
  "clocks_unsetup k = (\<lambda>(d, l).
     case clocks_unsetup_loop k (dv_clks d) l of (cs, l') \<Rightarrow> (d\<lparr>dv_clks := cs\<rparr>, l'))"

text \<open>The loop of \<open>clocks_setup\<close>: \<open>pre\<close> are the entries before the current one.\<close>

fun clocks_setup_loop ::
  "srm_kernel \<Rightarrow> clk_info list \<Rightarrow> clk_info list \<Rightarrow> dev_state \<Rightarrow> int \<times> dev_state" where
  "clocks_setup_loop k pre [] (d, l) = (0, d\<lparr>dv_clks := pre\<rparr>, l)"
| "clocks_setup_loop k pre (c # cs) (d, l) =
     (if ci_parent_enabled c then clocks_setup_loop k (pre @ [c]) cs (d, l)
      else let p = k_clk_get_parent k l (ci_clk c);
               r = k_clk_prepare_enable k l p;
               l1 = KClkEnable p r # l in
      if r \<noteq> 0 then (r, clocks_unsetup k (d\<lparr>dv_clks := pre @ c # cs\<rparr>, l1))
      else clocks_setup_loop k (pre @ [c\<lparr>ci_parent_enabled := True\<rparr>]) cs (d, l1))"

definition clocks_setup :: "srm_kernel \<Rightarrow> dev_state \<Rightarrow> int \<times> dev_state" where
  "clocks_setup k = (\<lambda>(d, l). clocks_setup_loop k [] (dv_clks d) (d, l))"

text \<open>The entry a configuration means, as its position in the list; \<open>mem\<close> is the memory from the
  name of the configuration on.\<close>

fun clock_find :: "clk_info list \<Rightarrow> u32 \<Rightarrow> byte list \<Rightarrow> exn + nat option" where
  "clock_find [] ix mem = Inr None"
| "clock_find (c # cs) ix mem =
     bindS (if ix \<noteq> U32_MAX then Inr (ci_index c = ix)
            else case ci_name c of None \<Rightarrow> Inl (Undefined ''strcmp'') | Some s \<Rightarrow> strcmp_eq s mem)
       (\<lambda>found. if found then Inr (Some 0)
                else bindS (clock_find cs ix mem) (\<lambda>p. Inr (map_option Suc p)))"

definition clock_set_cfg :: "srm_kernel \<Rightarrow> clock_cfg \<Rightarrow> byte list \<Rightarrow> (dev_state, int) op" where
  "clock_set_cfg k cfg mem = (\<lambda>(d, l).
     case clock_find (dv_clks d) (cc_index cfg) mem of
       Inl e \<Rightarrow> (Inl e, d, l)
     | Inr None \<Rightarrow> (Inr (- EINVAL), d, l)
     | Inr (Some p) \<Rightarrow>
         let c = ci_clk (dv_clks d ! p) in
         if cc_rate cfg \<noteq> 0 \<and> k_clk_get_rate k l c \<noteq> cc_rate cfg
         then let r = k_clk_set_rate k l c (cc_rate cfg)
              in (Inr r, d, KClkSetRate c (cc_rate cfg) r # l)
         else (Inr 0, d, l))"

text \<open>The result is the return value and what \<open>*cfg\<close> is then.\<close>

definition clock_get_cfg ::
  "srm_kernel \<Rightarrow> clock_cfg \<Rightarrow> byte list \<Rightarrow> (dev_state, int \<times> clock_cfg) op" where
  "clock_get_cfg k cfg mem = (\<lambda>(d, l).
     (case clock_find (dv_clks d) (cc_index cfg) mem of
        Inl e \<Rightarrow> Inl e
      | Inr None \<Rightarrow> Inr (- EINVAL, cfg)
      | Inr (Some p) \<Rightarrow>
          let c = dv_clks d ! p in
          (case ci_name c of
             None \<Rightarrow> Inl (Undefined ''strscpy'')
           | Some s \<Rightarrow> Inr (0, \<lparr>cc_index = ci_index c, cc_name = k_strscpy k (cc_name cfg) s,
                               cc_rate = k_clk_get_rate k l (ci_clk c)\<rparr>)), d, l))"

definition clocks_put :: "dev_state \<Rightarrow> dev_state" where
  "clocks_put = (\<lambda>(d, l). (d\<lparr>dv_clks := []\<rparr>, rev (map (\<lambda>c. KClkPut (ci_clk c)) (dv_clks d)) @ l))"

fun clocks_get_loop :: "srm_kernel \<Rightarrow> nat \<Rightarrow> nat \<Rightarrow> dev_state \<Rightarrow> int \<times> dev_state" where
  "clocks_get_loop k i 0 s = (0, s)"
| "clocks_get_loop k i (Suc n) (d, l) =
     (let ok = k_kzalloc k l; l1 = KAlloc ok # l in
      if \<not> ok then (- ENOMEM, clocks_put (d, l1))
      else let cl = k_clk_get k l1 i; l2 = KClkGet i cl # l1 in
      (case cl of
         Inl _ \<Rightarrow> (- ENOMEM, clocks_put (d, l2))
       | Inr c \<Rightarrow>
           (case kstrdup k (case k_string_index k ''clock-names'' i of Some nm \<Rightarrow> nm | None \<Rightarrow> []) l2 of
              (nm, l3) \<Rightarrow>
                clocks_get_loop k (Suc i) n
                  (d\<lparr>dv_clks := dv_clks d @
                      [\<lparr>ci_index = of_nat i, ci_clk = c, ci_name = nm, ci_parent_enabled = False\<rparr>]\<rparr>,
                   l3))))"

definition clocks_get :: "srm_kernel \<Rightarrow> dev_state \<Rightarrow> int \<times> dev_state" where
  "clocks_get k = (\<lambda>(d, l).
     if \<not> k_of_node k then (0, d, l)
     else let nb = k_clk_parent_count k l in
     if nb = 0 then (0, d, l)
     else clocks_get_loop k 0 (unat (word_of_int nb :: u32)) (d, l))"

section \<open>Regulators\<close>

fun regus_unsetup_loop :: "srm_kernel \<Rightarrow> regu_info list \<Rightarrow> klog \<Rightarrow> regu_info list \<times> klog" where
  "regus_unsetup_loop k [] l = ([], l)"
| "regus_unsetup_loop k (r # rs) l =
     (if \<not> ri_enabled r
      then case regus_unsetup_loop k rs l of (rs', l') \<Rightarrow> (r # rs', l')
      else let e = k_regu_disable k l (ri_regu r); l1 = KReguDisable (ri_regu r) e # l in
      if e \<noteq> 0
      then case regus_unsetup_loop k rs l1 of (rs', l') \<Rightarrow> (r # rs', l')
      else case regus_unsetup_loop k rs l1 of (rs', l') \<Rightarrow> (r\<lparr>ri_enabled := False\<rparr> # rs', l'))"

definition regus_unsetup :: "srm_kernel \<Rightarrow> dev_state \<Rightarrow> dev_state" where
  "regus_unsetup k = (\<lambda>(d, l).
     case regus_unsetup_loop k (dv_regus d) l of (rs, l') \<Rightarrow> (d\<lparr>dv_regus := rs\<rparr>, l'))"

fun regus_setup_loop ::
  "srm_kernel \<Rightarrow> regu_info list \<Rightarrow> regu_info list \<Rightarrow> dev_state \<Rightarrow> int \<times> dev_state" where
  "regus_setup_loop k pre [] (d, l) = (0, d\<lparr>dv_regus := pre\<rparr>, l)"
| "regus_setup_loop k pre (r # rs) (d, l) =
     (if ri_enabled r \<or> dv_early_boot d \<and> \<not> k_regu_is_enabled k l (ri_regu r)
      then regus_setup_loop k (pre @ [r]) rs (d, l)
      else let e = k_regu_enable k l (ri_regu r); l1 = KReguEnable (ri_regu r) e # l in
      if e \<noteq> 0 then (e, regus_unsetup k (d\<lparr>dv_regus := pre @ r # rs\<rparr>, l1))
      else regus_setup_loop k (pre @ [r\<lparr>ri_enabled := True\<rparr>]) rs (d, l1))"

definition regus_setup :: "srm_kernel \<Rightarrow> dev_state \<Rightarrow> int \<times> dev_state" where
  "regus_setup k = (\<lambda>(d, l). regus_setup_loop k [] (dv_regus d) (d, l))"

fun regu_find :: "regu_info list \<Rightarrow> u32 \<Rightarrow> byte list \<Rightarrow> exn + nat option" where
  "regu_find [] ix mem = Inr None"
| "regu_find (r # rs) ix mem =
     bindS (if ix \<noteq> U32_MAX then Inr (ri_index r = ix) else strcmp_eq (ri_name r) mem)
       (\<lambda>found. if found then Inr (Some 0)
                else bindS (regu_find rs ix mem) (\<lambda>p. Inr (map_option Suc p)))"

text \<open>The first part of \<open>regu_set_cfg\<close> switches the entry at position \<open>p\<close> on or off, the second sets
  the voltage; the millivolts are scaled in 32 bits and then read as \<open>int\<close>.\<close>

definition regu_switch :: "srm_kernel \<Rightarrow> nat \<Rightarrow> bool \<Rightarrow> dev_state \<Rightarrow> int \<times> dev_state" where
  "regu_switch k p on = (\<lambda>(d, l).
     let r = dv_regus d ! p in
     if \<not> ri_enabled r \<and> on
     then let e = k_regu_enable k l (ri_regu r); l1 = KReguEnable (ri_regu r) e # l in
          if e \<noteq> 0 then (e, d, l1)
          else (0, d\<lparr>dv_regus := (dv_regus d)[p := r\<lparr>ri_enabled := True\<rparr>]\<rparr>, l1)
     else if ri_enabled r \<and> \<not> on
     then let e = k_regu_disable k l (ri_regu r); l1 = KReguDisable (ri_regu r) e # l in
          if e \<noteq> 0 then (e, d, l1)
          else (0, d\<lparr>dv_regus := (dv_regus d)[p := r\<lparr>ri_enabled := False\<rparr>]\<rparr>, l1)
     else (0, d, l))"

definition microvolts :: "u32 \<Rightarrow> int" where
  "microvolts mv = sint (mv * 1000)"

definition regu_voltage :: "srm_kernel \<Rightarrow> nat \<Rightarrow> regu_cfg \<Rightarrow> dev_state \<Rightarrow> int \<times> dev_state" where
  "regu_voltage k p cfg = (\<lambda>(d, l).
     if rc_min_voltage_mv cfg \<noteq> 0 \<or> rc_max_voltage_mv cfg \<noteq> 0
     then let r = ri_regu (dv_regus d ! p);
              lo = microvolts (rc_min_voltage_mv cfg); hi = microvolts (rc_max_voltage_mv cfg);
              e = k_regu_set_voltage k l r lo hi
          in (e, d, KReguSetVoltage r lo hi e # l)
     else (0, d, l))"

definition regu_set_cfg :: "srm_kernel \<Rightarrow> regu_cfg \<Rightarrow> byte list \<Rightarrow> (dev_state, int) op" where
  "regu_set_cfg k cfg mem = (\<lambda>(d, l).
     case regu_find (dv_regus d) (rc_index cfg) mem of
       Inl e \<Rightarrow> (Inl e, d, l)
     | Inr None \<Rightarrow> (Inr (- EINVAL), d, l)
     | Inr (Some p) \<Rightarrow>
         (case regu_switch k p (rc_enable cfg \<noteq> 0) (d, l) of
            (e, s) \<Rightarrow> if e \<noteq> 0 then (Inr e, s)
                      else (case regu_voltage k p cfg s of (e', s') \<Rightarrow> (Inr e', s'))))"

definition regu_get_cfg ::
  "srm_kernel \<Rightarrow> regu_cfg \<Rightarrow> byte list \<Rightarrow> (dev_state, int \<times> regu_cfg) op" where
  "regu_get_cfg k cfg mem = (\<lambda>(d, l).
     (case regu_find (dv_regus d) (rc_index cfg) mem of
        Inl e \<Rightarrow> Inl e
      | Inr None \<Rightarrow> Inr (- EINVAL, cfg)
      | Inr (Some p) \<Rightarrow>
          let r = dv_regus d ! p; v = k_regu_get_voltage k l (ri_regu r) in
          Inr (0, \<lparr>rc_index = ri_index r, rc_name = k_strscpy k (rc_name cfg) (ri_name r),
                  rc_enable = (if ri_enabled r then 1 else 0),
                  rc_curr_voltage_mv = (if v < 0 then 0 else word_of_int (v div 1000)),
                  rc_min_voltage_mv = 0, rc_max_voltage_mv = 0\<rparr>), d, l))"

definition regus_put :: "dev_state \<Rightarrow> dev_state" where
  "regus_put = (\<lambda>(d, l). (d\<lparr>dv_regus := []\<rparr>, rev (map (\<lambda>r. KReguPut (ri_regu r)) (dv_regus d)) @ l))"

text \<open>The properties of the node whose name holds \<open>-supply\<close> behind its first character. The name of
  the supply is the name of the property without its last seven characters; the copy is written to
  before it is checked.\<close>

fun regus_get_loop :: "srm_kernel \<Rightarrow> string list \<Rightarrow> nat \<Rightarrow> (dev_state, int) op" where
  "regus_get_loop k [] nb s = (Inr 0, s)"
| "regus_get_loop k (p # ps) nb (d, l) =
     (if strstr_at p ''-supply'' \<in> {None, Some 0} then regus_get_loop k ps nb (d, l)
      else let ok = k_kzalloc k l; l1 = KAlloc ok # l in
      if \<not> ok then (Inr (- ENOMEM), regus_put (d, l1))
      else case kstrdup k p l1 of
        (None, l2) \<Rightarrow> (Inl (Undefined ''regus_get''), d, l2)
      | (Some nm, l2) \<Rightarrow>
          let nm' = take (length p - 7) nm; rg = k_regu_get k l2 nm'; l3 = KReguGet nm' rg # l2 in
          (case rg of
             Inl _ \<Rightarrow> (Inr (- EINVAL), regus_put (d, l3))
           | Inr r \<Rightarrow>
               regus_get_loop k ps (Suc nb)
                 (d\<lparr>dv_regus := dv_regus d @
                     [\<lparr>ri_index = of_nat nb, ri_regu = r, ri_name = nm', ri_enabled = False\<rparr>]\<rparr>, l3)))"

definition regus_get :: "srm_kernel \<Rightarrow> (dev_state, int) op" where
  "regus_get k = (\<lambda>s. if \<not> k_of_node k then (Inr 0, s) else regus_get_loop k (k_prop_names k) 0 s)"

section \<open>Requests\<close>

definition NOTIFY_DONE :: int where "NOTIFY_DONE = 0"
definition NOTIFY_STOP :: int where "NOTIFY_STOP = 0x8001"
definition NOTIFY_BAD :: int where "NOTIFY_BAD = 0x8002"

text \<open>\<open>rpmsg_srm_send\<close> of \<open>rproc_srm_core.c\<close>; it always sends the whole struct.\<close>

definition rpmsg_srm_send ::
  "(klog \<Rightarrow> byte list \<Rightarrow> int) \<Rightarrow> rpmsg_srm_msg \<Rightarrow> klog \<Rightarrow> int \<times> klog" where
  "rpmsg_srm_send rpmsg_send m l =
     (let r = rpmsg_send l (msg_bytes m) in (r, KSend (msg_bytes m) r # l))"

text \<open>
  The two nested switches of \<open>notify_cb\<close>: \<open>mem\<close> is the memory that starts with the message \<open>i\<close>, and
  \<open>o\<close> of the source is the copy of \<open>i\<close> on the stack; the result is \<open>ret\<close> and the copy.
\<close>

definition clock_reply :: "srm_kernel \<Rightarrow> rpmsg_srm_msg \<Rightarrow> (dev_state, int \<times> rpmsg_srm_msg) op" where
  "clock_reply k m =
     bindE (clock_get_cfg k (clock_cfg_of (ms_cfg m)) (drop 4 (ms_cfg m) @ k_stack k))
       (\<lambda>(r, cfg). ret (r, m\<lparr>ms_cfg := put_clock_cfg cfg (ms_cfg m)\<rparr>))"

definition regu_reply :: "srm_kernel \<Rightarrow> rpmsg_srm_msg \<Rightarrow> (dev_state, int \<times> rpmsg_srm_msg) op" where
  "regu_reply k m =
     bindE (regu_get_cfg k (regu_cfg_of (ms_cfg m)) (drop 4 (ms_cfg m) @ k_stack k))
       (\<lambda>(r, cfg). ret (r, m\<lparr>ms_cfg := put_regu_cfg cfg (ms_cfg m)\<rparr>))"

definition srm_request ::
  "srm_kernel \<Rightarrow> byte list \<Rightarrow> rpmsg_srm_msg \<Rightarrow> (dev_state, int \<times> rpmsg_srm_msg) op" where
  "srm_request k mem i =
     (if ms_message_type i = RPROC_SRM_MSG_SETCONFIG then
        if ms_rsc_type i = RPROC_SRM_RSC_CLOCK then
          bindE (clock_set_cfg k (clock_cfg_of (ms_cfg i)) (drop 44 mem))
            (\<lambda>r. if r = 0 then clock_reply k i else ret (r, i))
        else if ms_rsc_type i = RPROC_SRM_RSC_REGU then
          bindE (regu_set_cfg k (regu_cfg_of (ms_cfg i)) (drop 44 mem))
            (\<lambda>r. if r = 0 then regu_reply k i else ret (r, i))
        else ret (- EINVAL, i)
      else if ms_message_type i = RPROC_SRM_MSG_GETCONFIG then
        if ms_rsc_type i = RPROC_SRM_RSC_CLOCK then clock_reply k i
        else if ms_rsc_type i = RPROC_SRM_RSC_REGU then regu_reply k i
        else ret (- EINVAL, i)
      else ret (- EINVAL, i))"

definition notify_cb :: "srm_kernel \<Rightarrow> byte list \<Rightarrow> (dev_state, int) op" where
  "notify_cb k mem = (\<lambda>(d, l).
     case msg_of_memory mem of
       None \<Rightarrow> (Inl (Undefined ''notify_cb''), d, l)
     | Some i \<Rightarrow>
         (case strstr_mem (dv_name d) (drop 4 mem) of
            Inl e \<Rightarrow> (Inl e, d, l)
          | Inr match \<Rightarrow>
              if \<not> match then (Inr NOTIFY_DONE, d, l)
              else bindE (srm_request k mem i)
                (\<lambda>(r, m) (d', l').
                   case rpmsg_srm_send (k_rpmsg_send k) (if r \<noteq> 0 then m\<lparr>ms_message_type := RPROC_SRM_MSG_ERROR\<rparr> else m) l' of
                     (e, l'') \<Rightarrow> (Inr (if e \<noteq> 0 then NOTIFY_BAD else NOTIFY_STOP), d', l''))
                (d, l)))"

section \<open>The component\<close>

definition dev_unbind :: "srm_kernel \<Rightarrow> dev_state \<Rightarrow> dev_state" where
  "dev_unbind k s = clocks_unsetup k (regus_unsetup k s)"

definition dev_bind :: "srm_kernel \<Rightarrow> dev_state \<Rightarrow> int \<times> dev_state" where
  "dev_bind k s =
     (case clocks_setup k s of
        (r, s1) \<Rightarrow> if r \<noteq> 0 then (r, s1)
                   else (case regus_setup k s1 of (r', s2) \<Rightarrow> if r' \<noteq> 0 then (r', s2) else (0, s2)))"

text \<open>\<open>rproc_srm_core_register_notifier\<close> and its counterpart, of \<open>rproc_srm_core.c\<close>; the block is
  named after its device.\<close>

definition register_notifier :: "srm_kernel \<Rightarrow> string \<Rightarrow> klog \<Rightarrow> int \<times> klog" where
  "register_notifier k n l = (let r = k_nb_register k l n in (r, KNbRegister n r # l))"

definition unregister_notifier :: "srm_kernel \<Rightarrow> string \<Rightarrow> klog \<Rightarrow> int \<times> klog" where
  "unregister_notifier k n l = (let r = k_nb_unregister k l n in (r, KNbUnregister n r # l))"

text \<open>The labels of the error path: the driver releases what it has got.\<close>

definition err_get :: "dev_state \<Rightarrow> dev_state" where
  "err_get s = clocks_put (regus_put (irqs_put s))"

definition err_register :: "srm_kernel \<Rightarrow> dev_state \<Rightarrow> dev_state" where
  "err_register k = (\<lambda>(d, l). case unregister_notifier k (dv_name d) l of (_, l') \<Rightarrow> err_get (d, l'))"

text \<open>
  \<open>probe\<close> of the device with name \<open>n\<close>; \<open>detached\<close> says that the remote processor was running
  already. The result is the return value and the device as the driver data holds it, which is
  allocated but not set (\<open>None\<close>) when the probe fails before the end.
\<close>

definition dev_probe :: "srm_kernel \<Rightarrow> string \<Rightarrow> bool \<Rightarrow> klog \<Rightarrow> (exn + int \<times> srm_dev option) \<times> klog" where
  "dev_probe k n detached l =
     (let ok = k_kzalloc k l; l1 = KAlloc ok # l in
      if \<not> ok then (Inr (- ENOMEM, None), l1)
      else case clocks_get k (\<lparr>dv_name = n, dv_early_boot = detached, dv_clks = [], dv_regus = [],
                              dv_irqs = []\<rparr>, l1) of
        (r, s1) \<Rightarrow>
          if r \<noteq> 0 then (Inr (r, None), snd s1)
          else case regus_get k s1 of
            (Inl e, s2) \<Rightarrow> (Inl e, snd s2)
          | (Inr r2, s2) \<Rightarrow>
              if r2 \<noteq> 0 then (Inr (r2, None), snd (err_get s2))
              else case irqs_get k s2 of
                (r3, s3) \<Rightarrow>
                  if r3 \<noteq> 0 then (Inr (r3, None), snd (err_get s3))
                  else case register_notifier k n (snd s3) of
                    (r4, l4) \<Rightarrow>
                      if r4 \<noteq> 0 then (Inr (r4, None), snd (err_register k (fst s3, l4)))
                      else let r5 = k_component_add k l4 n
                           in (Inr (r5, Some (fst s3)), KCompAdd n r5 # l4))"

text \<open>\<open>component_del\<close> unbinds the device when it is bound, which is the component framework's answer
  \<open>k_del_unbinds\<close>. The framework then takes down the whole master: the unbinding of the other
  devices are callbacks of their own, which \<open>Srm_Core\<close> takes as calls.\<close>

definition dev_remove :: "srm_kernel \<Rightarrow> dev_state \<Rightarrow> dev_state" where
  "dev_remove k = (\<lambda>(d, l).
     case (if k_del_unbinds k l then dev_unbind k (d, KCompDel (dv_name d) # l)
           else (d, KCompDel (dv_name d) # l)) of
       (d1, l1) \<Rightarrow>
         (case unregister_notifier k (dv_name d1) l1 of
            (_, l2) \<Rightarrow> clocks_put (regus_put (irqs_put (d1, l2)))))"

end
