(* ===== verification/Srm_Core.thy ===== *)
theory Srm_Core
  imports Srm_Dev
begin

text \<open>
  The core of the remoteproc system resource manager, \<open>rproc_srm_core.c\<close>: it creates the resource
  devices of \<open>Srm_Dev\<close> before the coprocessor is started, waits until they are bound, takes the
  coprocessor's messages and passes them along the chain of notifiers.

  The driver core, the component framework and the notifier chain call back into the driver while
  the driver is in one of their functions. Which callbacks they make during a call, and in which
  order, is part of the parameter \<open>core_kernel\<close>: a list of calls that may depend on the log.
\<close>

section \<open>State and kernel\<close>

text \<open>\<open>co_devs\<close> are the devices that exist: a device whose probe failed has been freed.\<close>

record srm_core =
  co_all_bound :: bool
  co_bind_status :: int
  co_prepared :: int
  co_devs :: "string \<Rightarrow> srm_dev option"
  co_log :: klog

datatype dev_call = CProbe string | CRemove string | CBind string | CUnbind string

datatype core_call = CDev dev_call | CCoreBind | CCoreUnbind

record core_kernel =
  c_dev :: "string \<Rightarrow> srm_kernel"
  c_detached :: bool
  c_kzalloc :: "klog \<Rightarrow> bool"
  c_children :: "nat list"
  c_match_add :: "klog \<Rightarrow> bool"
  c_populate_calls :: "klog \<Rightarrow> dev_call list"
  c_populate :: "klog \<Rightarrow> int"
  c_depopulate_calls :: "klog \<Rightarrow> dev_call list"
  c_bind_calls :: "klog \<Rightarrow> dev_call list"
  c_bind_all :: "klog \<Rightarrow> int"
  c_unbind_calls :: "klog \<Rightarrow> dev_call list"
  c_master_add_calls :: "klog \<Rightarrow> core_call list"
  c_master_add :: "klog \<Rightarrow> int"
  c_wait_calls :: "klog \<Rightarrow> core_call list"
  c_master_del_calls :: "klog \<Rightarrow> core_call list"
  c_driver_register :: "klog \<Rightarrow> int"
  c_rpmsg_send :: "klog \<Rightarrow> byte list \<Rightarrow> int"
  c_call_chain :: "(string \<Rightarrow> (srm_core, int) op) \<Rightarrow> (srm_core, int) op"

definition log_call :: "kcall \<Rightarrow> (srm_core, unit) op" where
  "log_call e = (\<lambda>c. (Inr (), c\<lparr>co_log := e # co_log c\<rparr>))"

definition core_get :: "(srm_core \<Rightarrow> 'a) \<Rightarrow> (srm_core, 'a) op" where
  "core_get f = (\<lambda>c. (Inr (f c), c))"

definition core_put :: "(srm_core \<Rightarrow> srm_core) \<Rightarrow> (srm_core, unit) op" where
  "core_put f = (\<lambda>c. (Inr (), f c))"

abbreviation andthen :: "('s, 'a) op \<Rightarrow> ('s, 'b) op \<Rightarrow> ('s, 'b) op" where
  "andthen m m' \<equiv> bindE m (\<lambda>_. m')"

section \<open>Callbacks into the devices\<close>

text \<open>The driver data of a device that does not exist is dangling.\<close>

definition on_dev :: "string \<Rightarrow> (dev_state, 'a) op \<Rightarrow> (srm_core, 'a) op" where
  "on_dev n m = (\<lambda>c.
     case co_devs c n of
       None \<Rightarrow> (Inl (Undefined ''use after free''), c)
     | Some d \<Rightarrow> (case m (d, co_log c) of
         (r, d', l') \<Rightarrow> (r, c\<lparr>co_devs := (co_devs c)(n := Some d'), co_log := l'\<rparr>)))"

definition probe_call :: "core_kernel \<Rightarrow> string \<Rightarrow> (srm_core, unit) op" where
  "probe_call k n = (\<lambda>c.
     case dev_probe (c_dev k n) n (c_detached k) (co_log c) of
       (Inl e, l) \<Rightarrow> (Inl e, c\<lparr>co_log := l\<rparr>)
     | (Inr (r, d), l) \<Rightarrow>
         (Inr (), c\<lparr>co_devs := (co_devs c)(n := (if r = 0 then d else None)), co_log := KProbe n r # l\<rparr>))"

definition remove_call :: "core_kernel \<Rightarrow> string \<Rightarrow> (srm_core, unit) op" where
  "remove_call k n =
     andthen (on_dev n (\<lambda>s. (Inr (), dev_remove (c_dev k n) s)))
       (andthen (core_put (\<lambda>c. c\<lparr>co_devs := (co_devs c)(n := None)\<rparr>)) (log_call (KRemove n)))"

definition bind_call :: "core_kernel \<Rightarrow> string \<Rightarrow> (srm_core, unit) op" where
  "bind_call k n =
     bindE (on_dev n (\<lambda>s. case dev_bind (c_dev k n) s of (r, s') \<Rightarrow> (Inr r, s')))
       (\<lambda>r. log_call (KDevBind n r))"

definition unbind_call :: "core_kernel \<Rightarrow> string \<Rightarrow> (srm_core, unit) op" where
  "unbind_call k n =
     andthen (on_dev n (\<lambda>s. (Inr (), dev_unbind (c_dev k n) s))) (log_call (KDevUnbind n))"

fun do_dev_call :: "core_kernel \<Rightarrow> dev_call \<Rightarrow> (srm_core, unit) op" where
  "do_dev_call k (CProbe n) = probe_call k n"
| "do_dev_call k (CRemove n) = remove_call k n"
| "do_dev_call k (CBind n) = bind_call k n"
| "do_dev_call k (CUnbind n) = unbind_call k n"

definition dev_calls :: "core_kernel \<Rightarrow> (klog \<Rightarrow> dev_call list) \<Rightarrow> (srm_core, unit) op" where
  "dev_calls k f = bindE (core_get (\<lambda>c. f (co_log c))) (each (do_dev_call k))"

section \<open>The master of the components\<close>

definition core_unbind :: "core_kernel \<Rightarrow> (srm_core, unit) op" where
  "core_unbind k = andthen (dev_calls k (c_unbind_calls k)) (log_call KUnbindAll)"

definition core_bind :: "core_kernel \<Rightarrow> (srm_core, int) op" where
  "core_bind k =
     andthen (dev_calls k (c_bind_calls k))
       (bindE (core_get (\<lambda>c. c_bind_all k (co_log c)))
          (\<lambda>r. andthen (log_call (KBindAll r))
             (andthen (core_put (\<lambda>c. c\<lparr>co_bind_status := r, co_all_bound := True\<rparr>)) (ret r))))"

fun do_core_call :: "core_kernel \<Rightarrow> core_call \<Rightarrow> (srm_core, unit) op" where
  "do_core_call k (CDev c) = do_dev_call k c"
| "do_core_call k CCoreBind = bindE (core_bind k) (\<lambda>_. ret ())"
| "do_core_call k CCoreUnbind = core_unbind k"

definition core_calls :: "core_kernel \<Rightarrow> (klog \<Rightarrow> core_call list) \<Rightarrow> (srm_core, unit) op" where
  "core_calls k f = bindE (core_get (\<lambda>c. f (co_log c))) (each (do_core_call k))"

text \<open>The functions of the kernel that call back.\<close>

definition of_platform_populate :: "core_kernel \<Rightarrow> (srm_core, int) op" where
  "of_platform_populate k =
     andthen (dev_calls k (c_populate_calls k))
       (bindE (core_get (\<lambda>c. c_populate k (co_log c))) (\<lambda>r. andthen (log_call (KPopulate r)) (ret r)))"

definition of_platform_depopulate :: "core_kernel \<Rightarrow> (srm_core, unit) op" where
  "of_platform_depopulate k = andthen (dev_calls k (c_depopulate_calls k)) (log_call KDepopulate)"

definition master_add :: "core_kernel \<Rightarrow> (srm_core, int) op" where
  "master_add k =
     andthen (core_calls k (c_master_add_calls k))
       (bindE (core_get (\<lambda>c. c_master_add k (co_log c))) (\<lambda>r. andthen (log_call (KMasterAdd r)) (ret r)))"

definition master_del :: "core_kernel \<Rightarrow> (srm_core, unit) op" where
  "master_del k = andthen (core_calls k (c_master_del_calls k)) (log_call KMasterDel)"

text \<open>While the driver waits for the completion it may be bound; the result is false when the time
  is up first.\<close>

definition wait_bound :: "core_kernel \<Rightarrow> (srm_core, bool) op" where
  "wait_bound k =
     andthen (\<lambda>c. if co_all_bound c then (Inr (), c) else core_calls k (c_wait_calls k) c)
       (bindE (core_get co_all_bound) (\<lambda>b. andthen (log_call (KWait b)) (ret b)))"

definition register_driver :: "core_kernel \<Rightarrow> (srm_core, int) op" where
  "register_driver k =
     bindE (core_get (\<lambda>c. c_driver_register k (co_log c)))
       (\<lambda>r. andthen (log_call (KDriverRegister r)) (ret r))"

section \<open>Preparing and unpreparing the remote processor\<close>

datatype comp_match = NoMatch | Match | MatchErr

text \<open>\<open>component_match_add_release\<close> turns the match into an error pointer when it runs out of memory,
  and leaves an error pointer alone; the driver does not look.\<close>

fun add_matches :: "core_kernel \<Rightarrow> nat list \<Rightarrow> comp_match \<Rightarrow> (srm_core, comp_match) op" where
  "add_matches k [] m = ret m"
| "add_matches k (ch # chs) m =
     bindE (core_get (\<lambda>c. c_match_add k (co_log c)))
       (\<lambda>ok. andthen (log_call (KMatchAdd ch))
          (add_matches k chs (if m = MatchErr \<or> \<not> ok then MatchErr else Match)))"

text \<open>The labels \<open>done\<close>, \<open>depopulate\<close> and \<open>master\<close>.\<close>

definition prepare_done :: "(srm_core, int) op" where
  "prepare_done = andthen (core_put (\<lambda>c. c\<lparr>co_prepared := co_prepared c + 1\<rparr>)) (ret 0)"

definition prepare_depopulate :: "core_kernel \<Rightarrow> int \<Rightarrow> (srm_core, int) op" where
  "prepare_depopulate k r = andthen (of_platform_depopulate k) (ret r)"

definition prepare_master :: "core_kernel \<Rightarrow> int \<Rightarrow> (srm_core, int) op" where
  "prepare_master k r = andthen (master_del k) (prepare_depopulate k r)"

definition ETIMEDOUT :: int where "ETIMEDOUT = 110"

definition prepare_bound :: "core_kernel \<Rightarrow> (srm_core, int) op" where
  "prepare_bound k =
     bindE (wait_bound k)
       (\<lambda>b. if \<not> b then prepare_master k (- ETIMEDOUT)
            else bindE (core_get co_bind_status)
              (\<lambda>st. if st \<noteq> 0 then prepare_master k st
                    else bindE (register_driver k)
                      (\<lambda>r. if r \<noteq> 0 then prepare_master k r else prepare_done)))"

definition core_prepare :: "core_kernel \<Rightarrow> (srm_core, int) op" where
  "core_prepare k =
     andthen (core_put (\<lambda>c. c\<lparr>co_all_bound := False\<rparr>))
       (bindE (of_platform_populate k)
          (\<lambda>r. if r \<noteq> 0 then ret r
               else bindE (add_matches k (c_children k) NoMatch)
                 (\<lambda>m. case m of
                    NoMatch \<Rightarrow> prepare_done
                  | MatchErr \<Rightarrow> raise (Undefined ''component_master_add_with_match'')
                  | Match \<Rightarrow> bindE (master_add k)
                      (\<lambda>r2. if r2 \<noteq> 0 then prepare_depopulate k r2 else prepare_bound k))))"

definition core_unprepare :: "core_kernel \<Rightarrow> (srm_core, unit) op" where
  "core_unprepare k =
     bindE (core_get co_prepared)
       (\<lambda>p. if p = 0 then ret ()
            else andthen (core_put (\<lambda>c. c\<lparr>co_prepared := co_prepared c - 1\<rparr>))
              (andthen (log_call KDriverUnregister)
                 (andthen (master_del k) (of_platform_depopulate k))))"

text \<open>\<open>probe\<close> of the core; the structure is zeroed.\<close>

definition core_probe :: "core_kernel \<Rightarrow> klog \<Rightarrow> int \<times> srm_core option \<times> klog" where
  "core_probe k l =
     (let ok = c_kzalloc k l; l1 = KAlloc ok # l in
      if \<not> ok then (- ENOMEM, None, l1)
      else let l2 = KSubdevAdd # l1 in
        (0, Some \<lparr>co_all_bound = False, co_bind_status = 0, co_prepared = 0, co_devs = (\<lambda>_. None),
                  co_log = l2\<rparr>, l2))"

text \<open>\<open>remove\<close> only unprepares; that the firmware may still run gives a warning.\<close>

definition core_remove :: "core_kernel \<Rightarrow> (srm_core, int) op" where
  "core_remove k = andthen (core_unprepare k) (ret 0)"

section \<open>The messages of the coprocessor\<close>

text \<open>The driver announces itself with an empty message.\<close>

definition rpmsg_srm_probe :: "core_kernel \<Rightarrow> (srm_core, int) op" where
  "rpmsg_srm_probe k =
     bindE (core_get (\<lambda>c. c_rpmsg_send k (co_log c) []))
       (\<lambda>r. andthen (log_call (KSend [] r)) (ret r))"

definition core_send :: "core_kernel \<Rightarrow> rpmsg_srm_msg \<Rightarrow> (srm_core, int) op" where
  "core_send k m = (\<lambda>c.
     case rpmsg_srm_send (c_rpmsg_send k) m (co_log c) of (r, l) \<Rightarrow> (Inr r, c\<lparr>co_log := l\<rparr>))"

text \<open>A return value of a notifier stops the chain when it has the bit \<open>NOTIFY_STOP_MASK\<close>.\<close>

definition notify_stops :: "int \<Rightarrow> bool" where
  "notify_stops r \<longleftrightarrow> bit r 15"

definition notifier :: "core_kernel \<Rightarrow> byte list \<Rightarrow> string \<Rightarrow> (srm_core, int) op" where
  "notifier k mem n = on_dev n (notify_cb (c_dev k n) mem)"

text \<open>\<open>rpmsg_srm_cb\<close>: \<open>mem\<close> is the receive buffer and \<open>len\<close> what has arrived in it, which the
  function ignores.\<close>

definition rpmsg_srm_cb :: "core_kernel \<Rightarrow> byte list \<Rightarrow> nat \<Rightarrow> (srm_core, int) op" where
  "rpmsg_srm_cb k mem len =
     bindE (c_call_chain k (notifier k mem))
       (\<lambda>r. if notify_stops r then ret 0
            else case msg_of_memory mem of
                   None \<Rightarrow> raise (Undefined ''rpmsg_srm_cb'')
                 | Some m \<Rightarrow>
                     andthen (core_send k (m\<lparr>ms_message_type := RPROC_SRM_MSG_ERROR\<rparr>)) (ret 0))"

end
