(* ===== verification/Srm_Spec.thy ===== *)
theory Srm_Spec
  imports Srm_Dev
begin

text \<open>
  What the resource device owes the kernel: for every regulator, clock, parent clock and interrupt,
  how often it has been switched on or taken according to the log, against what the entries of the
  device say. Clocks and regulators share one contract, the locale \<open>switched_resource\<close>.
\<close>

section \<open>Counting in the log\<close>

definition total :: "(kcall \<Rightarrow> int) \<Rightarrow> klog \<Rightarrow> int" where
  "total f l = sum_list (map f l)"

lemma total_simps [simp]:
  "total f [] = 0" "total f (e # l) = f e + total f l" "total f (l @ l') = total f l + total f l'"
  by (simp_all add: total_def)

lemma total_rev_map: "total f (rev (map g xs)) = sum_list (map (\<lambda>x. f (g x)) xs)"
  by (induction xs) auto

fun regu_on :: "regulator \<Rightarrow> kcall \<Rightarrow> int" where
  "regu_on r (KReguEnable q x) = of_bool (q = r \<and> x = 0)"
| "regu_on r (KReguDisable q x) = - of_bool (q = r \<and> x = 0)"
| "regu_on r _ = 0"

fun parent_on :: "clk \<Rightarrow> kcall \<Rightarrow> int" where
  "parent_on p (KClkEnable q x) = of_bool (q = p \<and> x = 0)"
| "parent_on p (KClkDisable q) = - of_bool (q = p)"
| "parent_on p _ = 0"

fun clk_ref :: "clk \<Rightarrow> kcall \<Rightarrow> int" where
  "clk_ref c (KClkGet _ x) = of_bool (x = Inr c)"
| "clk_ref c (KClkPut q) = - of_bool (q = c)"
| "clk_ref c _ = 0"

fun regu_ref :: "regulator \<Rightarrow> kcall \<Rightarrow> int" where
  "regu_ref r (KReguGet _ x) = of_bool (x = Inr r)"
| "regu_ref r (KReguPut q) = - of_bool (q = r)"
| "regu_ref r _ = 0"

fun irq_ref :: "int \<Rightarrow> kcall \<Rightarrow> int" where
  "irq_ref i (KIrqRequest q x) = of_bool (q = i \<and> x = 0)"
| "irq_ref i (KIrqFree q) = - of_bool (q = i)"
| "irq_ref i _ = 0"

text \<open>What the entries say: an entry counts when its flag is set.\<close>

definition tally :: "('a \<Rightarrow> bool) \<Rightarrow> 'a list \<Rightarrow> int" where
  "tally P xs = sum_list (map (\<lambda>x. of_bool (P x)) xs)"

lemma tally_simps [simp]:
  "tally P [] = 0" "tally P (x # xs) = of_bool (P x) + tally P xs"
  "tally P (xs @ ys) = tally P xs + tally P ys"
  by (simp_all add: tally_def)

lemma tally_0: "(\<And>x. x \<in> set xs \<Longrightarrow> \<not> P x) \<Longrightarrow> tally P xs = 0"
  by (induction xs) auto

lemma tally_update: "p < length xs \<Longrightarrow> tally P (xs[p := y]) = tally P xs - of_bool (P (xs ! p)) + of_bool (P y)"
proof (induction xs arbitrary: p)
  case (Cons x xs)
  then show ?case by (cases p) auto
qed simp

definition regu_held :: "regulator \<Rightarrow> srm_dev \<Rightarrow> int" where
  "regu_held r d = tally (\<lambda>i. ri_enabled i \<and> ri_regu i = r) (dv_regus d)"

definition parent_held :: "(clk \<Rightarrow> clk) \<Rightarrow> clk \<Rightarrow> srm_dev \<Rightarrow> int" where
  "parent_held par p d = tally (\<lambda>i. ci_parent_enabled i \<and> par (ci_clk i) = p) (dv_clks d)"

definition clk_refs :: "clk \<Rightarrow> srm_dev \<Rightarrow> int" where
  "clk_refs c d = tally (\<lambda>i. ci_clk i = c) (dv_clks d)"

definition regu_refs :: "regulator \<Rightarrow> srm_dev \<Rightarrow> int" where
  "regu_refs r d = tally (\<lambda>i. ri_regu i = r) (dv_regus d)"

definition irq_refs :: "int \<Rightarrow> srm_dev \<Rightarrow> int" where
  "irq_refs q d = tally (\<lambda>i. ii_irq i = q) (dv_irqs d)"

lemmas held_defs = regu_held_def parent_held_def clk_refs_def regu_refs_def irq_refs_def

section \<open>The contract of clocks and regulators\<close>

text \<open>
  \<open>steady\<close>: the kernel means the same resource each time it is asked; \<open>reliable\<close>: switching off
  does not fail.
\<close>

locale switched_resource =
  fixes count :: "klog \<Rightarrow> int" and held :: "srm_dev \<Rightarrow> int"
    and sw_on :: "dev_state \<Rightarrow> int \<times> dev_state" and sw_off :: "dev_state \<Rightarrow> dev_state"
    and steady :: bool and reliable :: bool
  assumes unsetup_balance:
      "steady \<Longrightarrow> sw_off (d, l) = (d', l') \<Longrightarrow> count l' - held d' = count l - held d"
    and setup_balance:
      "steady \<Longrightarrow> sw_on (d, l) = (r, d', l') \<Longrightarrow> count l' - held d' = count l - held d"
    and unsetup_releases: "reliable \<Longrightarrow> sw_off (d, l) = (d', l') \<Longrightarrow> held d' = 0"
    and failed_setup_releases:
      "reliable \<Longrightarrow> sw_on (d, l) = (r, d', l') \<Longrightarrow> r \<noteq> 0 \<Longrightarrow> held d' = 0"
begin

lemma unsetup_restores:
  "steady \<Longrightarrow> reliable \<Longrightarrow> sw_off (d, l) = (d', l') \<Longrightarrow> count l' = count l - held d"
  using unsetup_balance unsetup_releases by fastforce

lemma failed_setup_restores:
  "steady \<Longrightarrow> reliable \<Longrightarrow> sw_on (d, l) = (r, d', l') \<Longrightarrow> r \<noteq> 0 \<Longrightarrow> count l' = count l - held d"
  using setup_balance failed_setup_releases by fastforce

lemma setup_unsetup:
  "steady \<Longrightarrow> reliable \<Longrightarrow> sw_on (d, l) = (r, d1, l1) \<Longrightarrow> sw_off (d1, l1) = (d2, l2) \<Longrightarrow>
     count l2 = count l - held d \<and> held d2 = 0"
  using setup_balance [of d l r d1 l1] unsetup_restores [of d1 l1 d2 l2] unsetup_releases by simp

end

section \<open>Regulators\<close>

abbreviation on_regu :: "regulator \<Rightarrow> regu_info \<Rightarrow> bool" where
  "on_regu r i \<equiv> ri_enabled i \<and> ri_regu i = r"

lemma regus_unsetup_loop_props:
  "regus_unsetup_loop k rs l = (rs', l') \<Longrightarrow>
     total (regu_on r) l' - tally (on_regu r) rs' = total (regu_on r) l - tally (on_regu r) rs
     \<and> map ri_regu rs' = map ri_regu rs
     \<and> ((\<forall>l q. k_regu_disable k l q = 0) \<longrightarrow> (\<forall>x\<in>set rs'. \<not> ri_enabled x))"
proof (induction rs arbitrary: l rs' l')
  case (Cons x rs)
  let ?e = "k_regu_disable k l (ri_regu x)"
  let ?l = "if ri_enabled x then KReguDisable (ri_regu x) ?e # l else l"
  obtain rs1 l1 where r: "regus_unsetup_loop k rs ?l = (rs1, l1)" by (cases "regus_unsetup_loop k rs ?l")
  have "rs' = (if ri_enabled x \<and> ?e = 0 then x\<lparr>ri_enabled := False\<rparr> else x) # rs1 \<and> l' = l1"
    using Cons.prems r by (auto simp: Let_def split: if_splits)
  with Cons.IH [OF r] show ?case by auto
qed simp

lemma regus_unsetup_balance:
  "regus_unsetup k (d, l) = (d', l') \<Longrightarrow>
     total (regu_on r) l' - regu_held r d' = total (regu_on r) l - regu_held r d"
  by (auto simp: regus_unsetup_def regu_held_def split: prod.splits dest: regus_unsetup_loop_props [of _ _ _ _ _ r])

lemma regus_unsetup_off:
  "regus_unsetup k (d, l) = (d', l') \<Longrightarrow> (\<forall>l q. k_regu_disable k l q = 0) \<Longrightarrow>
     x \<in> set (dv_regus d') \<Longrightarrow> \<not> ri_enabled x"
  by (auto simp: regus_unsetup_def split: prod.splits dest: regus_unsetup_loop_props)

lemma regus_setup_loop_props:
  "regus_setup_loop k pre rs (d, l) = (e, d', l') \<Longrightarrow>
     total (regu_on r) l' - regu_held r d' = total (regu_on r) l - tally (on_regu r) (pre @ rs)
     \<and> (e \<noteq> 0 \<longrightarrow> (\<forall>l q. k_regu_disable k l q = 0) \<longrightarrow> (\<forall>x\<in>set (dv_regus d'). \<not> ri_enabled x))"
proof (induction rs arbitrary: pre d l)
  case (Cons x rs)
  show ?case
  proof (cases "ri_enabled x \<or> dv_early_boot d \<and> \<not> k_regu_is_enabled k l (ri_regu x)")
    case True
    with Cons.prems Cons.IH [of "pre @ [x]" d l] show ?thesis by auto
  next
    case False
    let ?e = "k_regu_enable k l (ri_regu x)" and ?l1 = "KReguEnable (ri_regu x) (k_regu_enable k l (ri_regu x)) # l"
    show ?thesis
    proof (cases "?e = 0")
      case True
      with False Cons.prems Cons.IH [of "pre @ [x\<lparr>ri_enabled := True\<rparr>]" d ?l1] show ?thesis
        by (auto simp: Let_def)
    next
      case e: False
      with False Cons.prems
      have u: "regus_unsetup k (d\<lparr>dv_regus := pre @ x # rs\<rparr>, ?l1) = (d', l')" by (auto simp: Let_def)
      show ?thesis
        using regus_unsetup_balance [OF u, of r] regus_unsetup_off [OF u] e
        by (auto simp: regu_held_def)
    qed
  qed
qed (auto simp: regu_held_def)

lemma regus_setup_props:
  "regus_setup k (d, l) = (e, d', l') \<Longrightarrow>
     total (regu_on r) l' - regu_held r d' = total (regu_on r) l - regu_held r d
     \<and> (e \<noteq> 0 \<longrightarrow> (\<forall>l q. k_regu_disable k l q = 0) \<longrightarrow> (\<forall>x\<in>set (dv_regus d'). \<not> ri_enabled x))"
  using regus_setup_loop_props [of k "[]" "dv_regus d" d l e d' l' r]
  by (simp add: regus_setup_def regu_held_def)

interpretation regus: switched_resource "total (regu_on r)" "regu_held r" "regus_setup k" "regus_unsetup k"
    True "\<forall>l q. k_regu_disable k l q = 0" for r k
proof
  fix d l d' l'
  assume u: "regus_unsetup k (d, l) = (d', l')"
  show "total (regu_on r) l' - regu_held r d' = total (regu_on r) l - regu_held r d"
    using u by (rule regus_unsetup_balance)
  assume "\<forall>l q. k_regu_disable k l q = 0"
  then show "regu_held r d' = 0"
    unfolding regu_held_def using regus_unsetup_off [OF u] by (auto intro!: tally_0)
next
  fix d l e d' l'
  assume s: "regus_setup k (d, l) = (e, d', l')"
  show "total (regu_on r) l' - regu_held r d' = total (regu_on r) l - regu_held r d"
    using regus_setup_props [OF s] by simp
  assume "\<forall>l q. k_regu_disable k l q = 0" "e \<noteq> 0"
  then show "regu_held r d' = 0"
    unfolding regu_held_def using regus_setup_props [OF s] by (auto intro!: tally_0)
qed

section \<open>Clocks\<close>

text \<open>\<open>steady\<close> for clocks: the parent of a clock never changes.\<close>

definition steady_parents :: "srm_kernel \<Rightarrow> (clk \<Rightarrow> clk) \<Rightarrow> bool" where
  "steady_parents k par \<longleftrightarrow> (\<forall>l c. k_clk_get_parent k l c = par c)"

abbreviation on_parent :: "(clk \<Rightarrow> clk) \<Rightarrow> clk \<Rightarrow> clk_info \<Rightarrow> bool" where
  "on_parent par p i \<equiv> ci_parent_enabled i \<and> par (ci_clk i) = p"

lemma clocks_unsetup_loop_props:
  "clocks_unsetup_loop k cs l = (cs', l') \<Longrightarrow>
     (steady_parents k par \<longrightarrow>
        total (parent_on p) l' - tally (on_parent par p) cs' = total (parent_on p) l - tally (on_parent par p) cs)
     \<and> map ci_clk cs' = map ci_clk cs \<and> (\<forall>x\<in>set cs'. \<not> ci_parent_enabled x)"
proof (induction cs arbitrary: l cs' l')
  case (Cons x cs)
  let ?l = "if ci_parent_enabled x then KClkDisable (k_clk_get_parent k l (ci_clk x)) # l else l"
  obtain cs1 l1 where r: "clocks_unsetup_loop k cs ?l = (cs1, l1)" by (cases "clocks_unsetup_loop k cs ?l")
  have "cs' = (if ci_parent_enabled x then x\<lparr>ci_parent_enabled := False\<rparr> else x) # cs1 \<and> l' = l1"
    using Cons.prems r by (auto split: if_splits)
  with Cons.IH [OF r] show ?case by (auto simp: steady_parents_def)
qed simp

lemma clocks_unsetup_balance:
  "clocks_unsetup k (d, l) = (d', l') \<Longrightarrow> steady_parents k par \<Longrightarrow>
     total (parent_on p) l' - parent_held par p d' = total (parent_on p) l - parent_held par p d"
  by (auto simp: clocks_unsetup_def parent_held_def split: prod.splits
      dest: clocks_unsetup_loop_props [of _ _ _ _ _ par p])

lemma clocks_unsetup_off:
  "clocks_unsetup k (d, l) = (d', l') \<Longrightarrow> x \<in> set (dv_clks d') \<Longrightarrow> \<not> ci_parent_enabled x"
  by (auto simp: clocks_unsetup_def split: prod.splits dest: clocks_unsetup_loop_props)

lemma clocks_setup_loop_props:
  "clocks_setup_loop k pre cs (d, l) = (e, d', l') \<Longrightarrow>
     (steady_parents k par \<longrightarrow>
        total (parent_on p) l' - parent_held par p d' = total (parent_on p) l - tally (on_parent par p) (pre @ cs))
     \<and> (e \<noteq> 0 \<longrightarrow> (\<forall>x\<in>set (dv_clks d'). \<not> ci_parent_enabled x))
     \<and> (e = 0 \<longrightarrow> (\<forall>x\<in>set pre. ci_parent_enabled x) \<longrightarrow>
          (\<forall>x\<in>set (dv_clks d'). ci_parent_enabled x) \<and> map ci_clk (dv_clks d') = map ci_clk (pre @ cs))"
proof (induction cs arbitrary: pre d l)
  case (Cons x cs)
  show ?case
  proof (cases "ci_parent_enabled x")
    case True
    with Cons.prems Cons.IH [of "pre @ [x]" d l] show ?thesis by auto
  next
    case False
    let ?p = "k_clk_get_parent k l (ci_clk x)"
    let ?e = "k_clk_prepare_enable k l ?p"
    let ?l1 = "KClkEnable ?p ?e # l"
    show ?thesis
    proof (cases "?e = 0")
      case True
      with False Cons.prems Cons.IH [of "pre @ [x\<lparr>ci_parent_enabled := True\<rparr>]" d ?l1] show ?thesis
        by (auto simp: Let_def steady_parents_def)
    next
      case e: False
      with False Cons.prems
      have u: "clocks_unsetup k (d\<lparr>dv_clks := pre @ x # cs\<rparr>, ?l1) = (d', l')" by (auto simp: Let_def)
      show ?thesis
        using clocks_unsetup_balance [OF u, of par p] clocks_unsetup_off [OF u] e Cons.prems False
        by (auto simp: parent_held_def Let_def)
    qed
  qed
qed (auto simp: parent_held_def)

lemma clocks_setup_props:
  "clocks_setup k (d, l) = (e, d', l') \<Longrightarrow>
     (steady_parents k par \<longrightarrow>
        total (parent_on p) l' - parent_held par p d' = total (parent_on p) l - parent_held par p d)
     \<and> (e \<noteq> 0 \<longrightarrow> (\<forall>x\<in>set (dv_clks d'). \<not> ci_parent_enabled x))
     \<and> (e = 0 \<longrightarrow> (\<forall>x\<in>set (dv_clks d'). ci_parent_enabled x) \<and> map ci_clk (dv_clks d') = map ci_clk (dv_clks d))"
  using clocks_setup_loop_props [of k "[]" "dv_clks d" d l e d' l' par p]
  by (simp add: clocks_setup_def parent_held_def)

interpretation clocks: switched_resource "total (parent_on p)" "parent_held par p" "clocks_setup k"
    "clocks_unsetup k" "steady_parents k par" True for p par k
proof
  fix d l d' l'
  assume u: "clocks_unsetup k (d, l) = (d', l')"
  show "parent_held par p d' = 0"
    unfolding parent_held_def using clocks_unsetup_off [OF u] by (auto intro!: tally_0)
  assume "steady_parents k par"
  with u show "total (parent_on p) l' - parent_held par p d' = total (parent_on p) l - parent_held par p d"
    by (rule clocks_unsetup_balance)
next
  fix d l e d' l'
  assume s: "clocks_setup k (d, l) = (e, d', l')"
  show "parent_held par p d' = 0" if "e \<noteq> 0"
    unfolding parent_held_def using clocks_setup_props [OF s] that by (auto intro!: tally_0)
  assume "steady_parents k par"
  then show "total (parent_on p) l' - parent_held par p d' = total (parent_on p) l - parent_held par p d"
    using clocks_setup_props [OF s] by simp
qed

section \<open>What an operation leaves alone\<close>

text \<open>The log grows, and only by calls of a certain kind.\<close>

definition extends :: "(kcall \<Rightarrow> bool) \<Rightarrow> klog \<Rightarrow> klog \<Rightarrow> bool" where
  "extends P l l' \<longleftrightarrow> (\<exists>es. l' = es @ l \<and> list_all P es)"

lemma extends_refl [simp]: "extends P l l"
  by (simp add: extends_def)

lemma extends_trans: "extends P l l1 \<Longrightarrow> extends P l1 l2 \<Longrightarrow> extends P l l2"
  by (force simp: extends_def)

lemma extends_Cons: "extends P l l' \<Longrightarrow> P e \<Longrightarrow> extends P l (e # l')"
  by (force simp: extends_def)

lemma extends_Cons_left: "extends P (e # l) l' \<Longrightarrow> P e \<Longrightarrow> extends P l l'"
  by (force simp: extends_def)

lemma extends_mono: "extends P l l' \<Longrightarrow> (\<And>e. P e \<Longrightarrow> Q e) \<Longrightarrow> extends Q l l'"
  by (auto simp: extends_def list_all_iff)

lemma total_extends:
  assumes "extends P l l'" "\<And>e. P e \<Longrightarrow> f e = 0"
  shows "total f l' = total f l"
proof -
  from assms(1) obtain es where es: "l' = es @ l" "list_all P es" by (auto simp: extends_def)
  then have "total f es = 0" using assms(2) by (induction es arbitrary: l') auto
  with es show ?thesis by simp
qed

fun regu_power :: "kcall \<Rightarrow> bool" where
  "regu_power (KReguEnable _ _) = True" | "regu_power (KReguDisable _ _) = True" | "regu_power _ = False"

fun clk_power :: "kcall \<Rightarrow> bool" where
  "clk_power (KClkEnable _ _) = True" | "clk_power (KClkDisable _) = True" | "clk_power _ = False"

text \<open>What a request may do besides sending a reply.\<close>

fun request_call :: "kcall \<Rightarrow> bool" where
  "request_call (KReguEnable _ _) = True" | "request_call (KReguDisable _ _) = True"
| "request_call (KReguSetVoltage _ _ _ _) = True" | "request_call (KClkSetRate _ _ _) = True"
| "request_call _ = False"

lemma power_effects [simp]:
  "regu_power e \<Longrightarrow> parent_on p e = 0" "clk_power e \<Longrightarrow> regu_on r e = 0"
  "request_call e \<Longrightarrow> parent_on p e = 0"
  by (cases e; simp)+

lemma regus_unsetup_loop_extends:
  "regus_unsetup_loop k rs l = (rs', l') \<Longrightarrow> extends regu_power l l'"
proof (induction rs arbitrary: l rs' l')
  case (Cons x rs)
  then show ?case
    by (fastforce simp: Let_def split: if_splits prod.splits intro: extends_Cons_left)
qed simp

lemma regus_unsetup_frame:
  "regus_unsetup k (d, l) = (d', l') \<Longrightarrow> extends regu_power l l' \<and> d' = d\<lparr>dv_regus := dv_regus d'\<rparr>"
  by (auto simp: regus_unsetup_def split: prod.splits dest: regus_unsetup_loop_extends)

lemma regus_setup_loop_frame:
  "regus_setup_loop k pre rs (d, l) = (e, d', l') \<Longrightarrow>
     extends regu_power l l' \<and> d' = d\<lparr>dv_regus := dv_regus d'\<rparr>"
proof (induction rs arbitrary: pre d l)
  case (Cons x rs)
  then show ?case
    by (fastforce simp: Let_def split: if_splits intro: extends_Cons_left dest: regus_unsetup_frame)
qed auto

lemma regus_setup_frame:
  "regus_setup k (d, l) = (e, d', l') \<Longrightarrow> extends regu_power l l' \<and> d' = d\<lparr>dv_regus := dv_regus d'\<rparr>"
  by (simp add: regus_setup_def regus_setup_loop_frame)

lemma clocks_unsetup_loop_extends:
  "clocks_unsetup_loop k cs l = (cs', l') \<Longrightarrow> extends clk_power l l'"
proof (induction cs arbitrary: l cs' l')
  case (Cons x cs)
  then show ?case
    by (fastforce split: if_splits prod.splits intro: extends_Cons_left)
qed simp

lemma clocks_unsetup_frame:
  "clocks_unsetup k (d, l) = (d', l') \<Longrightarrow> extends clk_power l l' \<and> d' = d\<lparr>dv_clks := dv_clks d'\<rparr>"
  by (auto simp: clocks_unsetup_def split: prod.splits dest: clocks_unsetup_loop_extends)

lemma clocks_setup_loop_frame:
  "clocks_setup_loop k pre cs (d, l) = (e, d', l') \<Longrightarrow>
     extends clk_power l l' \<and> d' = d\<lparr>dv_clks := dv_clks d'\<rparr>"
proof (induction cs arbitrary: pre d l)
  case (Cons x cs)
  then show ?case
    by (fastforce simp: Let_def split: if_splits intro: extends_Cons_left dest: clocks_unsetup_frame)
qed auto

lemma clocks_setup_frame:
  "clocks_setup k (d, l) = (e, d', l') \<Longrightarrow> extends clk_power l l' \<and> d' = d\<lparr>dv_clks := dv_clks d'\<rparr>"
  by (simp add: clocks_setup_def clocks_setup_loop_frame)

text \<open>The handles of the entries never change.\<close>

lemma regus_unsetup_handles:
  "regus_unsetup k (d, l) = (d', l') \<Longrightarrow> map ri_regu (dv_regus d') = map ri_regu (dv_regus d)"
  by (auto simp: regus_unsetup_def split: prod.splits dest: regus_unsetup_loop_props)

lemma regus_setup_loop_handles:
  "regus_setup_loop k pre rs (d, l) = (e, d', l') \<Longrightarrow> map ri_regu (dv_regus d') = map ri_regu (pre @ rs)"
proof (induction rs arbitrary: pre d l)
  case (Cons x rs)
  then show ?case
    by (fastforce simp: Let_def split: if_splits dest: regus_unsetup_handles)
qed auto

lemma regus_setup_handles:
  "regus_setup k (d, l) = (e, d', l') \<Longrightarrow> map ri_regu (dv_regus d') = map ri_regu (dv_regus d)"
  by (auto simp: regus_setup_def dest: regus_setup_loop_handles)

lemma clocks_unsetup_handles:
  "clocks_unsetup k (d, l) = (d', l') \<Longrightarrow> map ci_clk (dv_clks d') = map ci_clk (dv_clks d)"
  by (auto simp: clocks_unsetup_def split: prod.splits dest: clocks_unsetup_loop_props)

lemma clocks_setup_loop_handles:
  "clocks_setup_loop k pre cs (d, l) = (e, d', l') \<Longrightarrow> map ci_clk (dv_clks d') = map ci_clk (pre @ cs)"
proof (induction cs arbitrary: pre d l)
  case (Cons x cs)
  then show ?case
    by (fastforce simp: Let_def split: if_splits dest: clocks_unsetup_handles)
qed auto

lemma clocks_setup_handles:
  "clocks_setup k (d, l) = (e, d', l') \<Longrightarrow> map ci_clk (dv_clks d') = map ci_clk (dv_clks d)"
  by (auto simp: clocks_setup_def dest: clocks_setup_loop_handles)

section \<open>Requests\<close>

lemma clock_find_Some:
  "clock_find cs ix mem = Inr (Some p) \<Longrightarrow>
     p < length cs \<and> (ix \<noteq> U32_MAX \<longrightarrow> ci_index (cs ! p) = ix \<and> (\<forall>q<p. ci_index (cs ! q) \<noteq> ix))"
proof (induction cs arbitrary: p)
  case (Cons c cs)
  then show ?case
    by (cases p) (auto simp: bindS_Inr_conv less_Suc_eq_0_disj split: if_splits)
qed simp

lemma regu_find_Some:
  "regu_find rs ix mem = Inr (Some p) \<Longrightarrow>
     p < length rs \<and> (ix \<noteq> U32_MAX \<longrightarrow> ri_index (rs ! p) = ix \<and> (\<forall>q<p. ri_index (rs ! q) \<noteq> ix))"
proof (induction rs arbitrary: p)
  case (Cons r rs)
  then show ?case
    by (cases p) (auto simp: bindS_Inr_conv less_Suc_eq_0_disj split: if_splits)
qed simp

lemma clock_set_cfg_frame:
  "clock_set_cfg k cfg mem (d, l) = (r, d', l') \<Longrightarrow> d' = d \<and> extends request_call l l' \<and> total (regu_on q) l' = total (regu_on q) l"
  by (auto simp: clock_set_cfg_def Let_def split: sum.splits option.splits if_splits intro: extends_Cons)

lemma clock_get_cfg_frame: "clock_get_cfg k cfg mem s = (r, s') \<Longrightarrow> s' = s"
  by (auto simp: clock_get_cfg_def split: prod.splits)

lemma regu_get_cfg_frame: "regu_get_cfg k cfg mem s = (r, s') \<Longrightarrow> s' = s"
  by (auto simp: regu_get_cfg_def split: prod.splits)

lemma regu_switch_props:
  assumes "regu_switch k p on (d, l) = (e, d', l')" "p < length (dv_regus d)"
  shows "total (regu_on q) l' - regu_held q d' = total (regu_on q) l - regu_held q d
     \<and> extends request_call l l' \<and> d' = d\<lparr>dv_regus := dv_regus d'\<rparr>
     \<and> map ri_regu (dv_regus d') = map ri_regu (dv_regus d)"
  using assms
  by (auto simp: regu_switch_def regu_held_def tally_update map_update Let_def list_update_same_conv
      split: if_splits intro: extends_Cons)

lemma regu_set_cfg_frame:
  assumes "regu_set_cfg k cfg mem (d, l) = (r, d', l')"
  shows "total (regu_on q) l' - regu_held q d' = total (regu_on q) l - regu_held q d
     \<and> extends request_call l l' \<and> d' = d\<lparr>dv_regus := dv_regus d'\<rparr>
     \<and> map ri_regu (dv_regus d') = map ri_regu (dv_regus d)"
proof (cases "regu_find (dv_regus d) (rc_index cfg) mem")
  case (Inr z)
  show ?thesis
  proof (cases z)
    case (Some p)
    obtain e d1 l1 where s: "regu_switch k p (rc_enable cfg \<noteq> 0) (d, l) = (e, d1, l1)"
      by (cases "regu_switch k p (rc_enable cfg \<noteq> 0) (d, l)") auto
    have "p < length (dv_regus d)" using Inr Some regu_find_Some by simp
    note sw = regu_switch_props [OF s this, of q]
    have "d' = d1 \<and> extends request_call l1 l' \<and> total (regu_on q) l' = total (regu_on q) l1"
      using assms Inr Some s
      by (auto simp: regu_set_cfg_def regu_voltage_def Let_def split: if_splits intro: extends_Cons)
    with sw show ?thesis by (auto intro: extends_trans)
  qed (use assms Inr in \<open>auto simp: regu_set_cfg_def\<close>)
qed (use assms in \<open>auto simp: regu_set_cfg_def\<close>)

lemma clock_reply_frame: "clock_reply k m s = (r, s') \<Longrightarrow> s' = s"
  by (auto simp: clock_reply_def bindE_result dest: clock_get_cfg_frame)

lemma regu_reply_frame: "regu_reply k m s = (r, s') \<Longrightarrow> s' = s"
  by (auto simp: regu_reply_def bindE_result dest: regu_get_cfg_frame)

text \<open>What a request does to the device: no list changes but for the flags of the regulators, and
  those follow the kernel's count.\<close>

definition request_frame :: "dev_state \<Rightarrow> dev_state \<Rightarrow> bool" where
  "request_frame s s' \<longleftrightarrow>
     (\<forall>q. total (regu_on q) (snd s') - regu_held q (fst s') = total (regu_on q) (snd s) - regu_held q (fst s))
     \<and> extends request_call (snd s) (snd s') \<and> fst s' = (fst s)\<lparr>dv_regus := dv_regus (fst s')\<rparr>
     \<and> map ri_regu (dv_regus (fst s')) = map ri_regu (dv_regus (fst s))"

lemma request_frame_refl [simp]: "request_frame s s"
  by (simp add: request_frame_def)

lemma request_frame_trans: "request_frame s s1 \<Longrightarrow> request_frame s1 s2 \<Longrightarrow> request_frame s s2"
  unfolding request_frame_def
  by (intro conjI allI) (fastforce, blast intro: extends_trans, metis srm_dev.surjective srm_dev.update_convs(4), simp)

lemma transp_request_frame: "transp request_frame"
  by (auto intro: transpI request_frame_trans)

lemma request_frame_grows:
  "grows request_frame (clock_set_cfg k ccfg mem)" "grows request_frame (regu_set_cfg k rcfg mem)"
  "grows request_frame (clock_reply k i)" "grows request_frame (regu_reply k i)"
  "grows request_frame (ret x)"
  unfolding grows_def request_frame_def
  by (fastforce dest: clock_set_cfg_frame regu_set_cfg_frame clock_reply_frame regu_reply_frame)+

lemma srm_request_frame: "grows request_frame (srm_request k mem i)"
  unfolding srm_request_def
  by (intro grows_if grows_bindE transp_request_frame request_frame_grows)

section \<open>The life of a device\<close>

text \<open>What the kernel has counted beyond what the entries of the device say.\<close>

definition regu_excess :: "regulator \<Rightarrow> dev_state \<Rightarrow> int" where
  "regu_excess q s = total (regu_on q) (snd s) - regu_held q (fst s)"

definition parent_excess :: "(clk \<Rightarrow> clk) \<Rightarrow> clk \<Rightarrow> dev_state \<Rightarrow> int" where
  "parent_excess par p s = total (parent_on p) (snd s) - parent_held par p (fst s)"

lemma power_totals:
  "extends clk_power l l' \<Longrightarrow> total (regu_on q) l' = total (regu_on q) l"
  "extends regu_power l l' \<Longrightarrow> total (parent_on p) l' = total (parent_on p) l"
  "extends request_call l l' \<Longrightarrow> total (parent_on p) l' = total (parent_on p) l"
  by (auto elim: total_extends)

lemma clk_frame_held: "d' = d\<lparr>dv_clks := cs\<rparr> \<Longrightarrow> regu_held q d' = regu_held q d"
  by (simp add: regu_held_def)

lemma regu_frame_held: "d' = d\<lparr>dv_regus := rs\<rparr> \<Longrightarrow> parent_held par p d' = parent_held par p d"
  by (simp add: parent_held_def)

lemma clk_frame_regu_excess:
  "extends clk_power l l' \<Longrightarrow> d' = d\<lparr>dv_clks := dv_clks d'\<rparr> \<Longrightarrow> regu_excess q (d', l') = regu_excess q (d, l)"
  by (simp add: regu_excess_def power_totals clk_frame_held [where d = d and cs = "dv_clks d'"])

lemma regu_frame_parent_excess:
  "extends regu_power l l' \<or> extends request_call l l' \<Longrightarrow> d' = d\<lparr>dv_regus := dv_regus d'\<rparr> \<Longrightarrow>
     parent_excess par p (d', l') = parent_excess par p (d, l)"
  by (auto simp: parent_excess_def power_totals regu_frame_held [where d = d and rs = "dv_regus d'"])

lemma dev_bind_cases:
  assumes "dev_bind k (d, l) = (r, d', l')"
  obtains (clocks) "clocks_setup k (d, l) = (r, d', l')" "r \<noteq> 0"
  | (regus) d1 l1 where "clocks_setup k (d, l) = (0, d1, l1)" "regus_setup k (d1, l1) = (r, d', l')"
  using assms by (auto simp: dev_bind_def split: prod.splits if_splits)

lemma dev_bind_excess:
  assumes "dev_bind k (d, l) = (r, d', l')"
  shows "regu_excess q (d', l') = regu_excess q (d, l)"
    and "steady_parents k par \<Longrightarrow> parent_excess par p (d', l') = parent_excess par p (d, l)"
proof -
  have c: "regu_excess q (e, m) = regu_excess q (d, l)"
      "steady_parents k par \<Longrightarrow> parent_excess par p (e, m) = parent_excess par p (d, l)"
    if "clocks_setup k (d, l) = (x, e, m)" for x e m
    using clocks_setup_frame [OF that] clk_frame_regu_excess clocks.setup_balance [OF _ that]
    by (auto simp: parent_excess_def)
  have g: "regu_excess q (e', m') = regu_excess q (e, m)" "parent_excess par p (e', m') = parent_excess par p (e, m)"
    if "regus_setup k (e, m) = (x, e', m')" for x e m e' m'
    using regus_setup_frame [OF that] regu_frame_parent_excess regus.setup_balance [OF TrueI that]
    by (auto simp: regu_excess_def)
  from assms show "regu_excess q (d', l') = regu_excess q (d, l)"
    by (cases rule: dev_bind_cases) (use c(1) g(1) in \<open>fastforce+\<close>)
  from assms show "parent_excess par p (d', l') = parent_excess par p (d, l)" if "steady_parents k par"
    by (cases rule: dev_bind_cases) (use that c(2) g(2) in \<open>fastforce+\<close>)
qed

lemma dev_unbind_props:
  assumes "dev_unbind k (d, l) = (d', l')"
  shows "regu_excess q (d', l') = regu_excess q (d, l)"
    and "steady_parents k par \<Longrightarrow> parent_excess par p (d', l') = parent_excess par p (d, l)"
    and "parent_held par p d' = 0"
    and "(\<forall>l q. k_regu_disable k l q = 0) \<Longrightarrow> regu_held q d' = 0"
proof -
  obtain d1 l1 where g: "regus_unsetup k (d, l) = (d1, l1)" by fastforce
  with assms have c: "clocks_unsetup k (d1, l1) = (d', l')" by (simp add: dev_unbind_def)
  note fg = regus_unsetup_frame [OF g] and fc = clocks_unsetup_frame [OF c]
  from fc have r: "regu_excess q (d', l') = regu_excess q (d1, l1)" "regu_held q d' = regu_held q d1"
    using clk_frame_regu_excess [of l1 l' d' d1 q] clk_frame_held [where d = d1 and cs = "dv_clks d'"] by simp_all
  then show "regu_excess q (d', l') = regu_excess q (d, l)"
    using regus.unsetup_balance [OF TrueI g, of q] by (simp add: regu_excess_def)
  show "parent_excess par p (d', l') = parent_excess par p (d, l)" if "steady_parents k par"
    using clocks.unsetup_balance [OF that c, of p] fg regu_frame_parent_excess [of l l1 d1 d par p]
    by (simp add: parent_excess_def)
  show "parent_held par p d' = 0" by (rule clocks.unsetup_releases [OF TrueI c])
  show "regu_held q d' = 0" if "\<forall>l q. k_regu_disable k l q = 0"
    using regus.unsetup_releases [OF that g] r by simp
qed

lemma notify_cb_frame:
  assumes "notify_cb k mem s = (r, s')"
  shows "\<exists>l1. request_frame s (fst s', l1) \<and> (snd s' = l1 \<or> (\<exists>b x. snd s' = KSend b x # l1))"
proof -
  obtain d l where s: "s = (d, l)" by (cases s)
  have "request_frame s s' \<or> (\<exists>i z s1 b x. srm_request k mem i s = (z, s1) \<and> s' = (fst s1, KSend b x # snd s1))"
    using assms growsD [OF srm_request_frame [of k mem]]
    by (auto simp: notify_cb_def s bindE_result rpmsg_srm_send_def Let_def
        split: option.splits sum.splits if_splits)
  then show ?thesis
  proof
    assume "request_frame s s'"
    then show ?thesis by (intro exI [of _ "snd s'"]) simp
  next
    assume "\<exists>i z s1 b x. srm_request k mem i s = (z, s1) \<and> s' = (fst s1, KSend b x # snd s1)"
    then show ?thesis using growsD [OF srm_request_frame [of k mem]]
      by (metis fst_conv prod.collapse snd_conv)
  qed
qed

lemma notify_cb_excess:
  assumes "notify_cb k mem s = (r, s')"
  shows "regu_excess q s' = regu_excess q s" and "parent_excess par p s' = parent_excess par p s"
proof -
  from notify_cb_frame [OF assms] obtain l1 where f: "request_frame s (fst s', l1)"
    and l: "snd s' = l1 \<or> (\<exists>b x. snd s' = KSend b x # l1)" by blast
  from f l show "regu_excess q s' = regu_excess q s"
    by (auto simp: request_frame_def regu_excess_def)
  have "parent_excess par p (fst s', l1) = parent_excess par p (fst s, snd s)"
    using f by (intro regu_frame_parent_excess) (auto simp: request_frame_def)
  with l show "parent_excess par p s' = parent_excess par p s"
    by (auto simp: parent_excess_def)
qed

inductive dev_step :: "srm_kernel \<Rightarrow> dev_state \<Rightarrow> dev_state \<Rightarrow> bool" for k where
  step_bind: "dev_bind k s = (r, s') \<Longrightarrow> dev_step k s s'"
| step_unbind: "dev_unbind k s = s' \<Longrightarrow> dev_step k s s'"
| step_notify: "notify_cb k mem s = (r, s') \<Longrightarrow> dev_step k s s'"

inductive_cases dev_stepE: "dev_step k s s'"

lemma dev_step_excess:
  "dev_step k s s' \<Longrightarrow>
     regu_excess q s' = regu_excess q s \<and> (steady_parents k par \<longrightarrow> parent_excess par p s' = parent_excess par p s)"
  by (cases s; cases s'; erule dev_stepE)
     (simp_all add: dev_bind_excess dev_unbind_props(1,2) notify_cb_excess)

lemma dev_steps_excess:
  "(dev_step k)\<^sup>*\<^sup>* s s' \<Longrightarrow>
     regu_excess q s' = regu_excess q s \<and> (steady_parents k par \<longrightarrow> parent_excess par p s' = parent_excess par p s)"
  by (induction rule: rtranclp_induct) (auto dest: dev_step_excess [where q = q and par = par and p = p])

end
