(* ===== verification/Srm_Probe.thy ===== *)
theory Srm_Probe
  imports Srm_Spec
begin

text \<open>
  Acquiring and releasing: the clocks, regulators and interrupts of a device share the contract
  \<open>acquired_resource\<close>, and the probe of the device composes the three.
\<close>

section \<open>The contract\<close>

locale acquired_resource =
  fixes count :: "klog \<Rightarrow> int" and held :: "srm_dev \<Rightarrow> int"
    and acquire :: "(dev_state, int) op" and release :: "dev_state \<Rightarrow> dev_state"
  assumes release_balance: "release (d, l) = (d', l') \<Longrightarrow> count l' - held d' = count l - held d"
    and release_empties: "release (d, l) = (d', l') \<Longrightarrow> held d' = 0"
    and acquire_balance: "acquire (d, l) = (x, d', l') \<Longrightarrow> count l' - held d' = count l - held d"
    and failed_acquire_empties: "acquire (d, l) = (Inr r, d', l') \<Longrightarrow> r \<noteq> 0 \<Longrightarrow> held d' = 0"
begin

lemma release_restores: "release (d, l) = (d', l') \<Longrightarrow> count l' = count l - held d"
  using release_balance release_empties by fastforce

lemma failed_acquire_restores:
  "acquire (d, l) = (Inr r, d', l') \<Longrightarrow> r \<noteq> 0 \<Longrightarrow> count l' = count l - held d"
  using acquire_balance failed_acquire_empties by fastforce

lemma acquire_release:
  "acquire (d, l) = (x, d1, l1) \<Longrightarrow> release (d1, l1) = (d2, l2) \<Longrightarrow> count l2 = count l - held d"
  using acquire_balance [of d l x d1 l1] release_restores [of d1 l1 d2 l2] by simp

end

section \<open>Clocks\<close>

fun clk_get_call :: "kcall \<Rightarrow> bool" where
  "clk_get_call (KAlloc _) = True" | "clk_get_call (KStrdup _) = True"
| "clk_get_call (KClkGet _ _) = True" | "clk_get_call (KClkPut _) = True" | "clk_get_call _ = False"

fun regu_get_call :: "kcall \<Rightarrow> bool" where
  "regu_get_call (KAlloc _) = True" | "regu_get_call (KStrdup _) = True"
| "regu_get_call (KReguGet _ _) = True" | "regu_get_call (KReguPut _) = True" | "regu_get_call _ = False"

fun irq_get_call :: "kcall \<Rightarrow> bool" where
  "irq_get_call (KAlloc _) = True" | "irq_get_call (KStrdup _) = True"
| "irq_get_call (KIrqGet _ _) = True" | "irq_get_call (KIrqRequest _ _) = True"
| "irq_get_call (KIrqFlags _) = True" | "irq_get_call (KIrqDisable _) = True"
| "irq_get_call (KIrqFree _) = True" | "irq_get_call _ = False"

lemma total_released:
  "(\<And>x. f (g x) = - of_bool (P x)) \<Longrightarrow> total f (rev (map g xs)) = - tally P xs"
  by (induction xs) auto

lemma extends_released: "(\<And>x. P (g x)) \<Longrightarrow> extends P l (rev (map g xs) @ l)"
  by (auto simp: extends_def list_all_iff)

lemma clocks_put_props:
  "clocks_put (d, l) = (d', l') \<Longrightarrow>
     total (clk_ref c) l' = total (clk_ref c) l - clk_refs c d \<and> d' = d\<lparr>dv_clks := []\<rparr> \<and> extends clk_get_call l l'"
  by (auto simp: clocks_put_def clk_refs_def extends_released total_released [where P = "\<lambda>i. ci_clk i = c"])

lemma clocks_get_loop_props:
  "clocks_get_loop k i n (d, l) = (r, d', l') \<Longrightarrow>
     total (clk_ref c) l' - clk_refs c d' = total (clk_ref c) l - clk_refs c d
     \<and> (r \<noteq> 0 \<longrightarrow> dv_clks d' = []) \<and> d' = d\<lparr>dv_clks := dv_clks d'\<rparr> \<and> extends clk_get_call l l'"
proof (induction n arbitrary: i d l)
  case (Suc n)
  let ?l1 = "KAlloc (k_kzalloc k l) # l"
  let ?l2 = "KClkGet i (k_clk_get k ?l1 i) # ?l1"
  show ?case
  proof (cases "k_kzalloc k l \<and> (\<exists>h. k_clk_get k ?l1 i = Inr h)")
    case True
    then obtain h where h: "k_clk_get k ?l1 i = Inr h" by blast
    obtain nm l3 where s: "kstrdup k (case k_string_index k ''clock-names'' i of Some nm \<Rightarrow> nm | None \<Rightarrow> []) ?l2
        = (nm, l3)" by fastforce
    then have l3: "\<exists>b. l3 = KStrdup b # ?l2" by (auto simp: kstrdup_def Let_def)
    let ?d = "d\<lparr>dv_clks := dv_clks d @ [\<lparr>ci_index = of_nat i, ci_clk = h, ci_name = nm, ci_parent_enabled = False\<rparr>]\<rparr>"
    have "clocks_get_loop k (Suc i) n (?d, l3) = (r, d', l')"
      using Suc.prems True h s by (simp add: Let_def)
    from Suc.IH [OF this] l3 h True show ?thesis
      by (auto simp: clk_refs_def dest!: extends_Cons_left)
  next
    case False
    then obtain l0 where "clocks_put (d, l0) = (d', l')" "r = - ENOMEM"
      and l0: "l0 = ?l1 \<or> (l0 = ?l2 \<and> (\<exists>x. k_clk_get k ?l1 i = Inl x))"
      using Suc.prems by (auto simp: Let_def split: if_splits sum.splits)
    then show ?thesis using clocks_put_props [of d l0 d' l' c]
      by (auto simp: clk_refs_def dest!: extends_Cons_left)
  qed
qed auto

lemma clocks_get_props:
  "clocks_get k (d, l) = (r, d', l') \<Longrightarrow>
     total (clk_ref c) l' - clk_refs c d' = total (clk_ref c) l - clk_refs c d
     \<and> (r \<noteq> 0 \<longrightarrow> dv_clks d' = []) \<and> d' = d\<lparr>dv_clks := dv_clks d'\<rparr> \<and> extends clk_get_call l l'"
  by (auto simp: clocks_get_def Let_def split: if_splits dest: clocks_get_loop_props [where c = c])

interpretation clock_refs: acquired_resource "total (clk_ref c)" "clk_refs c"
    "\<lambda>s. map_prod Inr id (clocks_get k s)" clocks_put for c k
proof
  show "clocks_put (d, l) = (d', l') \<Longrightarrow>
      total (clk_ref c) l' - clk_refs c d' = total (clk_ref c) l - clk_refs c d" for d l d' l'
    using clocks_put_props [of d l d' l' c] by (auto simp: clk_refs_def)
  show "clocks_put (d, l) = (d', l') \<Longrightarrow> clk_refs c d' = 0" for d l d' l'
    using clocks_put_props [of d l d' l' c] by (auto simp: clk_refs_def)
  show "map_prod Inr id (clocks_get k (d, l)) = (x, d', l') \<Longrightarrow>
      total (clk_ref c) l' - clk_refs c d' = total (clk_ref c) l - clk_refs c d" for d l x d' l'
    using clocks_get_props [of k d l _ d' l' c] by (cases "clocks_get k (d, l)") auto
  show "map_prod Inr id (clocks_get k (d, l)) = (Inr r, d', l') \<Longrightarrow> r \<noteq> 0 \<Longrightarrow> clk_refs c d' = 0" for d l r d' l'
    using clocks_get_props [of k d l r d' l' c] by (cases "clocks_get k (d, l)") (auto simp: clk_refs_def)
qed

section \<open>Regulators\<close>

lemma regus_put_props:
  "regus_put (d, l) = (d', l') \<Longrightarrow>
     total (regu_ref c) l' = total (regu_ref c) l - regu_refs c d \<and> d' = d\<lparr>dv_regus := []\<rparr> \<and> extends regu_get_call l l'"
  by (auto simp: regus_put_def regu_refs_def extends_released total_released [where P = "\<lambda>i. ri_regu i = c"])

lemma regus_get_loop_props:
  "regus_get_loop k ps nb (d, l) = (x, d', l') \<Longrightarrow>
     total (regu_ref c) l' - regu_refs c d' = total (regu_ref c) l - regu_refs c d
     \<and> ((\<exists>r. x = Inr r \<and> r \<noteq> 0) \<longrightarrow> dv_regus d' = []) \<and> d' = d\<lparr>dv_regus := dv_regus d'\<rparr>
     \<and> extends regu_get_call l l'"
proof (induction ps arbitrary: nb d l)
  case (Cons p ps)
  show ?case
  proof (cases "strstr_at p ''-supply'' \<in> {None, Some 0}")
    case True
    with Cons show ?thesis by simp
  next
    case sup: False
    let ?l1 = "KAlloc (k_kzalloc k l) # l"
    obtain nm l2 where s: "kstrdup k p ?l1 = (nm, l2)" by fastforce
    then have l2: "\<exists>b. l2 = KStrdup b # ?l1" by (auto simp: kstrdup_def Let_def)
    show ?thesis
    proof (cases "k_kzalloc k l \<and> (\<exists>n. nm = Some n)")
      case True
      then obtain n where n: "nm = Some n" by blast
      let ?n = "take (length p - 7) n"
      let ?l3 = "KReguGet ?n (k_regu_get k l2 ?n) # l2"
      show ?thesis
      proof (cases "k_regu_get k l2 ?n")
        case (Inl e)
        then have "regus_put (d, ?l3) = (d', l')"
          using Cons.prems sup True s n by (clarsimp simp: Let_def split: if_splits)
        from regus_put_props [OF this, of c] l2 Inl show ?thesis
          by (auto simp: regu_refs_def dest!: extends_Cons_left)
      next
        case (Inr h)
        let ?d = "d\<lparr>dv_regus := dv_regus d @ [\<lparr>ri_index = of_nat nb, ri_regu = h, ri_name = ?n, ri_enabled = False\<rparr>]\<rparr>"
        have "regus_get_loop k ps (Suc nb) (?d, ?l3) = (x, d', l')"
          using Cons.prems sup True s n Inr by (clarsimp simp: Let_def split: if_splits)
        from Cons.IH [OF this] l2 Inr show ?thesis
          by (auto simp: regu_refs_def dest!: extends_Cons_left)
      qed
    next
      case False
      then have "(\<exists>e. x = Inl e) \<and> d' = d \<and> l' = l2 \<or> regus_put (d, ?l1) = (d', l')"
        using Cons.prems sup s by (auto simp: Let_def split: if_splits)
      then show ?thesis using regus_put_props [of d ?l1 d' l' c] l2
        by (auto simp: regu_refs_def extends_def dest!: extends_Cons_left)
    qed
  qed
qed auto

lemma regus_get_props:
  "regus_get k (d, l) = (x, d', l') \<Longrightarrow>
     total (regu_ref c) l' - regu_refs c d' = total (regu_ref c) l - regu_refs c d
     \<and> ((\<exists>r. x = Inr r \<and> r \<noteq> 0) \<longrightarrow> dv_regus d' = []) \<and> d' = d\<lparr>dv_regus := dv_regus d'\<rparr>
     \<and> extends regu_get_call l l'"
  by (auto simp: regus_get_def split: if_splits dest: regus_get_loop_props [where c = c])

interpretation regu_refs: acquired_resource "total (regu_ref c)" "regu_refs c" "regus_get k" regus_put for c k
proof
  show "regus_put (d, l) = (d', l') \<Longrightarrow>
      total (regu_ref c) l' - regu_refs c d' = total (regu_ref c) l - regu_refs c d" for d l d' l'
    using regus_put_props [of d l d' l' c] by (auto simp: regu_refs_def)
  show "regus_put (d, l) = (d', l') \<Longrightarrow> regu_refs c d' = 0" for d l d' l'
    using regus_put_props [of d l d' l' c] by (auto simp: regu_refs_def)
  show "regus_get k (d, l) = (x, d', l') \<Longrightarrow>
      total (regu_ref c) l' - regu_refs c d' = total (regu_ref c) l - regu_refs c d" for d l x d' l'
    using regus_get_props [of k d l x d' l' c] by simp
  show "regus_get k (d, l) = (Inr r, d', l') \<Longrightarrow> r \<noteq> 0 \<Longrightarrow> regu_refs c d' = 0" for d l r d' l'
    using regus_get_props [of k d l "Inr r" d' l' c] by (simp add: regu_refs_def)
qed

section \<open>Interrupts\<close>

lemma irqs_put_props:
  "irqs_put (d, l) = (d', l') \<Longrightarrow>
     total (irq_ref c) l' = total (irq_ref c) l - irq_refs c d \<and> d' = d\<lparr>dv_irqs := []\<rparr> \<and> extends irq_get_call l l'"
  by (auto simp: irqs_put_def irq_refs_def extends_released total_released [where P = "\<lambda>i. ii_irq i = c"])

lemma irqs_get_loop_props:
  "irqs_get_loop k i n (d, l) = (r, d', l') \<Longrightarrow>
     total (irq_ref c) l' - irq_refs c d' = total (irq_ref c) l - irq_refs c d
     \<and> (r \<noteq> 0 \<longrightarrow> dv_irqs d' = []) \<and> d' = d\<lparr>dv_irqs := dv_irqs d'\<rparr> \<and> extends irq_get_call l l'"
proof (induction n arbitrary: i d l)
  case (Suc n)
  let ?l1 = "KAlloc (k_kzalloc k l) # l"
  let ?q = "k_get_irq k ?l1 i"
  let ?l2 = "KIrqGet i ?q # ?l1"
  let ?l3 = "KIrqRequest ?q (k_request_irq k ?l2 ?q) # ?l2"
  show ?case
  proof (cases "k_kzalloc k l \<and> 0 < ?q \<and> k_request_irq k ?l2 ?q = 0")
    case True
    obtain nm l4 where s: "kstrdup k (case k_string_index k ''interrupt-names'' i of Some nm \<Rightarrow> nm | None \<Rightarrow> [])
        (KIrqDisable ?q # KIrqFlags ?q # ?l3) = (nm, l4)" by fastforce
    then have l4: "\<exists>b. l4 = KStrdup b # KIrqDisable ?q # KIrqFlags ?q # ?l3"
      by (auto simp: kstrdup_def Let_def)
    let ?d = "d\<lparr>dv_irqs := dv_irqs d @ [\<lparr>ii_index = of_nat i, ii_name = nm, ii_irq = ?q\<rparr>]\<rparr>"
    have "irqs_get_loop k (Suc i) n (?d, l4) = (r, d', l')"
      using Suc.prems True s by (clarsimp simp: Let_def)
    from Suc.IH [OF this] l4 True show ?thesis
      by (auto simp: irq_refs_def dest!: extends_Cons_left)
  next
    case False
    then obtain l0 where "irqs_put (d, l0) = (d', l')"
      and l0: "l0 = ?l1 \<or> l0 = ?l2 \<or> (l0 = ?l3 \<and> k_request_irq k ?l2 ?q \<noteq> 0)"
      using Suc.prems by (auto simp: Let_def split: if_splits)
    then show ?thesis using irqs_put_props [of d l0 d' l' c]
      by (auto simp: irq_refs_def dest!: extends_Cons_left)
  qed
qed auto

lemma irqs_get_props:
  "irqs_get k (d, l) = (r, d', l') \<Longrightarrow>
     total (irq_ref c) l' - irq_refs c d' = total (irq_ref c) l - irq_refs c d
     \<and> (r \<noteq> 0 \<longrightarrow> dv_irqs d' = []) \<and> d' = d\<lparr>dv_irqs := dv_irqs d'\<rparr> \<and> extends irq_get_call l l'"
  by (auto simp: irqs_get_def Let_def split: if_splits dest: irqs_get_loop_props [where c = c])

interpretation irq_refs: acquired_resource "total (irq_ref c)" "irq_refs c"
    "\<lambda>s. map_prod Inr id (irqs_get k s)" irqs_put for c k
proof
  show "irqs_put (d, l) = (d', l') \<Longrightarrow>
      total (irq_ref c) l' - irq_refs c d' = total (irq_ref c) l - irq_refs c d" for d l d' l'
    using irqs_put_props [of d l d' l' c] by (auto simp: irq_refs_def)
  show "irqs_put (d, l) = (d', l') \<Longrightarrow> irq_refs c d' = 0" for d l d' l'
    using irqs_put_props [of d l d' l' c] by (auto simp: irq_refs_def)
  show "map_prod Inr id (irqs_get k (d, l)) = (x, d', l') \<Longrightarrow>
      total (irq_ref c) l' - irq_refs c d' = total (irq_ref c) l - irq_refs c d" for d l x d' l'
    using irqs_get_props [of k d l _ d' l' c] by (cases "irqs_get k (d, l)") auto
  show "map_prod Inr id (irqs_get k (d, l)) = (Inr r, d', l') \<Longrightarrow> r \<noteq> 0 \<Longrightarrow> irq_refs c d' = 0" for d l r d' l'
    using irqs_get_props [of k d l r d' l' c] by (cases "irqs_get k (d, l)") (auto simp: irq_refs_def)
qed

section \<open>Probing a device\<close>

text \<open>The notifier blocks on the chain, in the order they were registered.\<close>

fun registered :: "klog \<Rightarrow> string list" where
  "registered [] = []"
| "registered (KNbRegister n r # l) = (if r = 0 then registered l @ [n] else registered l)"
| "registered (KNbUnregister n r # l) = (if r = 0 then remove1 n (registered l) else registered l)"
| "registered (_ # l) = registered l"

lemma registered_extends:
  assumes "extends P l l'" "\<And>e. P e \<Longrightarrow> (\<forall>m. registered (e # m) = registered m)"
  shows "registered l' = registered l"
proof -
  from assms(1) obtain es where "l' = es @ l" "list_all P es" by (auto simp: extends_def)
  then show ?thesis using assms(2) by (induction es arbitrary: l') auto
qed

lemma get_call_effects:
  "clk_get_call e \<Longrightarrow> regu_ref r e = 0 \<and> irq_ref i e = 0 \<and> registered (e # m) = registered m"
  "regu_get_call e \<Longrightarrow> clk_ref c e = 0 \<and> irq_ref i e = 0 \<and> registered (e # m) = registered m"
  "irq_get_call e \<Longrightarrow> clk_ref c e = 0 \<and> regu_ref r e = 0 \<and> registered (e # m) = registered m"
  by (cases e; simp)+

lemma get_call_totals:
  "extends clk_get_call l l' \<Longrightarrow> total (regu_ref r) l' = total (regu_ref r) l
     \<and> total (irq_ref i) l' = total (irq_ref i) l \<and> registered l' = registered l"
  "extends regu_get_call l l' \<Longrightarrow> total (clk_ref c) l' = total (clk_ref c) l
     \<and> total (irq_ref i) l' = total (irq_ref i) l \<and> registered l' = registered l"
  "extends irq_get_call l l' \<Longrightarrow> total (clk_ref c) l' = total (clk_ref c) l
     \<and> total (regu_ref r) l' = total (regu_ref r) l \<and> registered l' = registered l"
  by (intro conjI; erule total_extends registered_extends; simp add: get_call_effects)+

text \<open>Every reference taken in between belongs to an entry, and every entry to a reference.\<close>

definition same_refs :: "dev_state \<Rightarrow> dev_state \<Rightarrow> bool" where
  "same_refs s s' \<longleftrightarrow>
     (\<forall>c. total (clk_ref c) (snd s') - clk_refs c (fst s') = total (clk_ref c) (snd s) - clk_refs c (fst s))
     \<and> (\<forall>r. total (regu_ref r) (snd s') - regu_refs r (fst s') = total (regu_ref r) (snd s) - regu_refs r (fst s))
     \<and> (\<forall>i. total (irq_ref i) (snd s') - irq_refs i (fst s') = total (irq_ref i) (snd s) - irq_refs i (fst s))
     \<and> registered (snd s') = registered (snd s)"

lemma same_refs_refl [simp]: "same_refs s s"
  by (simp add: same_refs_def)

lemma same_refs_trans [trans]: "same_refs s s1 \<Longrightarrow> same_refs s1 s2 \<Longrightarrow> same_refs s s2"
  by (simp add: same_refs_def)

lemma refs_frame:
  "d' = d\<lparr>dv_clks := cs\<rparr> \<Longrightarrow> regu_refs r d' = regu_refs r d \<and> irq_refs i d' = irq_refs i d"
  "d' = d\<lparr>dv_regus := rs\<rparr> \<Longrightarrow> clk_refs c d' = clk_refs c d \<and> irq_refs i d' = irq_refs i d"
  "d' = d\<lparr>dv_irqs := qs\<rparr> \<Longrightarrow> clk_refs c d' = clk_refs c d \<and> regu_refs r d' = regu_refs r d"
  by (auto simp: clk_refs_def regu_refs_def irq_refs_def)

lemma same_refs_clks:
  "(\<And>c. total (clk_ref c) l' - clk_refs c d' = total (clk_ref c) l - clk_refs c d) \<Longrightarrow>
     d' = d\<lparr>dv_clks := cs\<rparr> \<Longrightarrow> extends clk_get_call l l' \<Longrightarrow> same_refs (d, l) (d', l')"
  using refs_frame(1) [where d = d and cs = cs] get_call_totals(1) [of l l'] by (simp add: same_refs_def)

lemma same_refs_regus:
  "(\<And>c. total (regu_ref c) l' - regu_refs c d' = total (regu_ref c) l - regu_refs c d) \<Longrightarrow>
     d' = d\<lparr>dv_regus := rs\<rparr> \<Longrightarrow> extends regu_get_call l l' \<Longrightarrow> same_refs (d, l) (d', l')"
  using refs_frame(2) [where d = d and rs = rs] get_call_totals(2) [of l l'] by (simp add: same_refs_def)

lemma same_refs_irqs:
  "(\<And>c. total (irq_ref c) l' - irq_refs c d' = total (irq_ref c) l - irq_refs c d) \<Longrightarrow>
     d' = d\<lparr>dv_irqs := qs\<rparr> \<Longrightarrow> extends irq_get_call l l' \<Longrightarrow> same_refs (d, l) (d', l')"
  using refs_frame(3) [where d = d and qs = qs] get_call_totals(3) [of l l'] by (simp add: same_refs_def)

lemma clocks_get_refs: "clocks_get k (d, l) = (r, d', l') \<Longrightarrow> same_refs (d, l) (d', l')"
  using clocks_get_props [of k d l r d' l'] same_refs_clks [where d = d and cs = "dv_clks d'"] by blast

lemma regus_get_refs: "regus_get k (d, l) = (x, d', l') \<Longrightarrow> same_refs (d, l) (d', l')"
  using regus_get_props [of k d l x d' l'] same_refs_regus [where d = d and rs = "dv_regus d'"] by blast

lemma irqs_get_refs: "irqs_get k (d, l) = (r, d', l') \<Longrightarrow> same_refs (d, l) (d', l')"
  using irqs_get_props [of k d l r d' l'] same_refs_irqs [where d = d and qs = "dv_irqs d'"] by blast

lemma err_get_refs:
  assumes "err_get (d, l) = (d', l')"
  shows "same_refs (d, l) (d', l') \<and> d' = d\<lparr>dv_irqs := [], dv_regus := [], dv_clks := []\<rparr>"
proof -
  obtain d1 l1 d2 l2 where i: "irqs_put (d, l) = (d1, l1)" and r: "regus_put (d1, l1) = (d2, l2)"
    by (metis prod.collapse)
  with assms have c: "clocks_put (d2, l2) = (d', l')" by (simp add: err_get_def)
  note pi = irqs_put_props [OF i] and pr = regus_put_props [OF r] and pc = clocks_put_props [OF c]
  have "same_refs (d, l) (d1, l1)" using irq_refs.release_balance [OF i] pi by (blast intro: same_refs_irqs)
  also have "same_refs \<dots> (d2, l2)" using regu_refs.release_balance [OF r] pr by (blast intro: same_refs_regus)
  also have "same_refs \<dots> (d', l')" using clock_refs.release_balance [OF c] pc by (blast intro: same_refs_clks)
  finally show ?thesis using pi pr pc by simp
qed

section \<open>References over the life of a device\<close>

fun op_call :: "kcall \<Rightarrow> bool" where
  "op_call (KSend _ _) = True"
| "op_call e = (clk_power e \<or> regu_power e \<or> request_call e)"

lemma op_call_intros:
  "clk_power e \<Longrightarrow> op_call e" "regu_power e \<Longrightarrow> op_call e" "request_call e \<Longrightarrow> op_call e"
  by (cases e; simp)+

lemma op_call_effects:
  "op_call e \<Longrightarrow> clk_ref c e = 0 \<and> regu_ref r e = 0 \<and> irq_ref i e = 0 \<and> registered (e # m) = registered m"
  by (cases e; simp)

lemma op_call_totals:
  assumes "extends op_call l l'"
  shows "total (clk_ref c) l' = total (clk_ref c) l" "total (regu_ref r) l' = total (regu_ref r) l"
    "total (irq_ref i) l' = total (irq_ref i) l" "registered l' = registered l"
  using assms by (auto elim!: total_extends registered_extends simp: op_call_effects)

text \<open>The handles of a device.\<close>

definition handles :: "srm_dev \<Rightarrow> string \<times> clk list \<times> regulator list \<times> irq_info list" where
  "handles d = (dv_name d, map ci_clk (dv_clks d), map ri_regu (dv_regus d), dv_irqs d)"

lemma tally_map: "tally (\<lambda>x. P (f x)) xs = tally P (map f xs)"
  by (induction xs) auto

lemma handles_refs:
  assumes "handles d' = handles d"
  shows "clk_refs c d' = clk_refs c d" "regu_refs r d' = regu_refs r d" "irq_refs i d' = irq_refs i d"
  using assms
  by (simp_all add: handles_def clk_refs_def regu_refs_def irq_refs_def
      tally_map [where P = "\<lambda>y. y = c" and f = ci_clk] tally_map [where P = "\<lambda>y. y = r" and f = ri_regu])

text \<open>An operation after the probe takes and drops no reference.\<close>

definition keeps_refs :: "dev_state \<Rightarrow> dev_state \<Rightarrow> bool" where
  "keeps_refs s s' \<longleftrightarrow> extends op_call (snd s) (snd s') \<and> handles (fst s') = handles (fst s)"

lemma keeps_refs_trans [trans]: "keeps_refs s s1 \<Longrightarrow> keeps_refs s1 s2 \<Longrightarrow> keeps_refs s s2"
  by (auto simp: keeps_refs_def intro: extends_trans)

lemma keeps_refs_same: "keeps_refs s s' \<Longrightarrow> same_refs s s'"
  using op_call_totals [of "snd s" "snd s'"] handles_refs [of "fst s'" "fst s"]
  by (simp add: keeps_refs_def same_refs_def)

lemma clk_frame_handles:
  "d' = d\<lparr>dv_clks := cs\<rparr> \<Longrightarrow> map ci_clk (dv_clks d') = map ci_clk (dv_clks d) \<Longrightarrow> handles d' = handles d"
  by (simp add: handles_def)

lemma regu_frame_handles:
  "d' = d\<lparr>dv_regus := rs\<rparr> \<Longrightarrow> map ri_regu (dv_regus d') = map ri_regu (dv_regus d) \<Longrightarrow> handles d' = handles d"
  by (simp add: handles_def)

lemma clk_frame_keeps:
  assumes "extends clk_power l l' \<and> d' = d\<lparr>dv_clks := dv_clks d'\<rparr>"
    and "map ci_clk (dv_clks d') = map ci_clk (dv_clks d)"
  shows "keeps_refs (d, l) (d', l')"
  using assms clk_frame_handles [where d = d and cs = "dv_clks d'"] extends_mono [of clk_power l l' op_call] op_call_intros
  unfolding keeps_refs_def fst_conv snd_conv by blast

lemma regu_frame_keeps:
  assumes "extends regu_power l l' \<and> d' = d\<lparr>dv_regus := dv_regus d'\<rparr>"
    and "map ri_regu (dv_regus d') = map ri_regu (dv_regus d)"
  shows "keeps_refs (d, l) (d', l')"
  using assms regu_frame_handles [where d = d and rs = "dv_regus d'"] extends_mono [of regu_power l l' op_call] op_call_intros
  unfolding keeps_refs_def fst_conv snd_conv by blast

lemmas clocks_op_keeps = clk_frame_keeps [OF clocks_setup_frame clocks_setup_handles]
  clk_frame_keeps [OF clocks_unsetup_frame clocks_unsetup_handles]

lemmas regus_op_keeps = regu_frame_keeps [OF regus_setup_frame regus_setup_handles]
  regu_frame_keeps [OF regus_unsetup_frame regus_unsetup_handles]

lemma dev_bind_keeps: "dev_bind k (d, l) = (r, d', l') \<Longrightarrow> keeps_refs (d, l) (d', l')"
  by (erule dev_bind_cases) (blast intro: clocks_op_keeps(1) regus_op_keeps(1) keeps_refs_trans)+

lemma dev_unbind_keeps:
  assumes "dev_unbind k (d, l) = (d', l')" shows "keeps_refs (d, l) (d', l')"
proof -
  obtain d1 l1 where g: "regus_unsetup k (d, l) = (d1, l1)" by fastforce
  with assms have c: "clocks_unsetup k (d1, l1) = (d', l')" by (simp add: dev_unbind_def)
  from g c show ?thesis by (blast intro: clocks_op_keeps(2) regus_op_keeps(2) keeps_refs_trans)
qed

lemma notify_cb_keeps:
  assumes "notify_cb k mem s = (r, s')" shows "keeps_refs s s'"
proof -
  from notify_cb_frame [OF assms] obtain l1 where f: "request_frame s (fst s', l1)"
    and l: "snd s' = l1 \<or> (\<exists>b x. snd s' = KSend b x # l1)" by blast
  from f have "handles (fst s') = handles (fst s)"
    by (intro regu_frame_handles [where rs = "dv_regus (fst s')"]) (simp_all add: request_frame_def)
  moreover from f have "extends op_call (snd s) l1"
    by (auto simp: request_frame_def intro: extends_mono op_call_intros(3))
  ultimately show ?thesis using l extends_Cons [of op_call "snd s" l1] by (auto simp: keeps_refs_def)
qed

lemma dev_steps_keep: "(dev_step k)\<^sup>*\<^sup>* s s' \<Longrightarrow> keeps_refs s s'"
proof (induction rule: rtranclp_induct)
  case (step s1 s2)
  have "keeps_refs s1 s2"
    using step.hyps(2)
    by (cases s1; cases s2; elim dev_stepE) (auto dest: dev_bind_keeps dev_unbind_keeps notify_cb_keeps)
  with step.IH show ?case by (rule keeps_refs_trans)
qed (simp add: keeps_refs_def)

section \<open>The result of the probe\<close>

text \<open>The lists of a device that has just been probed: numbered from 0, nothing switched on.\<close>

definition fresh_clks :: "clk_info list \<Rightarrow> bool" where
  "fresh_clks cs \<longleftrightarrow> (\<forall>i<length cs. ci_index (cs ! i) = of_nat i \<and> \<not> ci_parent_enabled (cs ! i))"

definition fresh_regus :: "regu_info list \<Rightarrow> bool" where
  "fresh_regus rs \<longleftrightarrow> (\<forall>i<length rs. ri_index (rs ! i) = of_nat i \<and> \<not> ri_enabled (rs ! i))"

definition fresh_dev :: "string \<Rightarrow> bool \<Rightarrow> srm_dev \<Rightarrow> bool" where
  "fresh_dev n early d \<longleftrightarrow>
     dv_name d = n \<and> dv_early_boot d = early \<and> fresh_clks (dv_clks d) \<and> fresh_regus (dv_regus d)"

lemma fresh_snoc:
  "fresh_clks cs \<Longrightarrow> fresh_clks (cs @ [\<lparr>ci_index = of_nat (length cs), ci_clk = c, ci_name = nm, ci_parent_enabled = False\<rparr>])"
  "fresh_regus rs \<Longrightarrow> fresh_regus (rs @ [\<lparr>ri_index = of_nat (length rs), ri_regu = r, ri_name = s, ri_enabled = False\<rparr>])"
  by (auto simp: fresh_clks_def fresh_regus_def nth_append less_Suc_eq)

lemma fresh_Nil [simp]: "fresh_clks []" "fresh_regus []"
  by (simp_all add: fresh_clks_def fresh_regus_def)

lemma clocks_get_loop_fresh:
  "clocks_get_loop k (length (dv_clks d)) n (d, l) = (r, d', l') \<Longrightarrow> fresh_clks (dv_clks d) \<Longrightarrow>
     fresh_clks (dv_clks d')"
proof (induction n arbitrary: d l)
  case (Suc n)
  have r: "clocks_get_loop k (Suc (length (dv_clks d))) n
      (d\<lparr>dv_clks := dv_clks d @ [\<lparr>ci_index = of_nat (length (dv_clks d)), ci_clk = c, ci_name = nm,
                                 ci_parent_enabled = False\<rparr>]\<rparr>, m) = (r, d', l')
      \<Longrightarrow> fresh_clks (dv_clks d')" for c nm m
    using Suc.IH [of "d\<lparr>dv_clks := dv_clks d @ [\<lparr>ci_index = of_nat (length (dv_clks d)), ci_clk = c,
        ci_name = nm, ci_parent_enabled = False\<rparr>]\<rparr>" m] fresh_snoc(1) [OF Suc.prems(2)] by simp
  show ?case
    using Suc.prems(1)
    by (auto simp: Let_def clocks_put_def split: if_splits sum.splits prod.splits dest!: r)
qed simp

lemma regus_get_loop_fresh:
  "regus_get_loop k ps (length (dv_regus d)) (d, l) = (x, d', l') \<Longrightarrow> fresh_regus (dv_regus d) \<Longrightarrow>
     fresh_regus (dv_regus d')"
proof (induction ps arbitrary: d l)
  case (Cons p ps)
  have r: "regus_get_loop k ps (Suc (length (dv_regus d)))
      (d\<lparr>dv_regus := dv_regus d @ [\<lparr>ri_index = of_nat (length (dv_regus d)), ri_regu = c, ri_name = nm,
                                   ri_enabled = False\<rparr>]\<rparr>, m) = (x, d', l')
      \<Longrightarrow> fresh_regus (dv_regus d')" for c nm m
    using Cons.IH [of "d\<lparr>dv_regus := dv_regus d @ [\<lparr>ri_index = of_nat (length (dv_regus d)), ri_regu = c,
        ri_name = nm, ri_enabled = False\<rparr>]\<rparr>" m] fresh_snoc(2) [OF Cons.prems(2)] by simp
  show ?case
    using Cons.prems Cons.IH [of d l]
    by (auto simp: Let_def regus_put_def split: if_splits sum.splits prod.splits option.splits dest!: r)
qed simp

lemma clocks_get_fresh:
  "clocks_get k (d, l) = (r, d', l') \<Longrightarrow> dv_clks d = [] \<Longrightarrow> fresh_clks (dv_clks d')"
  using clocks_get_loop_fresh [of k d] by (auto simp: clocks_get_def Let_def split: if_splits)

lemma regus_get_fresh:
  "regus_get k (d, l) = (x, d', l') \<Longrightarrow> dv_regus d = [] \<Longrightarrow> fresh_regus (dv_regus d')"
  using regus_get_loop_fresh [of k "k_prop_names k" d] by (auto simp: regus_get_def split: if_splits)

text \<open>The accounts of a probe: \<open>dv\<close> is the device it leaves.\<close>

definition probe_accounts :: "string \<Rightarrow> klog \<Rightarrow> srm_dev option \<Rightarrow> klog \<Rightarrow> bool" where
  "probe_accounts n l dv l' \<longleftrightarrow>
     (\<forall>c. total (clk_ref c) l' = total (clk_ref c) l + (case dv of None \<Rightarrow> 0 | Some d \<Rightarrow> clk_refs c d))
     \<and> (\<forall>r. total (regu_ref r) l' = total (regu_ref r) l + (case dv of None \<Rightarrow> 0 | Some d \<Rightarrow> regu_refs r d))
     \<and> (\<forall>i. total (irq_ref i) l' = total (irq_ref i) l + (case dv of None \<Rightarrow> 0 | Some d \<Rightarrow> irq_refs i d))
     \<and> registered l' = registered l @ (case dv of None \<Rightarrow> [] | Some _ \<Rightarrow> [n])"

lemma no_refs [simp]:
  "dv_clks d = [] \<Longrightarrow> clk_refs c d = 0" "dv_regus d = [] \<Longrightarrow> regu_refs r d = 0" "dv_irqs d = [] \<Longrightarrow> irq_refs i d = 0"
  by (simp_all add: clk_refs_def regu_refs_def irq_refs_def)

lemma same_refs_accounts:
  "same_refs (d0, l) (d, l') \<Longrightarrow> dv_clks d0 = [] \<Longrightarrow> dv_regus d0 = [] \<Longrightarrow> dv_irqs d0 = [] \<Longrightarrow>
     dv_clks d = [] \<Longrightarrow> dv_regus d = [] \<Longrightarrow> dv_irqs d = [] \<Longrightarrow> probe_accounts n l None l'"
  by (simp add: same_refs_def probe_accounts_def)

lemma err_get_accounts:
  assumes "same_refs (d0, l) (d, l1)" "dv_clks d0 = []" "dv_regus d0 = []" "dv_irqs d0 = []"
  shows "probe_accounts n l None (snd (err_get (d, l1)))"
proof -
  obtain d' l2 where e: "err_get (d, l1) = (d', l2)" by fastforce
  from same_refs_trans [OF assms(1)] err_get_refs [OF e] have "same_refs (d0, l) (d', l2)" by blast
  then show ?thesis using assms err_get_refs [OF e] e by (simp add: same_refs_accounts)
qed

lemma probe_accounts_registered_Cons:
  "probe_accounts n l None l1 \<Longrightarrow> r \<noteq> 0 \<Longrightarrow> probe_accounts n l None (KNbRegister m r # l1)"
  "probe_accounts n l None l1 \<Longrightarrow> n \<notin> set (registered l) \<Longrightarrow> probe_accounts n l None (KNbUnregister n r # l1)"
  by (simp_all add: probe_accounts_def remove1_idem)

lemma same_refs_register_fails:
  assumes "same_refs (d0, l) (d, l1)" "r \<noteq> 0" "n \<notin> set (registered l)"
  shows "same_refs (d0, l) (d, KNbUnregister n x # KNbRegister n r # l1)"
  using assms by (simp add: same_refs_def remove1_idem)

lemma upd_fields:
  "d' = d\<lparr>dv_clks := cs\<rparr> \<Longrightarrow> dv_name d' = dv_name d \<and> dv_early_boot d' = dv_early_boot d
     \<and> dv_regus d' = dv_regus d \<and> dv_irqs d' = dv_irqs d"
  "d' = d\<lparr>dv_regus := rs\<rparr> \<Longrightarrow> dv_name d' = dv_name d \<and> dv_early_boot d' = dv_early_boot d
     \<and> dv_clks d' = dv_clks d \<and> dv_irqs d' = dv_irqs d"
  "d' = d\<lparr>dv_irqs := qs\<rparr> \<Longrightarrow> dv_name d' = dv_name d \<and> dv_early_boot d' = dv_early_boot d
     \<and> dv_clks d' = dv_clks d \<and> dv_regus d' = dv_regus d"
  by simp_all

lemma dev_probe_result:
  assumes n: "n \<notin> set (registered l)"
    and p: "dev_probe k n early l = (Inr (r, dv), l')"
  shows "probe_accounts n l dv l' \<and>
    (case dv of None \<Rightarrow> r \<noteq> 0 | Some d \<Rightarrow> fresh_dev n early d \<and> (\<exists>l1. r = k_component_add k l1 n \<and> l' = KCompAdd n r # l1))"
proof (cases "k_kzalloc k l")
  case False
  with p have "l' = KAlloc False # l" "dv = None" "r = - ENOMEM"
    by (auto simp: dev_probe_def Let_def)
  then show ?thesis by (simp add: probe_accounts_def ENOMEM_def)
next
  case True
  let ?d0 = "\<lparr>dv_name = n, dv_early_boot = early, dv_clks = [], dv_regus = [], dv_irqs = []\<rparr>"
  let ?l1 = "KAlloc True # l"
  obtain r1 d1 l2 where c: "clocks_get k (?d0, ?l1) = (r1, d1, l2)" by (metis prod.collapse)
  obtain x2 d2 l3 where g: "regus_get k (d1, l2) = (x2, d2, l3)" by (metis prod.collapse)
  obtain r3 d3 l4 where q: "irqs_get k (d2, l3) = (r3, d3, l4)" by (metis prod.collapse)
  have 0: "same_refs (?d0, l) (?d0, ?l1)" by (simp add: same_refs_def)
  note s1 = same_refs_trans [OF 0 clocks_get_refs [OF c]]
  note s2 = same_refs_trans [OF s1 regus_get_refs [OF g]]
  note s3 = same_refs_trans [OF s2 irqs_get_refs [OF q]]
  note c_p = clocks_get_props [OF c] and g_p = regus_get_props [OF g] and q_p = irqs_get_props [OF q]
  have f1: "d1 = ?d0\<lparr>dv_clks := dv_clks d1\<rparr>" and f2: "d2 = d1\<lparr>dv_regus := dv_regus d2\<rparr>"
    and f3: "d3 = d2\<lparr>dv_irqs := dv_irqs d3\<rparr>"
    using c_p g_p q_p by blast+
  show ?thesis
  proof (cases "r1 = 0")
    case False
    then have e: "l' = l2" "dv = None" "r = r1" using p True c by (auto simp: dev_probe_def)
    have "dv_clks d1 = []" "dv_regus d1 = []" "dv_irqs d1 = []"
      using c_p [THEN conjunct2, THEN conjunct1] False upd_fields(1) [OF f1] by simp_all
    with s1 e False show ?thesis by (simp add: same_refs_accounts)
  next
    case r1: True
    have d1: "dv_name d1 = n \<and> dv_early_boot d1 = early \<and> dv_regus d1 = []"
      using upd_fields(1) [OF f1] by simp
    have d2: "dv_name d2 = n \<and> dv_early_boot d2 = early \<and> dv_clks d2 = dv_clks d1"
      using d1 upd_fields(2) [OF f2] by simp
    have d3: "dv_name d3 = n \<and> dv_early_boot d3 = early \<and> dv_clks d3 = dv_clks d1 \<and> dv_regus d3 = dv_regus d2"
      using d2 upd_fields(3) [OF f3] by simp
    obtain r2 where x2: "x2 = Inr r2" using r1 p True c g by (cases x2) (auto simp: dev_probe_def)
    show ?thesis
    proof (cases "r2 = 0 \<and> r3 = 0")
      case False
      then have "dv = None \<and> (l' = snd (err_get (d2, l3)) \<and> r = r2 \<and> r2 \<noteq> 0 \<or> l' = snd (err_get (d3, l4)) \<and> r = r3 \<and> r3 \<noteq> 0)"
        using p True c r1 g x2 q by (auto simp: dev_probe_def split: if_splits)
      then show ?thesis using err_get_accounts [OF s2, of n] err_get_accounts [OF s3, of n] by auto
    next
      case ok: True
      let ?r = "k_nb_register k l4 n" and ?l5 = "KNbRegister n (k_nb_register k l4 n) # l4"
      show ?thesis
      proof (cases "?r = 0")
        case False

        let ?l6 = "KNbUnregister n (k_nb_unregister k ?l5 n) # ?l5"
        have "dv = None" "r = ?r" "l' = snd (err_get (d3, ?l6))"
          using p True c r1 g x2 q ok False d3
          by (auto simp: dev_probe_def register_notifier_def err_register_def unregister_notifier_def Let_def)
        with err_get_accounts [OF same_refs_register_fails [OF s3 False n], of n] False
        show ?thesis by simp
      next
        case reg: True
        then have e: "dv = Some d3" "r = k_component_add k ?l5 n" "l' = KCompAdd n r # ?l5"
          using p True c r1 g x2 q ok by (auto simp: dev_probe_def register_notifier_def Let_def)
        have "fresh_dev n early d3"
          using d1 d3 clocks_get_fresh [OF c] regus_get_fresh [OF g] by (simp add: fresh_dev_def)
        with e reg s3 show ?thesis by (simp add: probe_accounts_def same_refs_def diff_eq_eq)
      qed
    qed
  qed
qed

section \<open>Removing a device\<close>

lemma err_get_restores:
  assumes "err_get (d, l) = (d', l')"
  shows "total (clk_ref c) l' = total (clk_ref c) l - clk_refs c d"
    and "total (regu_ref r) l' = total (regu_ref r) l - regu_refs r d"
    and "total (irq_ref i) l' = total (irq_ref i) l - irq_refs i d"
    and "registered l' = registered l"
  using err_get_refs [OF assms] by (simp_all add: same_refs_def diff_eq_eq)

text \<open>What \<open>dev_remove\<close> does, step by step: it unbinds, leaves the chain and releases.\<close>

lemma dev_removeE:
  assumes "dev_remove k (d, l) = (d', l')"
  obtains d1 l1 where
    "(if k_del_unbinds k l then dev_unbind k (d, KCompDel (dv_name d) # l) else (d, KCompDel (dv_name d) # l)) = (d1, l1)"
    "err_get (d1, KNbUnregister (dv_name d1) (k_nb_unregister k l1 (dv_name d1)) # l1) = (d', l')"
proof -
  obtain d1 l1 where u: "(if k_del_unbinds k l then dev_unbind k (d, KCompDel (dv_name d) # l)
      else (d, KCompDel (dv_name d) # l)) = (d1, l1)" by fastforce
  with assms have "err_get (d1, KNbUnregister (dv_name d1) (k_nb_unregister k l1 (dv_name d1)) # l1) = (d', l')"
    by (simp add: dev_remove_def err_get_def unregister_notifier_def Let_def)
  with u that show thesis by blast
qed

lemma get_calls_power:
  "clk_get_call e \<or> regu_get_call e \<or> irq_get_call e \<Longrightarrow> regu_on r e = 0 \<and> parent_on p e = 0"
  by (cases e; simp)

lemma err_get_power:
  "total (regu_on r) (snd (err_get (d, l))) = total (regu_on r) l"
  "total (parent_on p) (snd (err_get (d, l))) = total (parent_on p) l"
proof -
  obtain d1 l1 d2 l2 d3 l3 where i: "irqs_put (d, l) = (d1, l1)" and r: "regus_put (d1, l1) = (d2, l2)"
    and c: "clocks_put (d2, l2) = (d3, l3)" by (metis prod.collapse)
  let ?P = "\<lambda>e. clk_get_call e \<or> regu_get_call e \<or> irq_get_call e"
  have "extends irq_get_call l l1" "extends regu_get_call l1 l2" "extends clk_get_call l2 l3"
    using irqs_put_props [OF i] regus_put_props [OF r] clocks_put_props [OF c] by blast+
  then have "extends ?P l l1" "extends ?P l1 l2" "extends ?P l2 l3"
    by - (erule extends_mono, simp)+
  then have "extends ?P l (snd (err_get (d, l)))"
    using i r c by (auto simp: err_get_def intro: extends_trans)
  then show "total (regu_on r) (snd (err_get (d, l))) = total (regu_on r) l"
    "total (parent_on p) (snd (err_get (d, l))) = total (parent_on p) l"
    by (auto elim!: total_extends simp: get_calls_power)
qed

lemma fresh_holds_nothing:
  assumes "fresh_dev n early d" shows "regu_held q d = 0" and "parent_held par p d = 0"
  using assms
  by (auto simp: fresh_dev_def fresh_clks_def fresh_regus_def regu_held_def parent_held_def in_set_conv_nth
      intro!: tally_0)

section \<open>The calls a device makes\<close>

text \<open>The calls of the probe, and those of everything a device does.\<close>

fun acquire_call :: "kcall \<Rightarrow> bool" where
  "acquire_call (KNbRegister _ _) = True" | "acquire_call (KNbUnregister _ _) = True"
| "acquire_call (KCompAdd _ _) = True" | "acquire_call (KCompDel _) = True"
| "acquire_call e = (clk_get_call e \<or> regu_get_call e \<or> irq_get_call e)"

definition device_call :: "kcall \<Rightarrow> bool" where
  "device_call e \<longleftrightarrow> acquire_call e \<or> op_call e"

abbreviation "acquires \<equiv> extends acquire_call"
abbreviation "internal \<equiv> extends device_call"

lemma acquire_call_intros:
  "clk_get_call e \<Longrightarrow> acquire_call e" "regu_get_call e \<Longrightarrow> acquire_call e" "irq_get_call e \<Longrightarrow> acquire_call e"
  by (cases e; simp)+

lemma acquires_intros:
  "extends clk_get_call l l' \<Longrightarrow> acquires l l'" "extends regu_get_call l l' \<Longrightarrow> acquires l l'"
  "extends irq_get_call l l' \<Longrightarrow> acquires l l'"
  by (erule extends_mono, erule acquire_call_intros)+

lemma internal_intros: "acquires l l' \<Longrightarrow> internal l l'" "extends op_call l l' \<Longrightarrow> internal l l'"
  by (erule extends_mono, simp add: device_call_def)+

lemma keeps_refs_internal: "keeps_refs s s' \<Longrightarrow> internal (snd s) (snd s')"
  by (simp add: keeps_refs_def internal_intros)

lemma extends_Cons_iff: "P e \<Longrightarrow> extends P l (e # l') \<longleftrightarrow> extends P l l' \<or> l = e # l'"
  by (auto simp: extends_def Cons_eq_append_conv)

lemma err_get_acquires: "acquires l (snd (err_get (d, l)))"
proof -
  obtain d1 l1 d2 l2 d3 l3 where i: "irqs_put (d, l) = (d1, l1)" and r: "regus_put (d1, l1) = (d2, l2)"
    and c: "clocks_put (d2, l2) = (d3, l3)" by (metis prod.collapse)
  then have "acquires l l1" "acquires l1 l2" "acquires l2 l3"
    using irqs_put_props [OF i] regus_put_props [OF r] clocks_put_props [OF c] acquires_intros by blast+
  then show ?thesis using i r c by (auto simp: err_get_def intro: extends_trans)
qed

lemma dev_probe_acquires: "acquires l (snd (dev_probe k n early l))"
proof -
  let ?d0 = "\<lparr>dv_name = n, dv_early_boot = early, dv_clks = [], dv_regus = [], dv_irqs = []\<rparr>"
  let ?l1 = "KAlloc (k_kzalloc k l) # l"
  obtain r1 d1 l2 where c: "clocks_get k (?d0, ?l1) = (r1, d1, l2)" by (metis prod.collapse)
  obtain x2 d2 l3 where g: "regus_get k (d1, l2) = (x2, d2, l3)" by (metis prod.collapse)
  obtain r3 d3 l4 where q: "irqs_get k (d2, l3) = (r3, d3, l4)" by (metis prod.collapse)
  have 1: "acquires l ?l1" by (simp add: extends_Cons_iff)
  have s: "acquires ?l1 l2" "acquires l2 l3" "acquires l3 l4"
    using clocks_get_props [OF c] regus_get_props [OF g] irqs_get_props [OF q] acquires_intros by blast+
  note a = extends_trans [OF 1 s(1)]
  note b = extends_trans [OF a s(2)]
  note 2 = a b extends_trans [OF b s(3)]
  have e: "acquires l m \<Longrightarrow> acquires l (snd (err_get (d, m)))" for d m
    using err_get_acquires extends_trans by blast
  show ?thesis
    using 1 2 c g q e
    by (auto simp: dev_probe_def register_notifier_def err_register_def unregister_notifier_def Let_def
        extends_Cons split: sum.splits)
qed

lemma dev_bind_internal: "internal l (snd (snd (dev_bind k (d, l))))"
  using dev_bind_keeps [of k d l] keeps_refs_internal by (cases "dev_bind k (d, l)") fastforce

lemma dev_unbind_internal: "internal l (snd (dev_unbind k (d, l)))"
  using dev_unbind_keeps [of k d l] keeps_refs_internal by (cases "dev_unbind k (d, l)") fastforce

lemma notify_cb_internal: "internal l (snd (snd (notify_cb k mem (d, l))))"
  using notify_cb_keeps [of k mem "(d, l)"] keeps_refs_internal by (cases "notify_cb k mem (d, l)") fastforce

lemma dev_remove_internal: "internal l (snd (dev_remove k (d, l)))"
proof -
  obtain d' l' where r: "dev_remove k (d, l) = (d', l')" by fastforce
  let ?l = "KCompDel (dv_name d) # l"
  from r obtain d1 l1 where u: "(if k_del_unbinds k l then dev_unbind k (d, ?l) else (d, ?l)) = (d1, l1)"
    and e: "err_get (d1, KNbUnregister (dv_name d1) (k_nb_unregister k l1 (dv_name d1)) # l1) = (d', l')"
    by (rule dev_removeE)
  have "internal ?l l1"
    using u dev_unbind_internal [of ?l k d] by (auto split: if_splits)
  then have "internal l l1" by (rule extends_Cons_left) (simp add: device_call_def)
  then have "internal l (KNbUnregister (dv_name d1) (k_nb_unregister k l1 (dv_name d1)) # l1)"
    by (rule extends_Cons) (simp add: device_call_def)
  then show ?thesis using r e err_get_acquires internal_intros(1) extends_trans by (metis snd_conv)
qed

end
