(* ===== verification/Srm_Books.thy ===== *)
theory Srm_Books
  imports Srm_Probe
begin

text \<open>
  The books of a device: every count the kernel keeps for it, next to what the device says it holds.
  Binding, unbinding and requests keep the books, a probe opens them and a removal closes them.
\<close>

section \<open>The accounts\<close>

text \<open>What is counted in the log, with what a device says of it. The enable counts of parent clocks
  are in order only if no bind has failed, see \<open>failed_bind_keeps_clocks\<close>.\<close>

inductive account :: "(clk \<Rightarrow> clk) \<Rightarrow> bool \<Rightarrow> (kcall \<Rightarrow> int) \<Rightarrow> (srm_dev \<Rightarrow> int) \<Rightarrow> bool" for par s where
  account_clk: "account par s (clk_ref c) (clk_refs c)"
| account_regu: "account par s (regu_ref r) (regu_refs r)"
| account_irq: "account par s (irq_ref i) (irq_refs i)"
| account_power: "account par s (regu_on r) (regu_held r)"
| account_parent: "s \<Longrightarrow> account par s (parent_on p) (parent_held par p)"

inductive_cases accountE: "account par s f h"

lemma account_chain_calls:
  "account par s f h \<Longrightarrow> f (KCompDel n) = 0" "account par s f h \<Longrightarrow> f (KNbUnregister n r) = 0"
  by (elim accountE; simp)+

text \<open>An operation on a device that keeps its books.\<close>

definition keeps_books :: "(clk \<Rightarrow> clk) \<Rightarrow> dev_state \<Rightarrow> dev_state \<Rightarrow> bool" where
  "keeps_books par x x' \<longleftrightarrow>
     (\<forall>s f h. account par s f h \<longrightarrow> total f (snd x') - h (fst x') = total f (snd x) - h (fst x))
     \<and> keeps_refs x x'"

lemma keeps_booksI:
  assumes k: "keeps_refs x x'" and r: "\<And>q. regu_excess q x' = regu_excess q x"
    and p: "\<And>p. parent_excess par p x' = parent_excess par p x"
  shows "keeps_books par x x'"
proof -
  have "total f (snd x') - h (fst x') = total f (snd x) - h (fst x)" if "account par s f h" for s f h
    using that keeps_refs_same [OF k] r p
    by (cases rule: account.cases) (simp_all add: same_refs_def regu_excess_def parent_excess_def)
  with k show ?thesis by (simp add: keeps_books_def)
qed

lemma keeps_booksD:
  "keeps_books par (d, l) (d', l') \<Longrightarrow> account par s f h \<Longrightarrow> total f l' = total f l - h d + h d'"
  unfolding keeps_books_def by (metis add_diff_cancel_left' diff_add_cancel diff_add_eq fst_conv snd_conv)

lemma dev_ops_keep_books:
  "steady_parents k par \<Longrightarrow> dev_bind k (d, l) = (r, d', l') \<Longrightarrow> keeps_books par (d, l) (d', l')"
  "steady_parents k par \<Longrightarrow> dev_unbind k (d, l) = (d', l') \<Longrightarrow> keeps_books par (d, l) (d', l')"
  "notify_cb k mem (d, l) = (x, d', l') \<Longrightarrow> keeps_books par (d, l) (d', l')"
  by (blast intro: keeps_booksI dev_bind_keeps dev_unbind_keeps notify_cb_keeps dev_bind_excess
      dev_unbind_props(1,2) notify_cb_excess)+

text \<open>Probing and removing a device.\<close>

lemma acquires_power:
  assumes "acquires l l'"
  shows "total (regu_on q) l' = total (regu_on q) l" and "total (parent_on p) l' = total (parent_on p) l"
proof -
  have "acquire_call e \<Longrightarrow> regu_on q e = 0 \<and> parent_on p e = 0" for e by (cases e) auto
  with assms show "total (regu_on q) l' = total (regu_on q) l" "total (parent_on p) l' = total (parent_on p) l"
    by (auto elim!: total_extends)
qed

lemma dev_probe_books:
  assumes n: "n \<notin> set (registered l)" and p: "dev_probe k n early l = (Inr (r, dv), l')"
    and a: "account par s f h"
  shows "total f l' = total f l + (case dv of None \<Rightarrow> 0 | Some d \<Rightarrow> h d)"
proof -
  note pr = dev_probe_result [OF n p]
  have "acquires l l'" using dev_probe_acquires [of l k n early] p by simp
  note pw = acquires_power [OF this]
  have z: "regu_held q d = 0 \<and> parent_held par c d = 0" if "dv = Some d" for q c d
    using pr that fresh_holds_nothing [of n early d] by simp
  from a show ?thesis
    using pr pw z by (cases rule: account.cases) (auto simp: probe_accounts_def split: option.splits)
qed

text \<open>Removing gives back every reference; what is switched on goes with the unbind, if the framework
  has one to do.\<close>

lemma dev_remove_accounts:
  assumes rm: "dev_remove k (d, l) = (d', l')"
    and steady: "steady_parents k par" and off: "\<forall>l q. k_regu_disable k l q = 0"
  shows "total (clk_ref c) l' = total (clk_ref c) l - clk_refs c d"
    and "total (regu_ref q) l' = total (regu_ref q) l - regu_refs q d"
    and "total (irq_ref i) l' = total (irq_ref i) l - irq_refs i d"
    and "total (regu_on q) l' = total (regu_on q) l - (if k_del_unbinds k l then regu_held q d else 0)"
    and "total (parent_on p) l' = total (parent_on p) l - (if k_del_unbinds k l then parent_held par p d else 0)"
proof -
  let ?l = "KCompDel (dv_name d) # l"
  from rm obtain d1 l1 where u: "(if k_del_unbinds k l then dev_unbind k (d, ?l) else (d, ?l)) = (d1, l1)"
    and e: "err_get (d1, KNbUnregister (dv_name d1) (k_nb_unregister k l1 (dv_name d1)) # l1) = (d', l')"
    by (rule dev_removeE)
  let ?l1 = "KNbUnregister (dv_name d1) (k_nb_unregister k l1 (dv_name d1)) # l1"
  have b: "total f l1 - h d1 = total f ?l - h d" if "account par True f h" for f h
    using u dev_ops_keep_books(2) [OF steady, of d ?l d1 l1] that by (auto simp: keeps_books_def split: if_splits)
  have z: "regu_held q d1 = (if k_del_unbinds k l then 0 else regu_held q d)"
    "parent_held par p d1 = (if k_del_unbinds k l then 0 else parent_held par p d)"
    using u dev_unbind_props(3,4) [of k d ?l d1 l1] off by (auto split: if_splits)
  note accs = account.intros(1-4) [of par True] account_parent [OF TrueI, of par]
  show "total (clk_ref c) l' = total (clk_ref c) l - clk_refs c d"
    "total (regu_ref q) l' = total (regu_ref q) l - regu_refs q d"
    "total (irq_ref i) l' = total (irq_ref i) l - irq_refs i d"
    using b [OF accs(1), of c] b [OF accs(2), of q] b [OF accs(3), of i] err_get_restores(1-3) [OF e] by simp_all
  show "total (regu_on q) l' = total (regu_on q) l - (if k_del_unbinds k l then regu_held q d else 0)"
    "total (parent_on p) l' = total (parent_on p) l - (if k_del_unbinds k l then parent_held par p d else 0)"
    using b [OF accs(4), of q] b [OF accs(5), of p] err_get_power [of _ d1 ?l1] e z by (simp_all split: if_splits)
qed

lemma dev_remove_chain:
  assumes rm: "dev_remove k (d, l) = (d', l')" and "\<forall>l. k_nb_unregister k l (dv_name d) = 0"
  shows "registered l' = remove1 (dv_name d) (registered l)"
proof -
  let ?l = "KCompDel (dv_name d) # l"
  from rm obtain d1 l1 where u: "(if k_del_unbinds k l then dev_unbind k (d, ?l) else (d, ?l)) = (d1, l1)"
    and e: "err_get (d1, KNbUnregister (dv_name d1) (k_nb_unregister k l1 (dv_name d1)) # l1) = (d', l')"
    by (rule dev_removeE)
  have "keeps_refs (d, ?l) (d1, l1)"
    using u dev_unbind_keeps [of k d ?l d1 l1] by (auto simp: keeps_refs_def split: if_splits)
  then have "dv_name d1 = dv_name d" "registered l1 = registered ?l"
    using op_call_totals(4) by (auto simp: keeps_refs_def handles_def)
  with assms(2) show ?thesis using err_get_restores(4) [OF e] by simp
qed

lemma dev_remove_books:
  assumes rm: "dev_remove k (d, l) = (d', l')" and a: "account par s f h"
    and steady: "steady_parents k par" and off: "\<forall>l q. k_regu_disable k l q = 0"
    and idle: "\<not> k_del_unbinds k l \<Longrightarrow> (\<forall>q. regu_held q d = 0) \<and> (s \<longrightarrow> (\<forall>p. parent_held par p d = 0))"
  shows "total f l' = total f l - h d"
  using a dev_remove_accounts [OF rm steady off] idle by (cases rule: account.cases) auto

text \<open>Any number of binds, unbinds and requests.\<close>

lemma dev_steps_keep_books:
  "steady_parents k par \<Longrightarrow> (dev_step k)\<^sup>*\<^sup>* x x' \<Longrightarrow> keeps_books par x x'"
  by (intro keeps_booksI dev_steps_keep) (auto dest: dev_steps_excess)

end
