(* ===== verification/Srm_Correct.thy ===== *)
theory Srm_Correct
  imports Srm_Books
begin

text \<open>
  The properties of the resource device: what it has switched on is what its entries say, a device
  that is probed, used and removed gives everything back, what a failed bind leaves behind, and how
  the requests of the coprocessor are answered. The witnesses run on \<open>demo_kernel\<close>, a device with one
  clock, one regulator and one interrupt.
\<close>

section \<open>A device to try things on\<close>

definition demo_kernel :: srm_kernel where
  "demo_kernel =
     \<lparr>k_of_node = True, k_prop_names = [''reg'', ''vdd-supply''], k_string_index = (\<lambda>_ _. None),
      k_kzalloc = (\<lambda>_. True), k_kstrdup = (\<lambda>_. True), k_clk_parent_count = (\<lambda>_. 1),
      k_clk_get = (\<lambda>_ i. Inr 7), k_clk_get_parent = (\<lambda>_ c. c + 1), k_clk_prepare_enable = (\<lambda>_ _. 0),
      k_clk_get_rate = (\<lambda>l c. case l of KClkSetRate q r x # _ \<Rightarrow> if q = c \<and> x = 0 then r else 5 | _ \<Rightarrow> 5),
      k_clk_set_rate = (\<lambda>_ _ _. 0), k_regu_get = (\<lambda>_ _. Inr 4), k_regu_is_enabled = (\<lambda>_ _. False),
      k_regu_enable = (\<lambda>_ _. 0), k_regu_disable = (\<lambda>_ _. 0),
      k_regu_set_voltage = (\<lambda>_ _ lo hi. if hi \<le> 3000000 then 0 else -22),
      k_regu_get_voltage = (\<lambda>_ _. 1200000), k_irq_count = (\<lambda>_. 1), k_get_irq = (\<lambda>_ i. 33),
      k_request_irq = (\<lambda>_ _. 0), k_strscpy = (\<lambda>old s. take 16 (bytes_of_string s @ replicate 16 0)),
      k_stack = [0], k_rpmsg_send = (\<lambda>_ _. 0), k_nb_register = (\<lambda>_ _. 0), k_nb_unregister = (\<lambda>_ _. 0),
      k_component_add = (\<lambda>_ _. 0), k_del_unbinds = (\<lambda>_. True)\<rparr>"

definition demo_dev :: srm_dev where
  "demo_dev =
     \<lparr>dv_name = ''srm@1'', dv_early_boot = False,
      dv_clks = [\<lparr>ci_index = 0, ci_clk = 7, ci_name = Some [], ci_parent_enabled = False\<rparr>],
      dv_regus = [\<lparr>ri_index = 0, ri_regu = 4, ri_name = ''vdd'', ri_enabled = False\<rparr>],
      dv_irqs = [\<lparr>ii_index = 0, ii_name = Some [], ii_irq = 33\<rparr>]\<rparr>"

definition demo_log :: klog where
  "demo_log = snd (dev_probe demo_kernel ''srm@1'' False [])"

lemma demo_steady [simp]: "steady_parents demo_kernel (\<lambda>c. c + 1)"
  by (simp add: steady_parents_def demo_kernel_def)

lemma demo_reliable [simp]: "k_regu_disable demo_kernel l q = 0"
  by (simp add: demo_kernel_def)

lemma demo_fresh: "fresh_dev ''srm@1'' False demo_dev"
  by (simp add: fresh_dev_def fresh_clks_def fresh_regus_def demo_dev_def)

lemma demo_probe: "dev_probe demo_kernel ''srm@1'' False [] = (Inr (0, Some demo_dev), demo_log)"
  unfolding demo_log_def
  by (simp add: dev_probe_def demo_kernel_def clocks_get_def regus_get_def irqs_get_def Let_def kstrdup_def
      register_notifier_def demo_dev_def)

definition demo_bound :: srm_dev where
  "demo_bound =
     demo_dev\<lparr>dv_clks := [\<lparr>ci_index = 0, ci_clk = 7, ci_name = Some [], ci_parent_enabled = True\<rparr>],
              dv_regus := [\<lparr>ri_index = 0, ri_regu = 4, ri_name = ''vdd'', ri_enabled = True\<rparr>]\<rparr>"

lemma demo_bind:
  "dev_bind demo_kernel (demo_dev, l) = (0, demo_bound, KReguEnable 4 0 # KClkEnable 8 0 # l)"
  by (simp add: dev_bind_def clocks_setup_def regus_setup_def demo_kernel_def demo_dev_def demo_bound_def Let_def)

section \<open>What is switched on\<close>

text \<open>Whatever is done with a device, binds, unbinds and requests of the coprocessor in any order,
  failing or not: the number of times a regulator has been enabled beyond disabled changes exactly
  with the number of entries that say it is enabled, and so do the enable counts of the parent
  clocks as long as the parents stay the same.
\<close>
lemma device_counts:
  assumes "(dev_step k)\<^sup>*\<^sup>* (d, l) (d', l')" and "steady_parents k par"
  shows "total (regu_on q) l' - regu_held q d' = total (regu_on q) l - regu_held q d
     \<and> total (parent_on p) l' - parent_held par p d' = total (parent_on p) l - parent_held par p d"
  using dev_steps_excess [OF assms(1), of q par p] assms(2)
  by (simp add: regu_excess_def parent_excess_def)

text \<open>
  The life of a device after its probe, as the component framework and the coprocessor lead it: it
  is bound only when it is not bound, and unbound only when it is; requests may arrive at any time,
  also before the first bind. A device that is not bound is idle as long as nothing has changed it
  since it was probed or unbound, and stale once a failed bind or a request has.
\<close>

datatype dev_use = Idle | Stale | Bound

inductive dev_life :: "srm_kernel \<Rightarrow> dev_state \<Rightarrow> dev_use \<Rightarrow> dev_state \<Rightarrow> bool" for k s0 where
  life_start: "dev_life k s0 Idle s0"
| life_bind: "dev_life k s0 u s \<Longrightarrow> u \<noteq> Bound \<Longrightarrow> dev_bind k s = (r, s') \<Longrightarrow>
    dev_life k s0 (if r = 0 then Bound else if fst s' = fst s then u else Stale) s'"
| life_unbind: "dev_life k s0 Bound s \<Longrightarrow> dev_unbind k s = s' \<Longrightarrow> dev_life k s0 Idle s'"
| life_request: "dev_life k s0 u s \<Longrightarrow> notify_cb k mem s = (Inr r, s') \<Longrightarrow>
    dev_life k s0 (if u = Bound \<or> fst s' = fst s then u else Stale) s'"

lemma life_steps: "dev_life k s0 u s \<Longrightarrow> (dev_step k)\<^sup>*\<^sup>* s0 s"
  by (induction rule: dev_life.induct) (auto intro: rtranclp.rtrancl_into_rtrancl dev_step.intros)

text \<open>An idle device has nothing switched on.\<close>

lemma life_idle:
  assumes "dev_life k (d, l) u s" and "fresh_dev n early d" and off: "\<forall>l q. k_regu_disable k l q = 0"
  shows "u = Idle \<Longrightarrow> regu_held q (fst s) = 0 \<and> parent_held par p (fst s) = 0"
  using assms(1)
proof (induction u s rule: dev_life.induct)
  case life_start
  then show ?case using fresh_holds_nothing [OF assms(2)] by simp
next
  case (life_unbind s s')
  then show ?case
    using dev_unbind_props(3,4) [of k "fst s" "snd s" "fst s'" "snd s'"] off by simp
qed (auto split: if_splits)

text \<open>C14. The whole life of a device. It is probed, bound and unbound in turn, gets any requests at any
  time, and is removed at any point, bound or not; a bind may fail. Removing gives back every
  reference to a clock, a regulator and an interrupt the device has taken, and leaves the chain of
  notifiers as it was before the probe. Every regulator and every parent clock has the enable count
  from before the probe again when the device was bound, because \<open>component_del\<close> unbinds it, or was
  idle; a stale device leaves switched on exactly what its entries say. The component framework
  unbinds a device exactly when it is bound; the parents of clocks do not change; switching a
  regulator off and leaving the chain do not fail.
\<close>
theorem device_life_balanced:
  assumes new: "n \<notin> set (registered l)"
    and p: "dev_probe k n early l = (Inr (0, Some d), l1)"
    and life: "dev_life k (d, l1) u (d2, l2)"
    and rem: "dev_remove k (d2, l2) = (d3, l3)"
    and unb: "k_del_unbinds k l2 \<longleftrightarrow> u = Bound"
    and steady: "steady_parents k par" and off: "\<forall>l q. k_regu_disable k l q = 0"
    and unreg: "\<forall>l. k_nb_unregister k l n = 0"
  shows "(\<forall>c. total (clk_ref c) l3 = total (clk_ref c) l)
     \<and> (\<forall>q. total (regu_ref q) l3 = total (regu_ref q) l)
     \<and> (\<forall>i. total (irq_ref i) l3 = total (irq_ref i) l)
     \<and> registered l3 = registered l
     \<and> (\<forall>q. total (regu_on q) l3 = total (regu_on q) l + (if u = Stale then regu_held q d2 else 0))
     \<and> (\<forall>c. total (parent_on c) l3 = total (parent_on c) l + (if u = Stale then parent_held par c d2 else 0))"
proof -
  note pr = dev_probe_result [OF new p] and refs = dev_remove_accounts [OF rem steady off]
  have fr: "fresh_dev n early d" using pr by simp
  have k: "keeps_books par (d, l1) (d2, l2)" by (rule dev_steps_keep_books [OF steady life_steps [OF life]])
  then have h: "handles d2 = handles d" and x: "extends op_call l1 l2"
    by (simp_all add: keeps_books_def keeps_refs_def)
  have n: "dv_name d2 = n" using h fr by (simp add: handles_def fresh_dev_def)
  have sum: "total f l2 = total f l + h d2" if "account par True f h" for f h
    using keeps_booksD [OF k that] dev_probe_books [OF new p that] by simp
  note accs = account.intros(1-4) [of par True] account_parent [OF TrueI, of par]
  have idle: "u = Idle \<Longrightarrow> regu_held q d2 = 0 \<and> parent_held par c d2 = 0" for q c
    using life_idle [OF life fr off, of q par c] by simp
  have "total (clk_ref c) l3 = total (clk_ref c) l" "total (regu_ref q) l3 = total (regu_ref q) l"
    "total (irq_ref i) l3 = total (irq_ref i) l" for c q i
    using refs(1-3) sum [OF accs(1)] sum [OF accs(2)] sum [OF accs(3)] by simp_all
  moreover have "registered l3 = registered l"
    using dev_remove_chain [OF rem] op_call_totals(4) [OF x] pr n new unreg
    by (simp add: probe_accounts_def remove1_append)
  moreover have "total (regu_on q) l3 = total (regu_on q) l + (if u = Stale then regu_held q d2 else 0)"
    "total (parent_on c) l3 = total (parent_on c) l + (if u = Stale then parent_held par c d2 else 0)" for q c
    using refs(4) [of q] refs(5) [of c] sum [OF accs(4), of q] sum [OF accs(5), of c] unb idle [of q c]
    by (cases u; simp)+
  ultimately show ?thesis by blast
qed

text \<open>The device is probed, bound, unbound and removed; the framework has nothing to unbind then.\<close>

theorem device_life_balanced_witness:
  "\<exists>l2 d3 l3. dev_unbind (demo_kernel\<lparr>k_del_unbinds := \<lambda>_. False\<rparr>)
         (demo_bound, KReguEnable 4 0 # KClkEnable 8 0 # demo_log) = (demo_dev, l2)
     \<and> dev_remove (demo_kernel\<lparr>k_del_unbinds := \<lambda>_. False\<rparr>) (demo_dev, l2) = (d3, l3)
     \<and> total (clk_ref 7) l3 = 0 \<and> registered l3 = []
     \<and> total (regu_on 4) l3 = 0 \<and> total (parent_on 8) l3 = 0"
proof -
  let ?k = "demo_kernel\<lparr>k_del_unbinds := \<lambda>_. False\<rparr>"
  let ?l1 = "KReguEnable 4 0 # KClkEnable 8 0 # demo_log"
  let ?l2 = "KClkDisable 8 # KReguDisable 4 0 # ?l1"
  obtain d3 l3 where r: "dev_remove ?k (demo_dev, ?l2) = (d3, l3)" by fastforce
  have p: "dev_probe ?k ''srm@1'' False [] = (Inr (0, Some demo_dev), demo_log)"
    unfolding demo_log_def
    by (simp add: dev_probe_def demo_kernel_def clocks_get_def regus_get_def irqs_get_def Let_def kstrdup_def
        register_notifier_def demo_dev_def)
  have b: "dev_bind ?k (demo_dev, demo_log) = (0, demo_bound, ?l1)"
    by (simp add: dev_bind_def clocks_setup_def regus_setup_def demo_kernel_def demo_dev_def demo_bound_def Let_def)
  have u: "dev_unbind ?k (demo_bound, ?l1) = (demo_dev, ?l2)"
    by (simp add: dev_unbind_def regus_unsetup_def clocks_unsetup_def demo_kernel_def demo_dev_def demo_bound_def Let_def)
  have "dev_life ?k (demo_dev, demo_log) Bound (demo_bound, ?l1)"
    using life_bind [OF life_start _ b] by simp
  then have life: "dev_life ?k (demo_dev, demo_log) Idle (demo_dev, ?l2)" using u by (rule life_unbind)
  have s: "steady_parents ?k (\<lambda>c. c + 1)" by (simp add: steady_parents_def demo_kernel_def)
  have "total (clk_ref 7) l3 = total (clk_ref 7) [] \<and> registered l3 = registered []
      \<and> total (regu_on 4) l3 = total (regu_on 4) [] \<and> total (parent_on 8) l3 = total (parent_on 8) []"
    using device_life_balanced [OF _ p life r _ s] by (simp add: demo_kernel_def)
  with u r show ?thesis by (intro exI [of _ ?l2] exI [of _ d3] exI [of _ l3]) simp
qed

text \<open>C15. When binding fails, the regulators are as before. The parent clocks are as before only when
  it was a clock that failed: when it was a regulator, every parent clock stays enabled, once for
  each clock of the device, and nothing unbinds a device that was not bound.
\<close>
theorem failed_bind_keeps_clocks:
  assumes fresh: "fresh_dev n early d"
    and steady: "steady_parents k par" and off: "\<forall>l q. k_regu_disable k l q = 0"
    and bind: "dev_bind k (d, l) = (r, d', l')" and fail: "r \<noteq> 0"
  shows "(\<forall>q. total (regu_on q) l' = total (regu_on q) l)
     \<and> (\<forall>p. total (parent_on p) l' = total (parent_on p) l
             + (if fst (clocks_setup k (d, l)) = 0 then tally (\<lambda>i. par (ci_clk i) = p) (dv_clks d) else 0))"
  using bind
proof (cases rule: dev_bind_cases)
  case clocks
  have "total (regu_on q) l' = total (regu_on q) l" for q
    using clocks_setup_frame [OF clocks(1)] power_totals(1) by blast
  moreover have "total (parent_on p) l' = total (parent_on p) l" for p
    using clocks.failed_setup_restores [OF steady TrueI clocks(1) fail, of p] fresh_holds_nothing(2) [OF fresh, of par p]
    by simp
  ultimately show ?thesis using clocks by simp
next
  case (regus d1 l1)
  have f: "extends clk_power l l1" "d1 = d\<lparr>dv_clks := dv_clks d1\<rparr>" and g: "extends regu_power l1 l'"
    using clocks_setup_frame [OF regus(1)] regus_setup_frame [OF regus(2)] by blast+
  note p = clocks_setup_props [OF regus(1)]
  have h: "regu_held q d1 = 0" for q
    using fresh_holds_nothing(1) [OF fresh, of q] clk_frame_held [OF f(2), of q] by simp
  have "total (regu_on q) l' = total (regu_on q) l" for q
    using regus.failed_setup_restores [OF TrueI off regus(2) fail, of q] power_totals(1) [OF f(1), of q] h [of q] by simp
  moreover have "total (parent_on c) l' = total (parent_on c) l + tally (\<lambda>i. par (ci_clk i) = c) (dv_clks d)" for c
  proof -
    have "parent_held par c d1 = tally (\<lambda>i. par (ci_clk i) = c) (dv_clks d1)"
      using p [of par c] by (auto simp: parent_held_def tally_def intro!: arg_cong [where f = sum_list])
    also have "\<dots> = tally (\<lambda>i. par (ci_clk i) = c) (dv_clks d)"
      using p [of par c] by (simp add: tally_map [where P = "\<lambda>y. par y = c" and f = ci_clk])
    finally show ?thesis
      using p [of par c] steady power_totals(2) [OF g, of c]
        fresh_holds_nothing(2) [OF fresh, of par c] by simp
  qed
  ultimately show ?thesis using regus by simp
qed

theorem failed_bind_keeps_clocks_witness:
  "\<exists>d' l'. dev_bind (demo_kernel\<lparr>k_regu_enable := \<lambda>_ _. -5\<rparr>) (demo_dev, []) = (-5, d', l')
     \<and> total (regu_on 4) l' = 0 \<and> total (parent_on 8) l' = 1"
proof -
  let ?k = "demo_kernel\<lparr>k_regu_enable := \<lambda>_ _. -5\<rparr>"
  let ?l = "[KReguEnable 4 (-5), KClkEnable 8 0]"
  let ?d = "demo_bound\<lparr>dv_regus := dv_regus demo_dev\<rparr>"
  have b: "dev_bind ?k (demo_dev, []) = (-5, ?d, ?l)" and c: "fst (clocks_setup ?k (demo_dev, [])) = 0"
    by (simp_all add: dev_bind_def clocks_setup_def regus_setup_def regus_unsetup_def demo_kernel_def demo_dev_def
        demo_bound_def Let_def)
  have s: "steady_parents ?k (\<lambda>c. c + 1)" by (simp add: steady_parents_def demo_kernel_def)
  have "(\<forall>q. total (regu_on q) ?l = total (regu_on q) [])
      \<and> (\<forall>p. total (parent_on p) ?l = total (parent_on p) [] + tally (\<lambda>i. ci_clk i + 1 = p) (dv_clks demo_dev))"
    using failed_bind_keeps_clocks [OF demo_fresh s _ b] c by (simp add: demo_kernel_def)
  then have "total (regu_on 4) ?l = 0 \<and> total (parent_on 8) ?l = 1" by (simp add: demo_dev_def)
  with b show ?thesis by blast
qed

section \<open>Requests\<close>

lemma clock_find_first:
  "ix \<noteq> U32_MAX \<Longrightarrow> p < length cs \<Longrightarrow> ci_index (cs ! p) = ix \<Longrightarrow> (\<And>j. j < p \<Longrightarrow> ci_index (cs ! j) \<noteq> ix) \<Longrightarrow>
     clock_find cs ix mem = Inr (Some p)"
proof (induction cs arbitrary: p)
  case (Cons c cs)
  show ?case
  proof (cases p)
    case (Suc q)
    have "ci_index (cs ! j) \<noteq> ix" if "j < q" for j
      using Cons.prems(4) [of "Suc j"] that Suc by simp
    then have "clock_find cs ix mem = Inr (Some q)"
      using Cons.prems(1-3) Suc by (intro Cons.IH) auto
    then show ?thesis using Cons.prems(1) Cons.prems(4) [of 0] Suc by simp
  qed (use Cons.prems in simp)
qed simp

lemma regu_find_first:
  "ix \<noteq> U32_MAX \<Longrightarrow> p < length rs \<Longrightarrow> ri_index (rs ! p) = ix \<Longrightarrow> (\<And>j. j < p \<Longrightarrow> ri_index (rs ! j) \<noteq> ix) \<Longrightarrow>
     regu_find rs ix mem = Inr (Some p)"
proof (induction rs arbitrary: p)
  case (Cons r rs)
  show ?case
  proof (cases p)
    case (Suc q)
    have "ri_index (rs ! j) \<noteq> ix" if "j < q" for j
      using Cons.prems(4) [of "Suc j"] that Suc by simp
    then have "regu_find rs ix mem = Inr (Some q)"
      using Cons.prems(1-3) Suc by (intro Cons.IH) auto
    then show ?thesis using Cons.prems(1) Cons.prems(4) [of 0] Suc by simp
  qed (use Cons.prems in simp)
qed simp

text \<open>The entries are numbered by their positions; the last number is not a valid index.\<close>

definition numbered :: "srm_dev \<Rightarrow> bool" where
  "numbered d \<longleftrightarrow> (\<forall>j<length (dv_clks d). ci_index (dv_clks d ! j) = of_nat j)
     \<and> (\<forall>j<length (dv_regus d). ri_index (dv_regus d ! j) = of_nat j)"

lemma fresh_numbered: "fresh_dev n early d \<Longrightarrow> numbered d"
  by (simp add: fresh_dev_def fresh_clks_def fresh_regus_def numbered_def)

lemma index_eq: "i < 2 ^ 32 - 1 \<Longrightarrow> j \<le> i \<Longrightarrow> (of_nat j :: u32) = of_nat i \<longleftrightarrow> j = i"
  by (simp add: word_unat_eq_iff unat_of_nat)

lemma index_valid: "i < 2 ^ 32 - 1 \<Longrightarrow> (of_nat i :: u32) \<noteq> U32_MAX"
  by (simp add: word_unat_eq_iff unat_of_nat U32_MAX_def)

lemma clock_find_numbered:
  "numbered d \<Longrightarrow> p < length (dv_clks d) \<Longrightarrow> p < 2 ^ 32 - 1 \<Longrightarrow> clock_find (dv_clks d) (of_nat p) mem = Inr (Some p)"
  using index_eq by (intro clock_find_first index_valid) (auto simp: numbered_def)

lemma regu_find_numbered:
  "numbered d \<Longrightarrow> p < length (dv_regus d) \<Longrightarrow> p < 2 ^ 32 - 1 \<Longrightarrow> regu_find (dv_regus d) (of_nat p) mem = Inr (Some p)"
  using index_eq by (intro regu_find_first index_valid) (auto simp: numbered_def)

text \<open>A message for the device: its identifier ends and is part of the name of the device.\<close>

definition addressed :: "srm_dev \<Rightarrow> byte list \<Rightarrow> bool" where
  "addressed d mem \<longleftrightarrow> (case read_c_str (string_of_bytes (drop 4 mem)) of None \<Rightarrow> False | Some s \<Rightarrow> sublist s (dv_name d))"

lemma addressed_strstr: "addressed d mem \<Longrightarrow> strstr_mem (dv_name d) (drop 4 mem) = Inr True"
  using strstr_at_iff [of "dv_name d"] by (auto simp: addressed_def strstr_mem_def split: option.splits)

lemma notify_addressed:
  assumes "msg_of_memory mem = Some i" "addressed d mem" "srm_request k mem i (d, l) = (Inr (r, m), d', l')"
  shows "notify_cb k mem (d, l) =
    (let m' = (if r \<noteq> 0 then m\<lparr>ms_message_type := RPROC_SRM_MSG_ERROR\<rparr> else m); x = k_rpmsg_send k l' (msg_bytes m')
     in (Inr (if x \<noteq> 0 then NOTIFY_BAD else NOTIFY_STOP), d', KSend (msg_bytes m') x # l'))"
  using assms by (simp add: notify_cb_def addressed_strstr rpmsg_srm_send_def Let_def)

text \<open>C38. A request to set the rate of the \<open>p\<close>th clock is answered with the rate the clock has then, as
  the kernel reports it, which need not be the one asked for: when none is asked for or it is the
  rate the clock has, the rate is not touched; when the kernel has set it, it is read back after
  the call; when the kernel refuses, an error repeats the request. Nothing else is changed.
\<close>
theorem clock_request_answer:
  fixes k :: srm_kernel and l :: klog
  assumes i: "msg_of_memory mem = Some i" and a: "addressed d mem"
    and t: "ms_message_type i = RPROC_SRM_MSG_SETCONFIG" "ms_rsc_type i = RPROC_SRM_RSC_CLOCK"
    and p: "numbered d" "p < length (dv_clks d)" "p < 2 ^ 32 - 1" "cc_index (clock_cfg_of (ms_cfg i)) = of_nat p"
    and nm: "ci_name (dv_clks d ! p) = Some s"
  defines "c \<equiv> ci_clk (dv_clks d ! p)" and "rate \<equiv> cc_rate (clock_cfg_of (ms_cfg i))"
    and "answer \<equiv> (\<lambda>v. i\<lparr>ms_cfg := put_clock_cfg \<lparr>cc_index = of_nat p,
           cc_name = k_strscpy k (cc_name (clock_cfg_of (ms_cfg i))) s, cc_rate = v\<rparr> (ms_cfg i)\<rparr>)"
  shows "\<exists>m l1 x. notify_cb k mem (d, l) = (Inr (if x \<noteq> 0 then NOTIFY_BAD else NOTIFY_STOP), d, KSend (msg_bytes m) x # l1)
     \<and> x = k_rpmsg_send k l1 (msg_bytes m)
     \<and> (m, l1) =
       (if rate = 0 \<or> k_clk_get_rate k l c = rate then (answer (k_clk_get_rate k l c), l)
        else let e = k_clk_set_rate k l c rate; l' = KClkSetRate c rate e # l
             in if e = 0 then (answer (k_clk_get_rate k l' c), l')
                else (i\<lparr>ms_message_type := RPROC_SRM_MSG_ERROR\<rparr>, l'))"
proof -
  note f = clock_find_numbered [OF p(1-3)]
  let ?set = "rate \<noteq> 0 \<and> k_clk_get_rate k l c \<noteq> rate"
  let ?e = "k_clk_set_rate k l c rate"
  let ?l = "if ?set then KClkSetRate c rate ?e # l else l"
  have set: "clock_set_cfg k (clock_cfg_of (ms_cfg i)) mem' (d, l) = (Inr (if ?set then ?e else 0), d, ?l)" for mem'
    using p(4) f by (simp add: clock_set_cfg_def c_def rate_def Let_def)
  have get: "clock_reply k i (d, m) = (Inr (0, answer (k_clk_get_rate k m c)), d, m)" for m
    using p f nm by (simp add: clock_reply_def clock_get_cfg_def c_def answer_def numbered_def bindE_def)
  have "srm_request k mem i (d, l) =
      (Inr (if ?set \<and> ?e \<noteq> 0 then (?e, i) else (0, answer (k_clk_get_rate k ?l c))), d, ?l)"
    using t set get by (auto simp: srm_request_def bindE_def srm_constants)
  from notify_addressed [OF i a] this show ?thesis
    by (auto simp: Let_def)
qed

definition demo_request :: "u32 \<Rightarrow> u32 \<Rightarrow> byte list \<Rightarrow> rpmsg_srm_msg" where
  "demo_request ty rsc cfg =
     \<lparr>ms_message_type = ty, ms_device_id = bytes_of_string ''srm@1'' @ replicate 27 0, ms_rsc_type = rsc, ms_cfg = cfg\<rparr>"

definition demo_set_rate :: rpmsg_srm_msg where
  "demo_set_rate = demo_request RPROC_SRM_MSG_SETCONFIG RPROC_SRM_RSC_CLOCK
     (put_clock_cfg \<lparr>cc_index = 0, cc_name = replicate 16 0, cc_rate = 9\<rparr> (replicate 36 0))"

lemma demo_request_read:
  "length cfg = 36 \<Longrightarrow> msg_of_memory (msg_bytes (demo_request ty rsc cfg)) = Some (demo_request ty rsc cfg)"
  "length cfg = 36 \<Longrightarrow> addressed demo_dev (msg_bytes (demo_request ty rsc cfg))"
proof -
  assume l: "length cfg = 36"
  then have "wf_msg (demo_request ty rsc cfg)"
    by (simp add: wf_msg_def demo_request_def sizeof_regu_cfg_def bytes_of_string_def)
  from msg_of_memory_bytes [OF this, of "[]"]
  show "msg_of_memory (msg_bytes (demo_request ty rsc cfg)) = Some (demo_request ty rsc cfg)"
    by (simp only: append_Nil2)
  have "drop 4 (msg_bytes (demo_request ty rsc cfg))
      = bytes_of_string (''srm@1'' @ [NUL]) @ replicate 26 0 @ le32_bytes rsc @ cfg"
    by (simp add: msg_bytes_def demo_request_def bytes_of_string_def NUL_def flip: replicate_Suc)
  then have "read_c_str (string_of_bytes (drop 4 (msg_bytes (demo_request ty rsc cfg)))) = Some ''srm@1''"
    using read_c_str_terminated [of "''srm@1''"]
    by (simp only: string_of_bytes_def map_append) (simp add: string_of_bytes_def [symmetric] NUL_def)
  then show "addressed demo_dev (msg_bytes (demo_request ty rsc cfg))"
    by (simp add: addressed_def demo_dev_def)
qed

text \<open>A clock that can only have even rates, asked for 9.\<close>

definition demo_even :: srm_kernel where
  "demo_even = demo_kernel
     \<lparr>k_clk_get_rate := (\<lambda>l c. case l of KClkSetRate q r x # _ \<Rightarrow> if q = c \<and> x = 0 then 2 * (r div 2) else 6 | _ \<Rightarrow> 6)\<rparr>"

theorem clock_request_answer_witness:
  "\<exists>m. notify_cb demo_even (msg_bytes demo_set_rate) (demo_dev, []) =
     (Inr NOTIFY_STOP, demo_dev, [KSend (msg_bytes m) 0, KClkSetRate 7 9 0])
     \<and> cc_rate (clock_cfg_of (ms_cfg m)) = 8"
proof -
  let ?cfg = "put_clock_cfg \<lparr>cc_index = 0, cc_name = replicate 16 0, cc_rate = 9\<rparr> (replicate 36 0)"
  have l: "length ?cfg = 36" by (simp add: put_clock_cfg_def sizeof_clock_cfg_def)
  have c: "clock_cfg_of (ms_cfg demo_set_rate) = \<lparr>cc_index = 0, cc_name = replicate 16 0, cc_rate = 9\<rparr>"
    by (simp add: demo_set_rate_def demo_request_def)
  have d: "numbered demo_dev" "0 < length (dv_clks demo_dev)" "ci_name (dv_clks demo_dev ! 0) = Some []"
    "ci_clk (dv_clks demo_dev ! 0) = 7"
    by (rule fresh_numbered [OF demo_fresh]) (simp_all add: demo_dev_def)
  have k: "k_clk_get_rate demo_even [KClkSetRate 7 9 0] 7 = 8" "k_clk_get_rate demo_even [] 7 = 6"
    "k_clk_set_rate demo_even l c r = 0" "k_rpmsg_send demo_even l b = 0"
    "length (k_strscpy demo_even b []) = 16" for c r l b
    by (simp_all add: demo_even_def demo_kernel_def bytes_of_string_def)
  have t: "ms_message_type demo_set_rate = RPROC_SRM_MSG_SETCONFIG" "ms_rsc_type demo_set_rate = RPROC_SRM_RSC_CLOCK"
    by (simp_all add: demo_set_rate_def demo_request_def)
  have i: "msg_of_memory (msg_bytes demo_set_rate) = Some demo_set_rate" "addressed demo_dev (msg_bytes demo_set_rate)"
    unfolding demo_set_rate_def using demo_request_read [OF l] by blast+
  have ix: "cc_index (clock_cfg_of (ms_cfg demo_set_rate)) = of_nat 0" and z: "(0 :: nat) < 2 ^ 32 - 1"
    using c by simp_all
  let ?m = "demo_set_rate\<lparr>ms_cfg := put_clock_cfg \<lparr>cc_index = of_nat 0,
      cc_name = k_strscpy demo_even (replicate 16 0) [], cc_rate = 8\<rparr> (ms_cfg demo_set_rate)\<rparr>"
  from clock_request_answer [OF i t d(1,2) z ix d(3), of demo_even "[]"] obtain m l1 x
    where m: "m = ?m" "l1 = [KClkSetRate 7 9 0]"
      and x0: "x = 0" and x: "notify_cb demo_even (msg_bytes demo_set_rate) (demo_dev, []) =
        (Inr (if x \<noteq> 0 then NOTIFY_BAD else NOTIFY_STOP), demo_dev, KSend (msg_bytes m) x # l1)"
    unfolding c d(4) Let_def k(3,4) by (auto simp: k)
  show ?thesis using x m k(5) by (intro exI [of _ m]) (simp add: x0)
qed

text \<open>The steps of a request to a regulator: switching it, setting its voltage, and the reply.\<close>

lemma regu_switch_exact:
  assumes "p < length (dv_regus d)" and "q = ri_regu (dv_regus d ! p)"
    and "(if ri_enabled (dv_regus d ! p) = on then (0, l)
          else if on then (k_regu_enable k l q, KReguEnable q (k_regu_enable k l q) # l)
          else (k_regu_disable k l q, KReguDisable q (k_regu_disable k l q) # l)) = (e, l')"
  shows "regu_switch k p on (d, l) =
    (e, if e \<noteq> 0 then d else d\<lparr>dv_regus := (dv_regus d)[p := (dv_regus d ! p)\<lparr>ri_enabled := on\<rparr>]\<rparr>, l')"
proof -
  have "d\<lparr>dv_regus := (dv_regus d)[p := (dv_regus d ! p)\<lparr>ri_enabled := on\<rparr>]\<rparr> = d"
    if "ri_enabled (dv_regus d ! p) = on"
    using that [symmetric] by simp
  with assms show ?thesis by (cases on) (auto simp: regu_switch_def Let_def split: if_splits)
qed

lemma regu_voltage_exact:
  assumes "q = ri_regu (dv_regus d ! p)"
    and "(if rc_min_voltage_mv cfg = 0 \<and> rc_max_voltage_mv cfg = 0 then (0, l)
          else let lo = microvolts (rc_min_voltage_mv cfg); hi = microvolts (rc_max_voltage_mv cfg);
                   e = k_regu_set_voltage k l q lo hi
               in (e, KReguSetVoltage q lo hi e # l)) = (e, l')"
  shows "regu_voltage k p cfg (d, l) = (e, d, l')"
  using assms by (auto simp: regu_voltage_def Let_def split: if_splits)

lemma regu_reply_numbered:
  assumes "numbered d" "p < length (dv_regus d)" "p < 2 ^ 32 - 1" "rc_index (regu_cfg_of (ms_cfg i)) = of_nat p"
  shows "regu_reply k i (d, l) = (Inr (0, i\<lparr>ms_cfg := put_regu_cfg
     \<lparr>rc_index = of_nat p, rc_name = k_strscpy k (rc_name (regu_cfg_of (ms_cfg i))) (ri_name (dv_regus d ! p)),
      rc_enable = of_bool (ri_enabled (dv_regus d ! p)),
      rc_curr_voltage_mv = (let v = k_regu_get_voltage k l (ri_regu (dv_regus d ! p))
                            in if v < 0 then 0 else word_of_int (v div 1000)),
      rc_min_voltage_mv = 0, rc_max_voltage_mv = 0\<rparr> (ms_cfg i)\<rparr>), d, l)"
  using assms regu_find_numbered [OF assms(1-3)]
  by (simp add: regu_reply_def regu_get_cfg_def bindE_def Let_def numbered_def)

text \<open>C39. A request to switch the regulator of the \<open>p\<close>th entry and to set its voltage, exactly. The
  regulator is enabled or disabled, by one call of the kernel, when the entry says it is not as
  requested; when the kernel refuses, an error repeats the request and the device is unchanged. Then
  the voltage is set to the range asked for, if one is; when the kernel refuses that, an error
  repeats the request although the regulator stays switched as requested. Otherwise the reply is the
  configuration after the calls: the regulator as switched and the voltage the kernel reports then.
  So a request is not all or nothing, and the reply is a configuration only when all of it was done.
\<close>
theorem regulator_request_answer:
  fixes k :: srm_kernel and l :: klog
  assumes i: "msg_of_memory mem = Some i" and a: "addressed d mem"
    and t: "ms_message_type i = RPROC_SRM_MSG_SETCONFIG" "ms_rsc_type i = RPROC_SRM_RSC_REGU"
    and p: "numbered d" "p < length (dv_regus d)" "p < 2 ^ 32 - 1" "rc_index (regu_cfg_of (ms_cfg i)) = of_nat p"
  defines "cfg \<equiv> regu_cfg_of (ms_cfg i)" and "r \<equiv> dv_regus d ! p" and "q \<equiv> ri_regu (dv_regus d ! p)"
    and "on \<equiv> rc_enable (regu_cfg_of (ms_cfg i)) \<noteq> 0"
    and "error \<equiv> i\<lparr>ms_message_type := RPROC_SRM_MSG_ERROR\<rparr>"
    and "switched \<equiv> d\<lparr>dv_regus := (dv_regus d)[p := (dv_regus d ! p)
           \<lparr>ri_enabled := rc_enable (regu_cfg_of (ms_cfg i)) \<noteq> 0\<rparr>]\<rparr>"
  shows "\<exists>m l' x d'. notify_cb k mem (d, l) = (Inr (if x \<noteq> 0 then NOTIFY_BAD else NOTIFY_STOP), d', KSend (msg_bytes m) x # l')
     \<and> x = k_rpmsg_send k l' (msg_bytes m)
     \<and> (case (if ri_enabled r = on then (0, l)
              else if on then (k_regu_enable k l q, KReguEnable q (k_regu_enable k l q) # l)
              else (k_regu_disable k l q, KReguDisable q (k_regu_disable k l q) # l)) of
          (e1, l1) \<Rightarrow>
            if e1 \<noteq> 0 then (m, d', l') = (error, d, l1)
            else
              (case (if rc_min_voltage_mv cfg = 0 \<and> rc_max_voltage_mv cfg = 0 then (0, l1)
                     else let lo = microvolts (rc_min_voltage_mv cfg); hi = microvolts (rc_max_voltage_mv cfg);
                              e = k_regu_set_voltage k l1 q lo hi
                          in (e, KReguSetVoltage q lo hi e # l1)) of
                 (e2, l2) \<Rightarrow>
                   (d', l') = (switched, l2)
                   \<and> m = (if e2 \<noteq> 0 then error
                          else i\<lparr>ms_cfg := put_regu_cfg
                                  \<lparr>rc_index = of_nat p, rc_name = k_strscpy k (rc_name cfg) (ri_name r),
                                   rc_enable = of_bool on,
                                   rc_curr_voltage_mv = (let v = k_regu_get_voltage k l2 q
                                                         in if v < 0 then 0 else word_of_int (v div 1000)),
                                   rc_min_voltage_mv = 0, rc_max_voltage_mv = 0\<rparr> (ms_cfg i)\<rparr>)))"
proof -
  obtain e1 l1 where one: "(if ri_enabled (dv_regus d ! p) = on then (0, l)
      else if on then (k_regu_enable k l q, KReguEnable q (k_regu_enable k l q) # l)
      else (k_regu_disable k l q, KReguDisable q (k_regu_disable k l q) # l)) = (e1, l1)" by fastforce
  obtain e2 l2 where two: "(if rc_min_voltage_mv cfg = 0 \<and> rc_max_voltage_mv cfg = 0 then (0, l1)
      else let lo = microvolts (rc_min_voltage_mv cfg); hi = microvolts (rc_max_voltage_mv cfg);
               e = k_regu_set_voltage k l1 q lo hi
           in (e, KReguSetVoltage q lo hi e # l1)) = (e2, l2)" by fastforce
  have s: "ri_regu (dv_regus switched ! p) = q" "ri_name (dv_regus switched ! p) = ri_name r"
    "ri_enabled (dv_regus switched ! p) = on" "numbered switched" "p < length (dv_regus switched)"
    using p by (auto simp: switched_def q_def r_def on_def numbered_def nth_list_update)
  have "regu_switch k p on (d, l) = (e1, if e1 \<noteq> 0 then d else switched, l1)"
    using regu_switch_exact [OF p(2) _ one] q_def by (simp add: switched_def on_def)
  then have set: "regu_set_cfg k cfg mem' (d, l) = (if e1 \<noteq> 0 then (Inr e1, d, l1) else (Inr e2, switched, l2))" for mem'
    using p(4) regu_find_numbered [OF p(1-3)] regu_voltage_exact [OF s(1) [symmetric] two]
    by (simp add: regu_set_cfg_def on_def cfg_def)
  note get = regu_reply_numbered [OF s(4,5) p(3,4), of k l2, unfolded s(1-3) r_def, folded cfg_def]
  define m where "m = (if e1 \<noteq> 0 \<or> e2 \<noteq> 0 then error else snd (projr (fst (regu_reply k i (switched, l2)))))"
  define d' where "d' = (if e1 \<noteq> 0 then d else switched)"
  define l' where "l' = (if e1 \<noteq> 0 then l1 else l2)"
  have "srm_request k mem i (d, l) =
      (Inr (if e1 \<noteq> 0 then (e1, i) else if e2 \<noteq> 0 then (e2, i) else (0, m)), d', l')"
    using t set get unfolding cfg_def by (auto simp: srm_request_def bindE_def srm_constants m_def d'_def l'_def)
  then have "notify_cb k mem (d, l) =
      (Inr (if k_rpmsg_send k l' (msg_bytes m) \<noteq> 0 then NOTIFY_BAD else NOTIFY_STOP), d',
       KSend (msg_bytes m) (k_rpmsg_send k l' (msg_bytes m)) # l')"
    using notify_addressed [OF i a, of k l e1 i] notify_addressed [OF i a, of k l e2 i]
      notify_addressed [OF i a, of k l 0 m]
    by (auto simp: Let_def error_def m_def split: if_splits)
  then show ?thesis unfolding r_def one
    by (intro exI [of _ m] exI [of _ l'] exI [of _ "k_rpmsg_send k l' (msg_bytes m)"] exI [of _ d'] conjI)
       (simp_all add: two get m_def d'_def l'_def)
qed

text \<open>The voltage of 4 V is refused, and the regulator that was off stays on.\<close>

definition demo_set_volt :: rpmsg_srm_msg where
  "demo_set_volt = demo_request RPROC_SRM_MSG_SETCONFIG RPROC_SRM_RSC_REGU
     (put_regu_cfg \<lparr>rc_index = 0, rc_name = replicate 16 0, rc_enable = 1, rc_curr_voltage_mv = 0,
                    rc_min_voltage_mv = 4000, rc_max_voltage_mv = 4000\<rparr> [])"

theorem regulator_request_answer_witness:
  "\<exists>x d'. notify_cb demo_kernel (msg_bytes demo_set_volt) (demo_dev, []) =
       (Inr (if x \<noteq> 0 then NOTIFY_BAD else NOTIFY_STOP), d',
        [KSend (msg_bytes (demo_set_volt\<lparr>ms_message_type := RPROC_SRM_MSG_ERROR\<rparr>)) x,
         KReguSetVoltage 4 4000000 4000000 (-22), KReguEnable 4 0])
     \<and> ri_enabled (dv_regus d' ! 0)"
proof -
  let ?c = "\<lparr>rc_index = 0, rc_name = replicate 16 0, rc_enable = 1, rc_curr_voltage_mv = 0,
             rc_min_voltage_mv = 4000, rc_max_voltage_mv = 4000\<rparr>"
  have l: "length (put_regu_cfg ?c []) = 36" by (simp add: put_regu_cfg_def)
  have c: "regu_cfg_of (ms_cfg demo_set_volt) = ?c"
    unfolding demo_set_volt_def demo_request_def rpmsg_srm_msg.simps by (rule regu_cfg_of_put) simp
  have d: "numbered demo_dev" "0 < length (dv_regus demo_dev)" "ri_regu (dv_regus demo_dev ! 0) = 4"
    "\<not> ri_enabled (dv_regus demo_dev ! 0)"
    by (rule fresh_numbered [OF demo_fresh]) (simp_all add: demo_dev_def)
  have t: "ms_message_type demo_set_volt = RPROC_SRM_MSG_SETCONFIG" "ms_rsc_type demo_set_volt = RPROC_SRM_RSC_REGU"
    by (simp_all add: demo_set_volt_def demo_request_def)
  have i: "msg_of_memory (msg_bytes demo_set_volt) = Some demo_set_volt" "addressed demo_dev (msg_bytes demo_set_volt)"
    unfolding demo_set_volt_def using demo_request_read [OF l] by blast+
  have ix: "rc_index (regu_cfg_of (ms_cfg demo_set_volt)) = of_nat 0" and z: "(0 :: nat) < 2 ^ 32 - 1"
    using c by simp_all
  have k: "k_regu_enable demo_kernel l q = 0" "k_regu_set_voltage demo_kernel l q 4000000 4000000 = -22"
    "microvolts 4000 = 4000000" for l q
    by (simp_all add: demo_kernel_def microvolts_def)
  from regulator_request_answer [OF i t d(1,2) z ix, of demo_kernel "[]"] obtain m l' x d'
    where n: "notify_cb demo_kernel (msg_bytes demo_set_volt) (demo_dev, []) =
        (Inr (if x \<noteq> 0 then NOTIFY_BAD else NOTIFY_STOP), d', KSend (msg_bytes m) x # l')"
      and m: "m = demo_set_volt\<lparr>ms_message_type := RPROC_SRM_MSG_ERROR\<rparr>"
        "l' = [KReguSetVoltage 4 4000000 4000000 (-22), KReguEnable 4 0]"
        "d' = demo_dev\<lparr>dv_regus := (dv_regus demo_dev)[0 := (dv_regus demo_dev ! 0)\<lparr>ri_enabled := True\<rparr>]\<rparr>"
    using d(4) by (auto simp: c d(3) Let_def k)
  from n m(1,2) have "notify_cb demo_kernel (msg_bytes demo_set_volt) (demo_dev, []) =
       (Inr (if x \<noteq> 0 then NOTIFY_BAD else NOTIFY_STOP), d',
        [KSend (msg_bytes (demo_set_volt\<lparr>ms_message_type := RPROC_SRM_MSG_ERROR\<rparr>)) x,
         KReguSetVoltage 4 4000000 4000000 (-22), KReguEnable 4 0])" by simp
  moreover from m(3) d(2) have "ri_enabled (dv_regus d' ! 0)" by simp
  ultimately show ?thesis by blast
qed

end
