(* ===== verification/Srm_Core_Correct.thy ===== *)
theory Srm_Core_Correct
  imports Srm_Core Srm_Correct
begin

text \<open>
  The properties of the core of the system resource manager: every message of the coprocessor is
  answered once, preparing and unpreparing balance, and what a failed probe leaves on the chain.
\<close>

section \<open>The chain of notifiers\<close>

text \<open>What the kernel documents of \<open>blocking_notifier_call_chain\<close>: the blocks are called in the order
  they were registered, up to the first whose return value has the stop bit; the result is the
  last return value.\<close>

fun ref_chain :: "('n \<Rightarrow> ('s, int) op) \<Rightarrow> 'n list \<Rightarrow> ('s, int) op" where
  "ref_chain f [] = ret NOTIFY_DONE"
| "ref_chain f (n # ns) = bindE (f n) (\<lambda>r. if notify_stops r \<or> ns = [] then ret r else ref_chain f ns)"

definition chain_law :: "core_kernel \<Rightarrow> bool" where
  "chain_law k \<longleftrightarrow> (\<forall>f c. c_call_chain k f c = ref_chain f (registered (co_log c)) c)"

lemma notify_stops_simps [simp]:
  "\<not> notify_stops NOTIFY_DONE" "notify_stops NOTIFY_STOP" "notify_stops NOTIFY_BAD"
  by (simp_all add: notify_stops_def NOTIFY_DONE_def NOTIFY_STOP_def NOTIFY_BAD_def bit_iff_odd)

section \<open>Requests always have a reply\<close>

text \<open>The reply is about the same resource of the same device.\<close>

definition reply_to :: "rpmsg_srm_msg \<Rightarrow> rpmsg_srm_msg \<Rightarrow> bool" where
  "reply_to i m \<longleftrightarrow> ms_device_id m = ms_device_id i \<and> ms_rsc_type m = ms_rsc_type i
     \<and> ms_message_type m \<in> {ms_message_type i, RPROC_SRM_MSG_ERROR}"

text \<open>A device whose entries all have a name that is a C string, and a message that says which entry
  it means: by an index, or by a name that ends within its field.\<close>

definition named :: "srm_dev \<Rightarrow> bool" where
  "named d \<longleftrightarrow> (\<forall>i\<in>set (dv_clks d). \<exists>s. ci_name i = Some s \<and> NUL \<notin> set s)
     \<and> (\<forall>r\<in>set (dv_regus d). NUL \<notin> set (ri_name r))"

definition selects :: "rpmsg_srm_msg \<Rightarrow> bool" where
  "selects i \<longleftrightarrow> le32_at (ms_cfg i) 0 \<noteq> U32_MAX \<or> 0 \<in> set (take 16 (drop 4 (ms_cfg i)))"

lemma strcmp_eq_total: "NUL \<notin> set s \<Longrightarrow> 0 \<in> set mem \<Longrightarrow> \<exists>b. strcmp_eq s mem = Inr b"
  by (induction s mem rule: strcmp_eq.induct) (auto simp: of_char_NUL)

lemma clock_find_total:
  assumes "ix \<noteq> U32_MAX \<or> 0 \<in> set mem" and "\<And>i. i \<in> set cs \<Longrightarrow> \<exists>s. ci_name i = Some s \<and> NUL \<notin> set s"
  shows "\<exists>z. clock_find cs ix mem = Inr z"
  using assms(2)
proof (induction cs)
  case (Cons c cs)
  obtain s where s: "ci_name c = Some s" "NUL \<notin> set s" using Cons.prems [of c] by auto
  obtain z where z: "clock_find cs ix mem = Inr z" using Cons by auto
  from s assms(1) strcmp_eq_total [of s mem] z show ?case
    by (cases "ix = U32_MAX") (auto simp: bindS_def)
qed simp

lemma regu_find_total:
  assumes "ix \<noteq> U32_MAX \<or> 0 \<in> set mem" and "\<And>r. r \<in> set rs \<Longrightarrow> NUL \<notin> set (ri_name r)"
  shows "\<exists>z. regu_find rs ix mem = Inr z"
  using assms(2)
proof (induction rs)
  case (Cons r rs)
  obtain z where z: "regu_find rs ix mem = Inr z" using Cons by auto
  from Cons.prems [of r] assms(1) strcmp_eq_total [of "ri_name r" mem] z show ?case
    by (cases "ix = U32_MAX") (auto simp: bindS_def)
qed simp

text \<open>Both the message as it was received and the copy of it on the stack have the end of the name.\<close>

lemma selects_memory:
  assumes "msg_of_memory mem = Some i" "selects i"
  shows "le32_at (ms_cfg i) 0 \<noteq> U32_MAX \<or> 0 \<in> set (drop 44 mem)"
proof -
  from assms(1) have "drop 4 (ms_cfg i) = take 32 (drop 44 mem)"
    by (auto simp: msg_of_memory_def srm_sizes drop_take split: if_splits)
  then have "set (take 16 (drop 4 (ms_cfg i))) \<subseteq> set (drop 44 mem)" by (metis in_set_takeD subsetI)
  with assms(2) show ?thesis by (auto simp: selects_def)
qed

lemma selects_copy: "selects i \<Longrightarrow> le32_at (ms_cfg i) 0 \<noteq> U32_MAX \<or> 0 \<in> set (drop 4 (ms_cfg i) @ r)"
  by (auto simp: selects_def dest: in_set_takeD)

lemma cfg_index: "cc_index (clock_cfg_of u) = le32_at u 0" "rc_index (regu_cfg_of u) = le32_at u 0"
  by (simp_all add: clock_cfg_of_def regu_cfg_of_def)

lemma clock_set_cfg_total:
  assumes "cc_index cfg \<noteq> U32_MAX \<or> 0 \<in> set mem" and "named d"
  shows "\<exists>r l'. clock_set_cfg k cfg mem (d, l) = (Inr r, d, l')"
  using clock_find_total [of "cc_index cfg" mem "dv_clks d"] assms
  by (auto simp: clock_set_cfg_def named_def Let_def split: option.splits)

lemma regu_set_cfg_total:
  assumes "rc_index cfg \<noteq> U32_MAX \<or> 0 \<in> set mem" and "named d"
  shows "\<exists>r s'. regu_set_cfg k cfg mem (d, l) = (Inr r, s')"
  using regu_find_total [of "rc_index cfg" mem "dv_regus d"] assms
  by (auto simp: regu_set_cfg_def named_def split: option.splits prod.splits)

lemma clock_reply_total:
  assumes "selects i" "named d"
  shows "\<exists>r u. clock_reply k i (d, l) = (Inr (r, i\<lparr>ms_cfg := u\<rparr>), d, l)"
proof -
  let ?mem = "drop 4 (ms_cfg i) @ k_stack k"
  obtain z where z: "clock_find (dv_clks d) (le32_at (ms_cfg i) 0) ?mem = Inr z"
    using clock_find_total [OF selects_copy [OF assms(1)]] assms(2) unfolding named_def by blast
  have "\<exists>s. ci_name (dv_clks d ! p) = Some s" if "z = Some p" for p
    using clock_find_Some [of "dv_clks d" "le32_at (ms_cfg i) 0" ?mem p] z that assms(2) by (force simp: named_def)
  with z show ?thesis
    by (cases z) (auto simp: clock_reply_def clock_get_cfg_def cfg_index bindE_def Let_def split: option.splits)
qed

lemma regu_reply_total:
  assumes "selects i" "named d"
  shows "\<exists>r u. regu_reply k i (d, l) = (Inr (r, i\<lparr>ms_cfg := u\<rparr>), d, l)"
proof -
  let ?mem = "drop 4 (ms_cfg i) @ k_stack k"
  obtain z where z: "regu_find (dv_regus d) (le32_at (ms_cfg i) 0) ?mem = Inr z"
    using regu_find_total [OF selects_copy [OF assms(1)]] assms(2) unfolding named_def by blast
  then show ?thesis
    by (cases z) (auto simp: regu_reply_def regu_get_cfg_def cfg_index bindE_def Let_def)
qed

text \<open>Switching a regulator leaves its name.\<close>

lemma regu_set_cfg_named:
  assumes "regu_set_cfg k cfg mem (d, l) = (r, d', l')" "named d"
  shows "named d'"
proof -
  have 1: "NUL \<notin> set (ri_name (dv_regus d ! p))" if "p < length (dv_regus d)" for p
    using assms(2) that by (simp add: named_def)
  have 2: "named (d\<lparr>dv_regus := (dv_regus d)[p := (dv_regus d ! p)\<lparr>ri_enabled := b\<rparr>]\<rparr>)" for p b
    using assms(2) 1 [of p]
    by (cases "p < length (dv_regus d)") (auto simp: named_def list_update_beyond dest: set_update_subset_insert [THEN subsetD])
  from assms(1) 2 assms(2) show ?thesis
    by (auto simp: regu_set_cfg_def regu_switch_def regu_voltage_def Let_def split: sum.splits option.splits if_splits)
qed

lemma srm_request_total:
  assumes i: "msg_of_memory mem = Some i" and ix: "selects i" and nm: "named d"
  shows "\<exists>r u s'. srm_request k mem i (d, l) = (Inr (r, i\<lparr>ms_cfg := u\<rparr>), s')"
proof -
  note m = selects_memory [OF i ix]
  obtain r1 l1 where c: "clock_set_cfg k (clock_cfg_of (ms_cfg i)) (drop 44 mem) (d, l) = (Inr r1, d, l1)"
    using clock_set_cfg_total [of "clock_cfg_of (ms_cfg i)" "drop 44 mem" d k l] nm m by (auto simp: cfg_index)
  obtain r2 d2 l2 where g: "regu_set_cfg k (regu_cfg_of (ms_cfg i)) (drop 44 mem) (d, l) = (Inr r2, d2, l2)"
    using regu_set_cfg_total [of "regu_cfg_of (ms_cfg i)" "drop 44 mem" d k l] nm m by (auto simp: cfg_index)
  let ?good = "\<lambda>x. \<exists>r u s'. x = (Inr (r, i\<lparr>ms_cfg := u\<rparr>), s' :: dev_state)"
  have 1: "?good (clock_reply k i (d, m))" for m using clock_reply_total [OF ix nm] by blast
  have 2: "?good (regu_reply k i (d, m))" for m using regu_reply_total [OF ix nm] by blast
  have 3: "?good (regu_reply k i (d2, m))" for m
    using regu_reply_total [OF ix regu_set_cfg_named [OF g nm]] by blast
  have 4: "?good (ret (x, i) s)" for x s by (auto intro: exI [of _ "ms_cfg i"])
  have "srm_request k mem i (d, l) \<in> {clock_reply k i (d, l1), regu_reply k i (d2, l2), clock_reply k i (d, l),
      regu_reply k i (d, l), ret (r1, i) (d, l1), ret (r2, i) (d2, l2), ret (- EINVAL, i) (d, l)}"
    by (simp add: srm_request_def bindE_def c g)
  with 1 2 3 4 show ?thesis by (elim insertE) (simp_all only: empty_iff)
qed

text \<open>What the device answers: the message that \<open>srm_request\<close> has made, as an error when it says so.\<close>

definition answered :: "int \<Rightarrow> rpmsg_srm_msg \<Rightarrow> rpmsg_srm_msg" where
  "answered r m = (if r \<noteq> 0 then m\<lparr>ms_message_type := RPROC_SRM_MSG_ERROR\<rparr> else m)"

lemma notify_cb_total:
  assumes i: "msg_of_memory mem = Some i" and ends: "read_c_str (string_of_bytes (drop 4 mem)) \<noteq> None"
    and ix: "selects i" and nm: "named d"
  shows "if addressed d mem
    then \<exists>r v m d' l1. srm_request k mem i (d, l) = (Inr (v, m), d', l1)
         \<and> notify_cb k mem (d, l) = (Inr r, d', KSend (msg_bytes (answered v m)) (k_rpmsg_send k l1 (msg_bytes (answered v m))) # l1)
         \<and> notify_stops r \<and> reply_to i (answered v m) \<and> request_frame (d, l) (d', l1)
    else notify_cb k mem (d, l) = (Inr NOTIFY_DONE, d, l)"
proof (cases "addressed d mem")
  case True
  obtain r u d' l1 where s: "srm_request k mem i (d, l) = (Inr (r, i\<lparr>ms_cfg := u\<rparr>), d', l1)"
    using srm_request_total [OF i ix nm] by (metis prod.collapse)
  then have "request_frame (d, l) (d', l1)" using growsD [OF srm_request_frame] by blast
  with notify_addressed [OF i True s] True s show ?thesis
    by (auto simp: Let_def reply_to_def answered_def)
next
  case False
  then have "strstr_mem (dv_name d) (drop 4 mem) = Inr False"
    using ends strstr_at_iff [of "dv_name d"] by (auto simp: addressed_def strstr_mem_def)
  with i False show ?thesis by (simp add: notify_cb_def)
qed

text \<open>The core after a device has handled a request: \<open>d'\<close> is the device, \<open>l1\<close> the log before the
  reply \<open>m\<close> is sent.\<close>

definition replied :: "core_kernel \<Rightarrow> string \<Rightarrow> srm_core \<Rightarrow> srm_dev \<Rightarrow> klog \<Rightarrow> rpmsg_srm_msg \<Rightarrow> srm_core" where
  "replied k n c d' l1 m =
     c\<lparr>co_devs := (co_devs c)(n \<mapsto> d'),
       co_log := KSend (msg_bytes m) (k_rpmsg_send (c_dev k n) l1 (msg_bytes m)) # l1\<rparr>"

definition serves :: "core_kernel \<Rightarrow> byte list \<Rightarrow> rpmsg_srm_msg \<Rightarrow> string \<Rightarrow> srm_core \<Rightarrow> srm_core \<Rightarrow> bool" where
  "serves k mem i n c c' \<longleftrightarrow>
     (\<exists>d v m d' l1. co_devs c n = Some d \<and> srm_request (c_dev k n) mem i (d, co_log c) = (Inr (v, m), d', l1)
       \<and> c' = replied k n c d' l1 (answered v m)
       \<and> reply_to i (answered v m) \<and> request_frame (d, co_log c) (d', l1))"

lemma notifier_total:
  assumes i: "msg_of_memory mem = Some i" "read_c_str (string_of_bytes (drop 4 mem)) \<noteq> None" "selects i"
    and d: "co_devs c n = Some d" "named d"
  shows "if addressed d mem then \<exists>r c'. notifier k mem n c = (Inr r, c') \<and> notify_stops r \<and> serves k mem i n c c'
    else notifier k mem n c = (Inr NOTIFY_DONE, c)"
proof -
  have c: "(co_devs c)(n := Some d) = co_devs c" using d(1) by (simp add: fun_upd_idem)
  note t = notify_cb_total [OF i d(2), of "c_dev k n" "co_log c"]
  show ?thesis
  proof (cases "addressed d mem")
    case True
    with t obtain r v m d' l1 where s: "srm_request (c_dev k n) mem i (d, co_log c) = (Inr (v, m), d', l1)"
      "notify_cb (c_dev k n) mem (d, co_log c) =
        (Inr r, d', KSend (msg_bytes (answered v m)) (k_rpmsg_send (c_dev k n) l1 (msg_bytes (answered v m))) # l1)"
      and p: "notify_stops r" "reply_to i (answered v m)" "request_frame (d, co_log c) (d', l1)" by auto
    then have "notifier k mem n c = (Inr r, replied k n c d' l1 (answered v m))"
      using d(1) by (simp add: notifier_def on_dev_def replied_def)
    moreover from s(1) p(2,3) d(1) have "serves k mem i n c (replied k n c d' l1 (answered v m))"
      unfolding serves_def by blast
    ultimately show ?thesis using p(1) True by auto
  next
    case False
    with t d(1) c show ?thesis by (simp add: notifier_def on_dev_def)
  qed
qed

text \<open>The device the message is for: the first on the chain whose name holds the identifier.\<close>

fun receiver :: "(string \<Rightarrow> srm_dev option) \<Rightarrow> byte list \<Rightarrow> string list \<Rightarrow> string option" where
  "receiver devs mem [] = None"
| "receiver devs mem (n # ns) =
     (case devs n of
        Some d \<Rightarrow> if addressed d mem then Some n else receiver devs mem ns
      | None \<Rightarrow> receiver devs mem ns)"

lemma receiver_addressed: "receiver devs mem ns = Some n \<Longrightarrow> devs n = Some d \<Longrightarrow> addressed d mem"
  by (induction ns) (auto split: option.splits if_splits)

lemma ref_chain_total:
  assumes i: "msg_of_memory mem = Some i" "read_c_str (string_of_bytes (drop 4 mem)) \<noteq> None" "selects i"
    and d: "\<And>n. n \<in> set ns \<Longrightarrow> \<exists>d. co_devs c n = Some d \<and> named d"
  shows "case receiver (co_devs c) mem ns of
      None \<Rightarrow> ref_chain (notifier k mem) ns c = (Inr NOTIFY_DONE, c)
    | Some n \<Rightarrow> (\<exists>r c'. ref_chain (notifier k mem) ns c = (Inr r, c') \<and> notify_stops r \<and> serves k mem i n c c')"
  using d
proof (induction ns)
  case (Cons n ns)
  obtain d where d: "co_devs c n = Some d" "named d" using Cons.prems [of n] by auto
  note t = notifier_total [OF i d, of k]
  show ?case
  proof (cases "addressed d mem")
    case True
    with t obtain r c' where "notifier k mem n c = (Inr r, c')" "notify_stops r" "serves k mem i n c c'" by auto
    with True d show ?thesis by (auto simp: bindE_def)
  next
    case False
    have "ref_chain (notifier k mem) (n # ns) c = ref_chain (notifier k mem) ns c"
      using False t by (cases ns) (simp_all add: bindE_def)
    moreover have "receiver (co_devs c) mem (n # ns) = receiver (co_devs c) mem ns"
      using False d by simp
    moreover have "\<exists>d. co_devs c n' = Some d \<and> named d" if "n' \<in> set ns" for n'
      using Cons.prems [of n'] that by simp
    note Cons.IH [OF this]
    ultimately show ?thesis by (simp only:)
  qed
qed simp

text \<open>The messages sent, newest first.\<close>

fun sends :: "klog \<Rightarrow> byte list list" where
  "sends [] = []"
| "sends (KSend b _ # l) = b # sends l"
| "sends (_ # l) = sends l"

lemma sends_extends: "extends request_call l l' \<Longrightarrow> sends l' = sends l"
proof -
  have "list_all request_call es \<Longrightarrow> sends (es @ l) = sends l" for es
  proof (induction es)
    case (Cons e es)
    then show ?case by (cases e) auto
  qed simp
  then show "extends request_call l l' \<Longrightarrow> sends l' = sends l" by (auto simp: extends_def)
qed

text \<open>C13. Every message that has arrived is answered exactly once. It is handled by the first device on
  the chain whose name holds the identifier of the message and by no other: the core is then left
  with what \<open>srm_request\<close> makes of that device and of the log, and with one message sent behind it,
  the one \<open>srm_request\<close> made, as an error exactly when its return value is not zero. The reply names
  the same device and resource and keeps the type of the message or says error. When there is no
  such device the message itself goes back as an error and nothing else changes. How many bytes have
  arrived makes no difference. The devices of the chain exist and their entries are named, the
  identifier ends, and the message uses an index or a name that ends.
\<close>
theorem message_answered_once:
  assumes chain: "chain_law k" and i: "msg_of_memory mem = Some i"
    and ends: "read_c_str (string_of_bytes (drop 4 mem)) \<noteq> None" and ix: "selects i"
    and devs: "\<And>n. n \<in> set (registered (co_log c)) \<Longrightarrow> \<exists>d. co_devs c n = Some d \<and> named d"
  shows "case receiver (co_devs c) mem (registered (co_log c)) of
      None \<Rightarrow>
        (let m = i\<lparr>ms_message_type := RPROC_SRM_MSG_ERROR\<rparr>
         in rpmsg_srm_cb k mem len c =
              (Inr 0, c\<lparr>co_log := KSend (msg_bytes m) (c_rpmsg_send k (co_log c) (msg_bytes m)) # co_log c\<rparr>))
    | Some n \<Rightarrow>
        (\<exists>d v m d' l1. co_devs c n = Some d \<and> addressed d mem
           \<and> srm_request (c_dev k n) mem i (d, co_log c) = (Inr (v, m), d', l1)
           \<and> sends l1 = sends (co_log c)
           \<and> (let m' = (if v \<noteq> 0 then m\<lparr>ms_message_type := RPROC_SRM_MSG_ERROR\<rparr> else m)
              in reply_to i m' \<and> rpmsg_srm_cb k mem len c =
                   (Inr 0, c\<lparr>co_devs := (co_devs c)(n \<mapsto> d'),
                             co_log := KSend (msg_bytes m') (k_rpmsg_send (c_dev k n) l1 (msg_bytes m')) # l1\<rparr>)))"
proof -
  let ?ns = "registered (co_log c)"
  note t = ref_chain_total [OF i ends ix devs, of ?ns k]
  show ?thesis
  proof (cases "receiver (co_devs c) mem ?ns")
    case None
    with t chain i show ?thesis
      by (simp add: rpmsg_srm_cb_def chain_law_def bindE_def core_send_def rpmsg_srm_send_def Let_def)
  next
    case (Some n)
    with t obtain r c' where r: "ref_chain (notifier k mem) ?ns c = (Inr r, c')" "notify_stops r"
      and s: "serves k mem i n c c'" by auto
    from r chain have cb: "rpmsg_srm_cb k mem len c = (Inr 0, c')"
      by (simp add: rpmsg_srm_cb_def chain_law_def bindE_def)
    from s obtain d v m d' l1 where "co_devs c n = Some d" "srm_request (c_dev k n) mem i (d, co_log c) = (Inr (v, m), d', l1)"
      "c' = replied k n c d' l1 (answered v m)" "reply_to i (answered v m)"
      and f: "request_frame (d, co_log c) (d', l1)"
      unfolding serves_def by blast
    moreover from f have "sends l1 = sends (co_log c)" by (simp add: request_frame_def sends_extends)
    ultimately show ?thesis using Some cb receiver_addressed [OF Some]
      by (simp add: Let_def answered_def replied_def)
  qed
qed

definition demo_core :: core_kernel where
  "demo_core =
     \<lparr>c_dev = (\<lambda>_. demo_kernel), c_detached = False, c_kzalloc = (\<lambda>_. True), c_children = [1],
      c_match_add = (\<lambda>_. True), c_populate_calls = (\<lambda>_. [CProbe ''srm@1'']), c_populate = (\<lambda>_. 0),
      c_depopulate_calls = (\<lambda>_. [CRemove ''srm@1'']), c_bind_calls = (\<lambda>_. [CBind ''srm@1'']),
      c_bind_all = (\<lambda>_. 0), c_unbind_calls = (\<lambda>_. [CUnbind ''srm@1'']),
      c_master_add_calls = (\<lambda>_. [CCoreBind]), c_master_add = (\<lambda>_. 0), c_wait_calls = (\<lambda>_. []),
      c_master_del_calls = (\<lambda>_. [CCoreUnbind]), c_driver_register = (\<lambda>_. 0), c_rpmsg_send = (\<lambda>_ _. 0),
      c_call_chain = (\<lambda>f c. ref_chain f (registered (co_log c)) c)\<rparr>"

definition demo_core_state :: srm_core where
  "demo_core_state = \<lparr>co_all_bound = False, co_bind_status = 0, co_prepared = 0,
     co_devs = (\<lambda>_. None)(''srm@1'' := Some demo_dev), co_log = [KNbRegister ''srm@1'' 0]\<rparr>"

text \<open>A request by name: the name of the clock of the device is empty.\<close>

definition demo_by_name :: rpmsg_srm_msg where
  "demo_by_name = demo_request RPROC_SRM_MSG_GETCONFIG RPROC_SRM_RSC_CLOCK
     (put_clock_cfg \<lparr>cc_index = U32_MAX, cc_name = replicate 16 0, cc_rate = 0\<rparr> (replicate 36 0))"

theorem message_answered_once_witness:
  "\<exists>v m d' l1. srm_request demo_kernel (msg_bytes demo_by_name) demo_by_name (demo_dev, [KNbRegister ''srm@1'' 0])
        = (Inr (v, m), d', l1)
     \<and> rpmsg_srm_cb demo_core (msg_bytes demo_by_name) 3 demo_core_state =
        (Inr 0, demo_core_state\<lparr>co_devs := [''srm@1'' \<mapsto> d'],
           co_log := KSend (msg_bytes (answered v m)) 0 # l1\<rparr>)"
proof -
  let ?u = "put_clock_cfg \<lparr>cc_index = U32_MAX, cc_name = replicate 16 0, cc_rate = 0\<rparr> (replicate 36 0)"
  have l: "length ?u = 36" by (simp add: put_clock_cfg_def sizeof_clock_cfg_def)
  have i: "msg_of_memory (msg_bytes demo_by_name) = Some demo_by_name" "addressed demo_dev (msg_bytes demo_by_name)"
    unfolding demo_by_name_def using demo_request_read [OF l] by blast+
  from i(2) have e: "read_c_str (string_of_bytes (drop 4 (msg_bytes demo_by_name))) \<noteq> None"
    by (auto simp: addressed_def split: option.splits)
  have ix: "selects demo_by_name"
    by (simp add: selects_def demo_by_name_def demo_request_def put_clock_cfg_def)
  have c: "chain_law demo_core" by (simp add: chain_law_def demo_core_def)
  have d: "\<exists>d. co_devs demo_core_state n = Some d \<and> named d" if "n \<in> set (registered (co_log demo_core_state))" for n
    using that by (simp add: demo_core_state_def named_def demo_dev_def NUL_def)
  have r: "receiver (co_devs demo_core_state) (msg_bytes demo_by_name) (registered (co_log demo_core_state)) = Some ''srm@1''"
    using i(2) by (simp add: demo_core_state_def)
  have k: "k_rpmsg_send demo_kernel l b = 0" "c_dev demo_core n = demo_kernel" for n l b
    by (simp_all add: demo_core_def demo_kernel_def)
  from message_answered_once [OF c i(1) e ix d, of 3]
  obtain d v m d' l1 where "co_devs demo_core_state ''srm@1'' = Some d"
    "srm_request demo_kernel (msg_bytes demo_by_name) demo_by_name (d, co_log demo_core_state) = (Inr (v, m), d', l1)"
    "rpmsg_srm_cb demo_core (msg_bytes demo_by_name) 3 demo_core_state =
       (Inr 0, demo_core_state\<lparr>co_devs := (co_devs demo_core_state)(''srm@1'' \<mapsto> d'),
          co_log := KSend (msg_bytes (answered v m)) 0 # l1\<rparr>)"
    unfolding r option.case Let_def answered_def [symmetric] k by (rule) (assumption, blast)
  moreover have "co_devs demo_core_state ''srm@1'' = Some demo_dev" "co_log demo_core_state = [KNbRegister ''srm@1'' 0]"
    "(co_devs demo_core_state)(''srm@1'' \<mapsto> d') = [''srm@1'' \<mapsto> d']" for d'
    by (simp_all add: demo_core_state_def)
  ultimately show ?thesis by (metis option.inject)
qed

section \<open>What a callback may do\<close>

text \<open>The calls only the core itself makes.\<close>

fun core_event :: "kcall \<Rightarrow> bool" where
  "core_event (KPopulate _) = True" | "core_event KDepopulate = True"
| "core_event (KMasterAdd _) = True" | "core_event KMasterDel = True"
| "core_event (KDriverRegister _) = True" | "core_event KDriverUnregister = True"
| "core_event _ = False"

abbreviation "quiet \<equiv> extends (\<lambda>e. \<not> core_event e)"

lemma device_call_quiet: "device_call e \<Longrightarrow> \<not> core_event e"
  by (cases e) (simp_all add: device_call_def)

lemma internal_quiet: "internal l l' \<Longrightarrow> quiet l l'"
  by (erule extends_mono) (rule device_call_quiet)

lemma quiet_Cons [simp]: "\<not> core_event e \<Longrightarrow> quiet l (e # l') \<longleftrightarrow> quiet l l' \<or> l = e # l'"
  by (rule extends_Cons_iff)

text \<open>A callback leaves the core's own calls and its counter alone.\<close>

definition core_quiet :: "srm_core \<Rightarrow> srm_core \<Rightarrow> bool" where
  "core_quiet c c' \<longleftrightarrow> quiet (co_log c) (co_log c') \<and> co_prepared c' = co_prepared c"

lemma reflp_core_quiet: "reflp core_quiet"
  by (simp add: reflp_def core_quiet_def)

lemma transp_core_quiet: "transp core_quiet"
  by (auto simp: core_quiet_def intro!: transpI intro: extends_trans)

lemma grows_quiet_intros [op_intros]:
  "grows core_quiet (ret x)" "grows core_quiet (core_get f)"
  "\<not> core_event e \<Longrightarrow> grows core_quiet (log_call e)"
  "(\<And>c. co_log (g c) = co_log c \<and> co_prepared (g c) = co_prepared c) \<Longrightarrow> grows core_quiet (core_put g)"
  by (auto simp: grows_def core_quiet_def core_get_def log_call_def core_put_def)

lemmas grows_quiet_bind [op_intros] = grows_bindE [OF transp_core_quiet]

lemma grows_quiet_on_dev:
  "(\<And>d l. internal l (snd (snd (m (d, l))))) \<Longrightarrow> grows core_quiet (on_dev n m)"
  by (auto simp: grows_def core_quiet_def on_dev_def split: option.splits prod.splits)
     (metis internal_quiet snd_conv)

lemma probe_call_quiet: "grows core_quiet (probe_call k n)"
  unfolding grows_def core_quiet_def probe_call_def
  using dev_probe_acquires [of _ "c_dev k n" n "c_detached k"] internal_quiet [OF internal_intros(1)]
  by (auto split: sum.splits prod.splits) (metis snd_conv)+

lemma do_dev_call_quiet: "grows core_quiet (do_dev_call k x)"
proof (cases x)
  case (CProbe n)
  then show ?thesis by (simp add: probe_call_quiet)
next
  case (CRemove n)
  have "grows core_quiet (on_dev n (\<lambda>s. (Inr (), dev_remove (c_dev k n) s)))"
    by (rule grows_quiet_on_dev) (simp add: dev_remove_internal)
  with CRemove show ?thesis by (auto simp: remove_call_def intro!: op_intros)
next
  case (CBind n)
  have "grows core_quiet (on_dev n (\<lambda>s. case dev_bind (c_dev k n) s of (r, s') \<Rightarrow> (Inr r, s')))"
    by (rule grows_quiet_on_dev) (simp split: prod.split, metis dev_bind_internal snd_conv)
  with CBind show ?thesis by (auto simp: bind_call_def intro!: op_intros)
next
  case (CUnbind n)
  have "grows core_quiet (on_dev n (\<lambda>s. (Inr (), dev_unbind (c_dev k n) s)))"
    by (rule grows_quiet_on_dev) (simp add: dev_unbind_internal)
  with CUnbind show ?thesis by (auto simp: unbind_call_def intro!: op_intros)
qed

lemma each_quiet: "(\<And>x. grows core_quiet (f x)) \<Longrightarrow> grows core_quiet (each f xs)"
  by (induction xs) (auto intro!: op_intros)

lemma dev_calls_quiet: "grows core_quiet (dev_calls k f)"
  by (auto simp: dev_calls_def intro!: op_intros each_quiet do_dev_call_quiet)

lemma do_core_call_quiet: "grows core_quiet (do_core_call k x)"
  by (cases x) (auto simp: do_dev_call_quiet core_bind_def core_unbind_def intro!: op_intros dev_calls_quiet)

lemma core_calls_quiet: "grows core_quiet (core_calls k f)"
  by (auto simp: core_calls_def intro!: op_intros each_quiet do_core_call_quiet)

section \<open>Preparing and unpreparing\<close>

fun drivers :: "kcall \<Rightarrow> int" where
  "drivers (KDriverRegister r) = of_bool (r = 0)" | "drivers KDriverUnregister = - 1" | "drivers _ = 0"

fun masters :: "kcall \<Rightarrow> int" where
  "masters (KMasterAdd r) = of_bool (r = 0)" | "masters KMasterDel = - 1" | "masters _ = 0"

fun populated :: "kcall \<Rightarrow> int" where
  "populated (KPopulate r) = of_bool (r = 0)" | "populated KDepopulate = - 1" | "populated _ = 0"

lemma core_event_counts:
  "\<not> core_event e \<Longrightarrow> drivers e = 0" "\<not> core_event e \<Longrightarrow> masters e = 0" "\<not> core_event e \<Longrightarrow> populated e = 0"
  by (cases e; simp)+

text \<open>By how much the counter of the core, the registered drivers, the masters and the populated
  nodes change.\<close>

definition moves :: "int \<Rightarrow> int \<Rightarrow> int \<Rightarrow> int \<Rightarrow> srm_core \<Rightarrow> srm_core \<Rightarrow> bool" where
  "moves p d m n c c' \<longleftrightarrow>
     co_prepared c' = co_prepared c + p \<and> total drivers (co_log c') = total drivers (co_log c) + d
     \<and> total masters (co_log c') = total masters (co_log c) + m
     \<and> total populated (co_log c') = total populated (co_log c) + n"

lemma core_quiet_moves: "core_quiet c c' \<Longrightarrow> moves 0 0 0 0 c c'"
  by (auto simp: core_quiet_def moves_def elim!: total_extends intro: core_event_counts)

lemma quiet_op_moves: "grows core_quiet m \<Longrightarrow> m c = (r, c') \<Longrightarrow> moves 0 0 0 0 c c'"
  by (blast intro: core_quiet_moves dest: growsD)

lemma populate_moves:
  "of_platform_populate k c = (Inr r, c') \<Longrightarrow> moves 0 0 0 (of_bool (r = 0)) c c'"
  by (auto simp: of_platform_populate_def bindE_result core_get_def log_call_def moves_def
      dest!: quiet_op_moves [OF dev_calls_quiet])

lemma depopulate_moves: "of_platform_depopulate k c = (Inr r, c') \<Longrightarrow> moves 0 0 0 (- 1) c c'"
  by (auto simp: of_platform_depopulate_def bindE_result log_call_def moves_def
      dest!: quiet_op_moves [OF dev_calls_quiet])

lemma master_add_moves: "master_add k c = (Inr r, c') \<Longrightarrow> moves 0 0 (of_bool (r = 0)) 0 c c'"
  by (auto simp: master_add_def bindE_result core_get_def log_call_def moves_def
      dest!: quiet_op_moves [OF core_calls_quiet])

lemma master_del_moves: "master_del k c = (Inr r, c') \<Longrightarrow> moves 0 0 (- 1) 0 c c'"
  by (auto simp: master_del_def bindE_result log_call_def moves_def
      dest!: quiet_op_moves [OF core_calls_quiet])

lemma wait_bound_moves: "wait_bound k c = (Inr b, c') \<Longrightarrow> moves 0 0 0 0 c c' \<and> b = co_all_bound c'"
  by (auto simp: wait_bound_def bindE_result core_get_def log_call_def moves_def split: if_splits
      dest!: quiet_op_moves [OF core_calls_quiet])

lemma register_driver_moves:
  "register_driver k c = (Inr r, c') \<Longrightarrow> moves 0 (of_bool (r = 0)) 0 0 c c' \<and> co_all_bound c' = co_all_bound c
     \<and> co_bind_status c' = co_bind_status c"
  by (auto simp: register_driver_def bindE_result core_get_def log_call_def moves_def)

lemma add_matches_moves:
  "add_matches k chs m c = (Inr m', c') \<Longrightarrow> moves 0 0 0 0 c c' \<and> (chs = [] \<longrightarrow> m' = m) \<and> (chs \<noteq> [] \<longrightarrow> m' \<noteq> NoMatch)"
proof (induction chs arbitrary: m c)
  case (Cons ch chs)
  then obtain m1 c1 where "add_matches k chs m1 c1 = (Inr m', c')" "moves 0 0 0 0 c c1" "m1 \<noteq> NoMatch"
    by (auto simp: bindE_result core_get_def log_call_def moves_def split: if_splits)
  with Cons.IH [of m1 c1] show ?case by (cases chs) (auto simp: moves_def)
qed (simp add: moves_def)

lemma prepare_master_moves:
  "prepare_master k r c = (Inr r', c') \<Longrightarrow> moves 0 0 (- 1) (- 1) c c' \<and> r' = r"
  by (auto simp: prepare_master_def prepare_depopulate_def bindE_result moves_def
      dest!: master_del_moves depopulate_moves)

lemma prepare_bound_moves:
  assumes "prepare_bound k c = (Inr r, c')"
  shows "if r = 0 then moves 1 1 0 0 c c' \<and> co_all_bound c' \<and> co_bind_status c' = 0
    else moves 0 0 (- 1) (- 1) c c'"
proof -
  from assms obtain b c1 where w: "wait_bound k c = (Inr b, c1)"
    and 1: "(if \<not> b then prepare_master k (- ETIMEDOUT)
            else bindE (core_get co_bind_status)
              (\<lambda>st. if st \<noteq> 0 then prepare_master k st
                    else bindE (register_driver k) (\<lambda>r. if r \<noteq> 0 then prepare_master k r else prepare_done))) c1
        = (Inr r, c')"
    unfolding prepare_bound_def by (rule bindE_InrE)
  note w = wait_bound_moves [OF w]
  show ?thesis
  proof (cases "b \<and> co_bind_status c1 = 0")
    case False
    then obtain e where "prepare_master k e c1 = (Inr r, c')" "e \<noteq> 0"
      using 1 by (auto simp: core_get_def bindE_result ETIMEDOUT_def split: if_splits)
    with w prepare_master_moves [of k e c1 r c'] show ?thesis by (auto simp: moves_def)
  next
    case True
    with 1 obtain e c2 where r: "register_driver k c1 = (Inr e, c2)"
      and 2: "(if e \<noteq> 0 then prepare_master k e else prepare_done) c2 = (Inr r, c')"
      by (auto simp: core_get_def bindE_result split: if_splits)
    note r = register_driver_moves [OF r]
    from 2 show ?thesis
      using w r True prepare_master_moves [of k e c2 r c']
      by (auto simp: prepare_done_def core_put_def bindE_result moves_def split: if_splits)
  qed
qed

lemma prepare_moves:
  assumes "core_prepare k c = (Inr r, c')"
  shows "if r \<noteq> 0 then moves 0 0 0 0 c c'
    else if c_children k = [] then moves 1 0 0 1 c c'
    else moves 1 1 1 1 c c' \<and> co_all_bound c' \<and> co_bind_status c' = 0"
proof -
  let ?c0 = "c\<lparr>co_all_bound := False\<rparr>"
  from assms obtain r1 c1 where p: "of_platform_populate k ?c0 = (Inr r1, c1)"
    and 1: "(if r1 \<noteq> 0 then ret r1
             else bindE (add_matches k (c_children k) NoMatch)
               (\<lambda>m. case m of
                  NoMatch \<Rightarrow> prepare_done
                | MatchErr \<Rightarrow> raise (Undefined ''component_master_add_with_match'')
                | Match \<Rightarrow> bindE (master_add k)
                    (\<lambda>r2. if r2 \<noteq> 0 then prepare_depopulate k r2 else prepare_bound k))) c1 = (Inr r, c')"
    by (auto simp: core_prepare_def core_put_def bindE_result)
  have m1: "moves 0 0 0 (of_bool (r1 = 0)) c c1"
    using populate_moves [OF p] by (simp add: moves_def)
  show ?thesis
  proof (cases "r1 = 0")
    case False
    with 1 m1 show ?thesis by auto
  next
    case True
    with 1 obtain m c2 where a: "add_matches k (c_children k) NoMatch c1 = (Inr m, c2)"
      and 2: "(case m of
                  NoMatch \<Rightarrow> prepare_done
                | MatchErr \<Rightarrow> raise (Undefined ''component_master_add_with_match'')
                | Match \<Rightarrow> bindE (master_add k)
                    (\<lambda>r2. if r2 \<noteq> 0 then prepare_depopulate k r2 else prepare_bound k)) c2 = (Inr r, c')"
      by (auto simp: bindE_result)
    note m2 = add_matches_moves [OF a]
    show ?thesis
    proof (cases m)
      case NoMatch
      with 2 m1 m2 True show ?thesis
        by (auto simp: prepare_done_def core_put_def bindE_result moves_def)
    next
      case Match
      with 2 obtain r2 c3 where m: "master_add k c2 = (Inr r2, c3)"
        and 3: "(if r2 \<noteq> 0 then prepare_depopulate k r2 else prepare_bound k) c3 = (Inr r, c')"
        by (auto simp: bindE_result)
      note m3 = master_add_moves [OF m]
      from Match m2 have ch: "c_children k \<noteq> []" by auto
      show ?thesis
      proof (cases "r2 = 0")
        case False
        with 3 m1 m2 m3 True show ?thesis
          by (auto simp: prepare_depopulate_def bindE_result moves_def dest!: depopulate_moves)
      next
        case r2: True
        with 3 have "prepare_bound k c3 = (Inr r, c')" by simp
        from prepare_bound_moves [OF this] m1 m2 m3 True r2 ch show ?thesis
          by (auto simp: moves_def split: if_splits)
      qed
    next
      case MatchErr
      with 2 show ?thesis by simp
    qed
  qed
qed

lemma unprepare_moves:
  assumes "core_unprepare k c = (Inr u, c')"
  shows "if co_prepared c = 0 then c' = c else moves (- 1) (- 1) (- 1) (- 1) c c'"
  using assms
  by (auto simp: core_unprepare_def core_get_def core_put_def log_call_def bindE_result moves_def split: if_splits
      dest!: master_del_moves depopulate_moves)

text \<open>C16. Preparing the remote processor is all or nothing: when it fails, no driver for the messages is
  registered, no master is left and the resource devices are gone again. When it succeeds with
  resource devices, all of them are bound, and unpreparing takes back exactly what preparing did.
  When there are no resource devices, preparing registers nothing, and unpreparing unregisters a
  driver and a master that never were.
\<close>
theorem prepare_unprepare_balance:
  assumes p: "core_prepare k c = (Inr r, c1)" and u: "core_unprepare k c1 = (Inr (), c2)"
    and fresh: "co_prepared c = 0"
  shows "(r \<noteq> 0 \<longrightarrow> moves 0 0 0 0 c c1 \<and> c2 = c1)
     \<and> (r = 0 \<and> c_children k \<noteq> [] \<longrightarrow>
          moves 1 1 1 1 c c1 \<and> co_all_bound c1 \<and> co_bind_status c1 = 0 \<and> moves 0 0 0 0 c c2)
     \<and> (r = 0 \<and> c_children k = [] \<longrightarrow> moves 1 0 0 1 c c1 \<and> moves 0 (- 1) (- 1) 0 c c2)"
  using prepare_moves [OF p] unprepare_moves [OF u] fresh by (auto simp: moves_def split: if_splits)

definition demo_core_empty :: srm_core where
  "demo_core_empty = \<lparr>co_all_bound = False, co_bind_status = 0, co_prepared = 0, co_devs = (\<lambda>_. None), co_log = []\<rparr>"

lemmas demo_core_eval = core_prepare_def core_unprepare_def bindE_def core_put_def core_get_def log_call_def
  of_platform_populate_def of_platform_depopulate_def master_add_def master_del_def wait_bound_def
  register_driver_def prepare_bound_def prepare_done_def prepare_master_def prepare_depopulate_def
  dev_calls_def core_calls_def demo_core_def demo_core_empty_def probe_call_def

theorem prepare_unprepare_balance_witness:
  "\<exists>c1 c2. core_prepare (demo_core\<lparr>c_children := [], c_populate_calls := \<lambda>_. [], c_depopulate_calls := \<lambda>_. [],
       c_master_del_calls := \<lambda>_. []\<rparr>) demo_core_empty = (Inr 0, c1)
     \<and> core_unprepare (demo_core\<lparr>c_children := [], c_populate_calls := \<lambda>_. [], c_depopulate_calls := \<lambda>_. [],
       c_master_del_calls := \<lambda>_. []\<rparr>) c1 = (Inr (), c2)
     \<and> total drivers (co_log c2) = -1"
proof -
  let ?k = "demo_core\<lparr>c_children := [], c_populate_calls := \<lambda>_. [], c_depopulate_calls := \<lambda>_. [],
       c_master_del_calls := \<lambda>_. []\<rparr>"
  obtain c1 where p: "core_prepare ?k demo_core_empty = (Inr 0, c1)" and z: "c_children ?k = []" and 1: "co_prepared c1 = 1"
    by (simp add: demo_core_eval)
  obtain c2 where u: "core_unprepare ?k c1 = (Inr (), c2)"
    using 1 by (simp add: core_unprepare_def bindE_def core_get_def core_put_def log_call_def master_del_def
        of_platform_depopulate_def dev_calls_def core_calls_def demo_core_def)
  have "moves 0 (- 1) (- 1) 0 demo_core_empty c2"
    using prepare_unprepare_balance [OF p u] z by (simp add: demo_core_empty_def)
  with p u show ?thesis by (auto simp: moves_def demo_core_empty_def)
qed

section \<open>A probe that fails at the end\<close>

text \<open>C40. When \<open>component_add\<close> fails, the probe reports the error although the device has registered with
  the chain of notifiers and holds its clocks: the kernel frees the device, its block stays on the
  chain, and the next message that gets as far follows a dangling pointer.
\<close>
theorem failed_component_add_dangles:
  assumes chain: "chain_law k" and new: "registered (co_log c) = []"
    and p: "dev_probe (c_dev k n) n (c_detached k) (co_log c) = (Inr (r, Some d), l)" and fail: "r \<noteq> 0"
    and m: "msg_of_memory mem = Some i"
  shows "\<exists>c'. probe_call k n c = (Inr (), c') \<and> co_devs c' n = None \<and> registered (co_log c') = [n]
     \<and> (\<forall>q. total (clk_ref q) (co_log c') = total (clk_ref q) (co_log c) + clk_refs q d)
     \<and> fst (rpmsg_srm_cb k mem len c') = Inl (Undefined ''use after free'')"
proof -
  let ?c = "c\<lparr>co_devs := (co_devs c)(n := None), co_log := KProbe n r # l\<rparr>"
  have call: "probe_call k n c = (Inr (), ?c)" using p fail by (simp add: probe_call_def)
  have acc: "probe_accounts n (co_log c) (Some d) l"
    using dev_probe_result [OF _ p] new by simp
  then have "registered (co_log ?c) = [n]" using new by (simp add: probe_accounts_def)
  moreover from this have "fst (rpmsg_srm_cb k mem len ?c) = Inl (Undefined ''use after free'')"
    using chain by (simp add: rpmsg_srm_cb_def chain_law_def bindE_def notifier_def on_dev_def)
  ultimately show ?thesis using call acc by (intro exI [of _ ?c]) (simp add: probe_accounts_def)
qed

theorem failed_component_add_dangles_witness:
  "\<exists>c'. probe_call (demo_core\<lparr>c_dev := \<lambda>_. demo_kernel\<lparr>k_component_add := \<lambda>_ _. -12\<rparr>\<rparr>) ''srm@1'' demo_core_empty = (Inr (), c')
     \<and> registered (co_log c') = [''srm@1'']
     \<and> fst (rpmsg_srm_cb (demo_core\<lparr>c_dev := \<lambda>_. demo_kernel\<lparr>k_component_add := \<lambda>_ _. -12\<rparr>\<rparr>) (msg_bytes demo_set_rate) 76 c')
         = Inl (Undefined ''use after free'')"
proof -
  let ?d = "demo_kernel\<lparr>k_component_add := \<lambda>_ _. -12\<rparr>"
  let ?k = "demo_core\<lparr>c_dev := \<lambda>_. ?d\<rparr>"
  have c: "chain_law ?k" by (simp add: chain_law_def demo_core_def)
  obtain l where "dev_probe ?d ''srm@1'' False [] = (Inr (-12, Some demo_dev), l)"
    by (simp add: dev_probe_def demo_kernel_def clocks_get_def regus_get_def irqs_get_def Let_def kstrdup_def
      register_notifier_def demo_dev_def)
  then have p: "dev_probe (c_dev ?k ''srm@1'') ''srm@1'' (c_detached ?k) (co_log demo_core_empty) = (Inr (-12, Some demo_dev), l)"
    by (simp add: demo_core_def demo_core_empty_def)
  have l: "length (put_clock_cfg \<lparr>cc_index = 0, cc_name = replicate 16 0, cc_rate = 9\<rparr> (replicate 36 0)) = 36"
    by (simp add: put_clock_cfg_def sizeof_clock_cfg_def)
  have i: "msg_of_memory (msg_bytes demo_set_rate) = Some demo_set_rate"
    unfolding demo_set_rate_def using demo_request_read(1) [OF l] by blast
  from failed_component_add_dangles [OF c _ p _ i] show ?thesis
    by (auto simp: demo_core_empty_def)
qed

end
