(* ===== verification/Srm_Session.thy ===== *)
theory Srm_Session
  imports Srm_Core_Correct
begin

text \<open>
  A whole session of the coprocessor: the remote processor is prepared, its messages are served, and
  it is unprepared. The books the resource devices keep one by one, see \<open>Srm_Books\<close>, are
  added up over the devices that exist; the sum follows the kernel's counts through every callback
  of the driver core, the component framework and the notifier chain.
\<close>

section \<open>What the log says of a device\<close>

text \<open>A device exists from a probe that succeeded until it is removed; it is bound from a bind that
  succeeded until it is unbound.\<close>

fun exists_in :: "string \<Rightarrow> klog \<Rightarrow> bool" where
  "exists_in n [] = False"
| "exists_in n (KProbe m r # l) = (if m = n then r = 0 else exists_in n l)"
| "exists_in n (KRemove m # l) = (m \<noteq> n \<and> exists_in n l)"
| "exists_in n (_ # l) = exists_in n l"

fun bound_in :: "string \<Rightarrow> klog \<Rightarrow> bool" where
  "bound_in n [] = False"
| "bound_in n (KDevBind m r # l) = (if m = n then r = 0 else bound_in n l)"
| "bound_in n (KDevUnbind m # l) = (m \<noteq> n \<and> bound_in n l)"
| "bound_in n (KProbe m _ # l) = (m \<noteq> n \<and> bound_in n l)"
| "bound_in n (KRemove m # l) = (m \<noteq> n \<and> bound_in n l)"
| "bound_in n (_ # l) = bound_in n l"

text \<open>The order the driver core and the component framework keep: a device that exists is not probed
  again, and one that is bound not bound again. With \<open>s\<close>, every bind has succeeded.\<close>

fun orderly :: "bool \<Rightarrow> klog \<Rightarrow> bool" where
  "orderly s [] = True"
| "orderly s (KProbe n _ # l) = (\<not> exists_in n l \<and> orderly s l)"
| "orderly s (KDevBind n r # l) = (\<not> bound_in n l \<and> (s \<longrightarrow> r = 0) \<and> orderly s l)"
| "orderly s (_ # l) = orderly s l"

fun life_call :: "kcall \<Rightarrow> bool" where
  "life_call (KProbe _ _) = True" | "life_call (KRemove _) = True"
| "life_call (KDevBind _ _) = True" | "life_call (KDevUnbind _) = True" | "life_call _ = False"

lemma device_call_lifeless: "device_call e \<Longrightarrow> \<not> life_call e"
  by (cases e) (simp_all add: device_call_def)

lemma lifeless:
  assumes "\<not> life_call e"
  shows "exists_in n (e # l) = exists_in n l" "bound_in n (e # l) = bound_in n l"
    "orderly s (e # l) = orderly s l"
  using assms by (cases e; simp)+

lemma internal_life:
  assumes "internal l l'"
  shows "exists_in n l' = exists_in n l" "bound_in n l' = bound_in n l" "orderly s l' = orderly s l"
proof -
  from assms obtain es where "l' = es @ l" "list_all device_call es" by (auto simp: extends_def)
  then have "exists_in n l' = exists_in n l \<and> bound_in n l' = bound_in n l \<and> orderly s l' = orderly s l"
    by (induction es arbitrary: l') (auto simp: lifeless device_call_lifeless)
  then show "exists_in n l' = exists_in n l" "bound_in n l' = bound_in n l" "orderly s l' = orderly s l"
    by simp_all
qed

lemma orderly_ConsD: "orderly s (e # l) \<Longrightarrow> orderly s l"
  by (cases e) simp_all

lemma orderly_extends: "extends P l l' \<Longrightarrow> orderly s l' \<Longrightarrow> orderly s l"
proof -
  have "orderly s (es @ l) \<Longrightarrow> orderly s l" for es
    by (induction es) (auto dest: orderly_ConsD)
  then show "extends P l l' \<Longrightarrow> orderly s l' \<Longrightarrow> orderly s l" by (auto simp: extends_def)
qed

section \<open>The accounts of the core\<close>

lemma account_outside: "account par s f h \<Longrightarrow> core_event e \<or> life_call e \<Longrightarrow> f e = 0"
  by (cases e; elim accountE) simp_all

section \<open>The books of the core\<close>

text \<open>The devices that exist are the ones on the chain, and what they hold together is what the kernel
  has counted since the log was \<open>l0\<close>.\<close>

definition tidy :: "(clk \<Rightarrow> clk) \<Rightarrow> bool \<Rightarrow> klog \<Rightarrow> (string \<Rightarrow> srm_dev option) \<Rightarrow> klog \<Rightarrow> bool" where
  "tidy par s l0 devs l \<longleftrightarrow>
     finite (dom devs) \<and> distinct (registered l) \<and> set (registered l) = dom devs
     \<and> (\<forall>n. exists_in n l \<longleftrightarrow> n \<in> dom devs) \<and> (\<forall>n d. devs n = Some d \<longrightarrow> dv_name d = n)
     \<and> (\<forall>f h. account par s f h \<longrightarrow> total f l = total f l0 + (\<Sum>n\<in>dom devs. h (the (devs n))))"

text \<open>A device that is not bound holds nothing that is switched on.\<close>

definition idle_unbound :: "(clk \<Rightarrow> clk) \<Rightarrow> bool \<Rightarrow> (string \<Rightarrow> srm_dev option) \<Rightarrow> klog \<Rightarrow> bool" where
  "idle_unbound par s devs l \<longleftrightarrow>
     (\<forall>n d. devs n = Some d \<longrightarrow> \<not> bound_in n l \<longrightarrow>
        (\<forall>q. regu_held q d = 0) \<and> (s \<longrightarrow> (\<forall>p. parent_held par p d = 0)))"

lemma sum_dom:
  fixes h :: "'b \<Rightarrow> int"
  assumes "finite (dom m)"
  shows "m n = None \<Longrightarrow> (\<Sum>x\<in>dom (m(n \<mapsto> d')). h (the ((m(n \<mapsto> d')) x))) = (\<Sum>x\<in>dom m. h (the (m x))) + h d'"
    and "m n = Some d \<Longrightarrow> (\<Sum>x\<in>dom (m(n \<mapsto> d')). h (the ((m(n \<mapsto> d')) x))) = (\<Sum>x\<in>dom m. h (the (m x))) - h d + h d'"
    and "m n = Some d \<Longrightarrow> (\<Sum>x\<in>dom (m(n := None)). h (the ((m(n := None)) x))) = (\<Sum>x\<in>dom m. h (the (m x))) - h d"
proof -
  let ?r = "\<Sum>x\<in>dom m - {n}. h (the (m x))"
  have u: "(\<Sum>x\<in>dom m - {n}. h (the ((m(n := y)) x))) = ?r" for y
    by (rule sum.cong) auto
  have s: "(\<Sum>x\<in>dom (m(n \<mapsto> d')). h (the ((m(n \<mapsto> d')) x))) = ?r + h d'"
    using assms u [of "Some d'"] by (simp add: sum.insert_remove)
  show "m n = None \<Longrightarrow> (\<Sum>x\<in>dom (m(n \<mapsto> d')). h (the ((m(n \<mapsto> d')) x))) = (\<Sum>x\<in>dom m. h (the (m x))) + h d'"
    using s by (simp add: domIff)
  have r: "(\<Sum>x\<in>dom m. h (the (m x))) = ?r + h d" if "m n = Some d"
    using sum.remove [OF assms, of n "\<lambda>x. h (the (m x))"] that by (simp add: domI)
  with s show "m n = Some d \<Longrightarrow> (\<Sum>x\<in>dom (m(n \<mapsto> d')). h (the ((m(n \<mapsto> d')) x))) = (\<Sum>x\<in>dom m. h (the (m x))) - h d + h d'"
    by simp
  show "m n = Some d \<Longrightarrow> (\<Sum>x\<in>dom (m(n := None)). h (the ((m(n := None)) x))) = (\<Sum>x\<in>dom m. h (the (m x))) - h d"
    using u [of None] r by simp
qed

text \<open>Calls that no book records.\<close>

fun unbooked :: "kcall \<Rightarrow> bool" where
  "unbooked (KProbe _ _) = False" | "unbooked (KRemove _) = False"
| "unbooked (KSend _ _) = True" | "unbooked (KMatchAdd _) = True" | "unbooked (KWait _) = True"
| "unbooked (KBindAll _) = True" | "unbooked KUnbindAll = True"
| "unbooked e = (core_event e \<or> life_call e)"

lemma unbooked:
  assumes "unbooked e"
  shows "registered (e # l) = registered l" "exists_in n (e # l) = exists_in n l" "account par s f h \<Longrightarrow> f e = 0"
  using assms by (cases e; auto elim: accountE)+

lemma tidy_unbooked: "unbooked e \<Longrightarrow> tidy par s l0 devs l \<Longrightarrow> tidy par s l0 devs (e # l)"
  by (simp add: tidy_def unbooked)

lemma tidy_update:
  assumes t: "tidy par s l0 devs l" and d: "devs n = Some d" and k: "keeps_books par (d, l) (d', l')"
  shows "tidy par s l0 (devs(n \<mapsto> d')) l'"
proof -
  have r: "keeps_refs (d, l) (d', l')" and b: "\<And>f h. account par s f h \<Longrightarrow> total f l' - h d' = total f l - h d"
    using k by (simp_all add: keeps_books_def)
  then have "dv_name d' = dv_name d" "registered l' = registered l" "\<And>m. exists_in m l' = exists_in m l"
    using op_call_totals(4) [of l l'] internal_life(1) [OF keeps_refs_internal [OF r]]
    by (simp_all add: keeps_refs_def handles_def)
  moreover have "total f l' = total f l0 + (\<Sum>x\<in>dom (devs(n \<mapsto> d')). h (the ((devs(n \<mapsto> d')) x)))"
    if a: "account par s f h" for f h
    using b [OF a] t a sum_dom(2) [of devs n d h d'] d unfolding tidy_def by fastforce
  ultimately show ?thesis using t d by (auto simp: tidy_def insert_absorb domI)
qed

lemma tidy_probe:
  assumes t: "tidy par s l0 devs l" and p: "dev_probe k n early l = (Inr (r, dv), l')"
    and new: "\<not> exists_in n l" and add: "\<forall>l. k_component_add k l n = 0"
  shows "tidy par s l0 (devs(n := (if r = 0 then dv else None))) (KProbe n r # l')"
    and "r = 0 \<Longrightarrow> \<exists>d. dv = Some d \<and> fresh_dev n early d"
proof -
  from t new have n: "n \<notin> set (registered l)" "devs n = None" by (auto simp: tidy_def)
  note pr = dev_probe_result [OF n(1) p]
  have i: "internal l l'" using internal_intros(1) [OF dev_probe_acquires [of l k n early]] p by simp
  from pr add have dv: "dv = (if r = 0 then dv else None)" and
    some: "r = 0 \<Longrightarrow> \<exists>d. dv = Some d \<and> fresh_dev n early d"
    by (auto split: option.splits)
  from some show "r = 0 \<Longrightarrow> \<exists>d. dv = Some d \<and> fresh_dev n early d" .
  have tot: "total f (KProbe n r # l') = total f l + (case dv of None \<Rightarrow> 0 | Some d \<Rightarrow> h d)"
    if "account par s f h" for f h
    using dev_probe_books [OF n(1) p that] account_outside [OF that, of "KProbe n r"] by simp
  show "tidy par s l0 (devs(n := (if r = 0 then dv else None))) (KProbe n r # l')"
  proof (cases "r = 0")
    case True
    with some obtain d where d: "dv = Some d" "dv_name d = n" by (auto simp: fresh_dev_def)
    have "total f (KProbe n r # l') = total f l0 + (\<Sum>x\<in>dom (devs(n \<mapsto> d)). h (the ((devs(n \<mapsto> d)) x)))"
      if "account par s f h" for f h
      using tot [OF that] d(1) t that sum_dom(1) [of devs n h d] n(2) unfolding tidy_def by fastforce
    with True t d n pr show ?thesis
      by (auto simp: tidy_def probe_accounts_def internal_life [OF i])
  next
    case False
    with dv have "dv = None" by simp
    with False t n pr tot show ?thesis
      by (auto simp: tidy_def probe_accounts_def internal_life [OF i] fun_upd_idem)
  qed
qed

lemma tidy_remove:
  assumes t: "tidy par s l0 devs l" and i: "idle_unbound par s devs l" and d: "devs n = Some d"
    and rm: "dev_remove k (d, l) = (d', l')"
    and steady: "steady_parents k par" and off: "\<forall>l q. k_regu_disable k l q = 0"
    and del: "k_del_unbinds k l = bound_in n l" and unreg: "\<forall>l. k_nb_unregister k l n = 0"
  shows "tidy par s l0 (devs(n := None)) (KRemove n # l')"
proof -
  from t d have nm: "dv_name d = n" by (simp add: tidy_def)
  have "internal l l'" using dev_remove_internal [of l k d] rm by simp
  note life = internal_life [OF this]
  have "total f (KRemove n # l') = total f l - h d" if "account par s f h" for f h
    using dev_remove_books [OF rm that steady off] i d del account_outside [OF that, of "KRemove n"]
    by (simp add: idle_unbound_def)
  moreover have "total f l = total f l0 + (\<Sum>x\<in>dom devs. h (the (devs x)))" if "account par s f h" for f h
    using t that by (simp add: tidy_def)
  moreover have fin: "finite (dom devs)" using t by (simp add: tidy_def)
  ultimately have a: "total f (KRemove n # l') = total f l0 + (\<Sum>x\<in>dom (devs(n := None)). h (the ((devs(n := None)) x)))"
    if "account par s f h" for f h
    using that sum_dom(3) [OF fin d, of h] by simp
  from rm obtain d1 l1 where u: "(if k_del_unbinds k l then dev_unbind k (d, KCompDel (dv_name d) # l)
      else (d, KCompDel (dv_name d) # l)) = (d1, l1)"
    and e: "err_get (d1, KNbUnregister (dv_name d1) (k_nb_unregister k l1 (dv_name d1)) # l1) = (d', l')"
    by (rule dev_removeE)
  have "dv_name d1 = n \<and> registered l1 = registered l"
    using u nm dev_unbind_keeps [of k d "KCompDel (dv_name d) # l" d1 l1] op_call_totals(4) [of "KCompDel (dv_name d) # l" l1]
    by (auto simp: keeps_refs_def handles_def split: if_splits)
  then have "registered l' = remove1 n (registered l)"
    using err_get_restores(4) [OF e] unreg by simp
  with a t d show ?thesis
    by (auto simp: tidy_def life)
qed

section \<open>The kernel the driver relies on\<close>

text \<open>
  The chain calls the blocks in their order; the parent of a clock stays the same; switching a
  regulator off and leaving the chain do not fail; \<open>component_add\<close> does not fail, see
  \<open>failed_component_add_dangles\<close>; \<open>component_del\<close> unbinds a device exactly if it is bound.
\<close>

definition fair_kernel :: "core_kernel \<Rightarrow> (clk \<Rightarrow> clk) \<Rightarrow> bool" where
  "fair_kernel k par \<longleftrightarrow> chain_law k \<and>
     (\<forall>n. steady_parents (c_dev k n) par \<and> (\<forall>l q. k_regu_disable (c_dev k n) l q = 0)
        \<and> (\<forall>l m. k_nb_unregister (c_dev k n) l m = 0) \<and> (\<forall>l m. k_component_add (c_dev k n) l m = 0)
        \<and> (\<forall>l. k_del_unbinds (c_dev k n) l = bound_in n l))"

text \<open>The invariant of the core; it is kept as long as the callbacks come in order.\<close>

definition in_order :: "(clk \<Rightarrow> clk) \<Rightarrow> bool \<Rightarrow> klog \<Rightarrow> srm_core \<Rightarrow> bool" where
  "in_order par s l0 c \<longleftrightarrow>
     (orderly s (co_log c) \<longrightarrow> tidy par s l0 (co_devs c) (co_log c) \<and> idle_unbound par s (co_devs c) (co_log c))"

lemma in_orderI:
  assumes "in_order par s l0 c" and "orderly s (co_log c') \<Longrightarrow> orderly s (co_log c)"
    and "tidy par s l0 (co_devs c) (co_log c) \<Longrightarrow> idle_unbound par s (co_devs c) (co_log c) \<Longrightarrow>
      orderly s (co_log c') \<Longrightarrow> tidy par s l0 (co_devs c') (co_log c') \<and> idle_unbound par s (co_devs c') (co_log c')"
  shows "in_order par s l0 c'"
  using assms by (auto simp: in_order_def)

lemma on_devE:
  assumes "on_dev n m c = (Inr x, c')"
  obtains d d' l' where "co_devs c n = Some d" "m (d, co_log c) = (Inr x, d', l')"
    "c' = c\<lparr>co_devs := (co_devs c)(n \<mapsto> d'), co_log := l'\<rparr>"
  using assms by (auto simp: on_dev_def split: option.splits prod.splits)

lemma idle_unbound_update:
  assumes "idle_unbound par s devs l" and "\<And>m. m \<noteq> n \<Longrightarrow> bound_in m l' = bound_in m l"
    and "\<not> bound_in n l' \<Longrightarrow> (\<forall>q. regu_held q d' = 0) \<and> (s \<longrightarrow> (\<forall>p. parent_held par p d' = 0))"
  shows "idle_unbound par s (devs(n \<mapsto> d')) l'"
  using assms by (auto simp: idle_unbound_def)

lemma dev_bind_failed_off:
  assumes b: "dev_bind k (d, l) = (r, d', l')" and "r \<noteq> 0" and "regu_held q d = 0"
    and off: "\<forall>l q. k_regu_disable k l q = 0"
  shows "regu_held q d' = 0"
  using b
proof (cases rule: dev_bind_cases)
  case clocks
  then show ?thesis
    using clocks_setup_frame [of k d l r d' l'] clk_frame_held [where d = d and cs = "dv_clks d'" and q = q] assms(3) by simp
next
  case (regus d1 l1)
  then show ?thesis using regus.failed_setup_releases [OF off regus(2) assms(2)] by blast
qed

section \<open>Every callback keeps the books\<close>

lemma probe_call_in_order:
  assumes fair: "fair_kernel k par" shows "keeps (in_order par s l0) (probe_call k n)"
proof (rule keepsI)
  fix c x c' assume i: "in_order par s l0 c" and "probe_call k n c = (Inr x, c')"
  then obtain r dv l' where p: "dev_probe (c_dev k n) n (c_detached k) (co_log c) = (Inr (r, dv), l')"
    and c': "c' = c\<lparr>co_devs := (co_devs c)(n := (if r = 0 then dv else None)), co_log := KProbe n r # l'\<rparr>"
    by (auto simp: probe_call_def split: sum.splits prod.splits)
  have "internal (co_log c) l'"
    using internal_intros(1) [OF dev_probe_acquires [of "co_log c" "c_dev k n" n "c_detached k"]] p by simp
  note life = internal_life [OF this]
  from i show "in_order par s l0 c'"
  proof (rule in_orderI)
    show "orderly s (co_log c') \<Longrightarrow> orderly s (co_log c)" using c' life by simp
    assume t: "tidy par s l0 (co_devs c) (co_log c)" and u: "idle_unbound par s (co_devs c) (co_log c)"
      and o: "orderly s (co_log c')"
    have new: "\<not> exists_in n (co_log c)" using o c' life by simp
    have add: "\<forall>l. k_component_add (c_dev k n) l n = 0" using fair by (simp add: fair_kernel_def)
    note pt = tidy_probe [OF t p new add]
    have "idle_unbound par s ((co_devs c)(n := (if r = 0 then dv else None))) (KProbe n r # l')"
    proof (cases "r = 0")
      case True
      with pt(2) obtain d where d: "dv = Some d" "fresh_dev n (c_detached k) d" by blast
      have "idle_unbound par s ((co_devs c)(n \<mapsto> d)) (KProbe n r # l')"
        by (rule idle_unbound_update [OF u]) (simp_all add: life fresh_holds_nothing [OF d(2)])
      with True d show ?thesis by simp
    next
      case False
      with u show ?thesis by (auto simp: idle_unbound_def life)
    qed
    with pt(1) c' show "tidy par s l0 (co_devs c') (co_log c') \<and> idle_unbound par s (co_devs c') (co_log c')"
      by simp
  qed
qed

lemma remove_call_in_order:
  assumes fair: "fair_kernel k par" shows "keeps (in_order par s l0) (remove_call k n)"
proof (rule keepsI)
  fix c x c' assume i: "in_order par s l0 c" and "remove_call k n c = (Inr x, c')"
  then obtain d d' l' where d: "co_devs c n = Some d" and rm: "dev_remove (c_dev k n) (d, co_log c) = (d', l')"
    and c': "c' = c\<lparr>co_devs := (co_devs c)(n := None), co_log := KRemove n # l'\<rparr>"
    by (auto simp: remove_call_def bindE_result core_put_def log_call_def elim!: on_devE)
  have "internal (co_log c) l'" using dev_remove_internal [of "co_log c" "c_dev k n" d] rm by simp
  note life = internal_life [OF this]
  from i show "in_order par s l0 c'"
  proof (rule in_orderI)
    show "orderly s (co_log c') \<Longrightarrow> orderly s (co_log c)" using c' life by simp
    assume t: "tidy par s l0 (co_devs c) (co_log c)" and u: "idle_unbound par s (co_devs c) (co_log c)"
    have "idle_unbound par s ((co_devs c)(n := None)) (KRemove n # l')"
      using u by (auto simp: idle_unbound_def life)
    with tidy_remove [OF t u d rm] fair c'
    show "tidy par s l0 (co_devs c') (co_log c') \<and> idle_unbound par s (co_devs c') (co_log c')"
      by (simp add: fair_kernel_def)
  qed
qed

text \<open>Binding and unbinding: an operation that keeps the books, and the call it is logged as.\<close>

lemma device_op_in_order:
  assumes i: "in_order par s l0 c" and d: "co_devs c n = Some d"
    and k: "keeps_books par (d, co_log c) (d', l')"
    and e: "unbooked e" "\<And>m. m \<noteq> n \<Longrightarrow> bound_in m (e # l') = bound_in m l'"
    and idle: "orderly s (e # l') \<Longrightarrow> \<not> bound_in n (e # l') \<Longrightarrow>
      (\<not> bound_in n (co_log c) \<Longrightarrow> (\<forall>q. regu_held q d = 0)) \<Longrightarrow>
      (\<forall>q. regu_held q d' = 0) \<and> (s \<longrightarrow> (\<forall>p. parent_held par p d' = 0))"
  shows "in_order par s l0 (c\<lparr>co_devs := (co_devs c)(n \<mapsto> d'), co_log := e # l'\<rparr>)"
  using i
proof (rule in_orderI)
  have "internal (co_log c) l'" using k keeps_refs_internal by (fastforce simp: keeps_books_def)
  note life = internal_life [OF this]
  let ?c = "c\<lparr>co_devs := (co_devs c)(n \<mapsto> d'), co_log := e # l'\<rparr>"
  show "orderly s (co_log ?c) \<Longrightarrow> orderly s (co_log c)" using life by (auto dest: orderly_ConsD)
  assume t: "tidy par s l0 (co_devs c) (co_log c)" and u: "idle_unbound par s (co_devs c) (co_log c)"
    and o: "orderly s (co_log ?c)"
  have "idle_unbound par s ((co_devs c)(n \<mapsto> d')) (e # l')"
    by (rule idle_unbound_update [OF u]) (use e(2) life u d o idle in \<open>auto simp: idle_unbound_def\<close>)
  with tidy_unbooked [OF e(1) tidy_update [OF t d k]]
  show "tidy par s l0 (co_devs ?c) (co_log ?c) \<and> idle_unbound par s (co_devs ?c) (co_log ?c)" by simp
qed

lemma bind_call_in_order:
  assumes fair: "fair_kernel k par" shows "keeps (in_order par s l0) (bind_call k n)"
proof (rule keepsI)
  have off: "\<forall>l q. k_regu_disable (c_dev k n) l q = 0" and st: "steady_parents (c_dev k n) par"
    using fair by (simp_all add: fair_kernel_def)
  fix c x c' assume i: "in_order par s l0 c" and "bind_call k n c = (Inr x, c')"
  then obtain d r d' l' where d: "co_devs c n = Some d" and b: "dev_bind (c_dev k n) (d, co_log c) = (r, d', l')"
    and c': "c' = c\<lparr>co_devs := (co_devs c)(n \<mapsto> d'), co_log := KDevBind n r # l'\<rparr>"
    by (auto simp: bind_call_def bindE_result log_call_def split: prod.splits elim!: on_devE)
  note kb = dev_ops_keep_books(1) [OF st b]
  have "internal (co_log c) l'" using kb keeps_refs_internal by (fastforce simp: keeps_books_def)
  note life = internal_life [OF this]
  show "in_order par s l0 c'"
    unfolding c'
  proof (rule device_op_in_order [OF i d kb])
    assume o: "orderly s (KDevBind n r # l')" and f: "\<not> bound_in n (KDevBind n r # l')"
      and z: "\<not> bound_in n (co_log c) \<Longrightarrow> \<forall>q. regu_held q d = 0"
    from o f have "\<not> bound_in n (co_log c)" "r \<noteq> 0" "\<not> s" by (simp_all add: life)
    with dev_bind_failed_off [OF b _ _ off] z
    show "(\<forall>q. regu_held q d' = 0) \<and> (s \<longrightarrow> (\<forall>p. parent_held par p d' = 0))" by blast
  qed simp_all
qed

lemma unbind_call_in_order:
  assumes fair: "fair_kernel k par" shows "keeps (in_order par s l0) (unbind_call k n)"
proof (rule keepsI)
  have off: "\<forall>l q. k_regu_disable (c_dev k n) l q = 0" and st: "steady_parents (c_dev k n) par"
    using fair by (simp_all add: fair_kernel_def)
  fix c x c' assume i: "in_order par s l0 c" and "unbind_call k n c = (Inr x, c')"
  then obtain d d' l' where d: "co_devs c n = Some d" and b: "dev_unbind (c_dev k n) (d, co_log c) = (d', l')"
    and c': "c' = c\<lparr>co_devs := (co_devs c)(n \<mapsto> d'), co_log := KDevUnbind n # l'\<rparr>"
    by (auto simp: unbind_call_def bindE_result log_call_def elim!: on_devE)
  show "in_order par s l0 c'"
    unfolding c'
    by (rule device_op_in_order [OF i d dev_ops_keep_books(2) [OF st b]])
       (simp_all add: dev_unbind_props(3) [OF b] dev_unbind_props(4) [OF b off])
qed

lemma do_dev_call_in_order: "fair_kernel k par \<Longrightarrow> keeps (in_order par s l0) (do_dev_call k x)"
  by (cases x) (simp_all add: probe_call_in_order remove_call_in_order bind_call_in_order unbind_call_in_order)

text \<open>What only reads the core, changes its flags or logs a call of the core itself.\<close>

lemma in_order_basic [keeps_intros]:
  "keeps (in_order par s l0) (core_get f)"
  "(\<And>c. co_log (g c) = co_log c \<and> co_devs (g c) = co_devs c) \<Longrightarrow> keeps (in_order par s l0) (core_put g)"
  by (auto simp: keeps_def core_get_def core_put_def in_order_def)

lemma in_order_log [keeps_intros]:
  assumes "unbooked e" "\<not> life_call e" shows "keeps (in_order par s l0) (log_call e)"
  using assms tidy_unbooked [OF assms(1)]
  by (auto simp: keeps_def log_call_def in_order_def lifeless idle_unbound_def)

lemma dev_calls_in_order [keeps_intros]: "fair_kernel k par \<Longrightarrow> keeps (in_order par s l0) (dev_calls k f)"
  unfolding dev_calls_def by (intro keeps_intros do_dev_call_in_order)

lemma do_core_call_in_order: "fair_kernel k par \<Longrightarrow> keeps (in_order par s l0) (do_core_call k x)"
  by (cases x) (auto simp: core_bind_def core_unbind_def do_dev_call_in_order intro!: keeps_intros)

lemma core_calls_in_order [keeps_intros]: "fair_kernel k par \<Longrightarrow> keeps (in_order par s l0) (core_calls k f)"
  unfolding core_calls_def by (intro keeps_intros do_core_call_in_order)

lemma kernel_calls_in_order [keeps_intros]:
  assumes "fair_kernel k par"
  shows "keeps (in_order par s l0) (of_platform_populate k)" "keeps (in_order par s l0) (of_platform_depopulate k)"
    "keeps (in_order par s l0) (master_add k)" "keeps (in_order par s l0) (master_del k)"
    "keeps (in_order par s l0) (register_driver k)"
  using assms
  by (auto simp: of_platform_populate_def of_platform_depopulate_def master_add_def master_del_def
      register_driver_def intro!: keeps_intros)

lemma keeps_unless: "keeps Q m \<Longrightarrow> keeps Q (\<lambda>c. if P c then (Inr (), c) else m c)"
  by (auto simp: keeps_def split: if_splits)

lemma wait_bound_in_order [keeps_intros]: "fair_kernel k par \<Longrightarrow> keeps (in_order par s l0) (wait_bound k)"
  unfolding wait_bound_def by (intro keeps_intros keeps_unless) simp_all

lemma add_matches_in_order [keeps_intros]: "keeps (in_order par s l0) (add_matches k chs m)"
  by (induction chs arbitrary: m) (auto intro!: keeps_intros)

lemma core_prepare_in_order: "fair_kernel k par \<Longrightarrow> keeps (in_order par s l0) (core_prepare k)"
  unfolding core_prepare_def prepare_bound_def prepare_master_def prepare_depopulate_def prepare_done_def
  by (auto intro!: keeps_intros split: comp_match.split)

lemma core_unprepare_in_order: "fair_kernel k par \<Longrightarrow> keeps (in_order par s l0) (core_unprepare k)"
  unfolding core_unprepare_def by (auto intro!: keeps_intros)

section \<open>Serving messages\<close>

text \<open>The messages that arrive one after the other, each with its receive buffer and its length.\<close>

fun serve :: "core_kernel \<Rightarrow> (byte list \<times> nat) list \<Rightarrow> (srm_core, unit) op" where
  "serve k [] = ret ()"
| "serve k ((mem, len) # ms) = bindE (rpmsg_srm_cb k mem len) (\<lambda>_. serve k ms)"

definition all_bound :: "srm_core \<Rightarrow> bool" where
  "all_bound c \<longleftrightarrow> (\<forall>n\<in>dom (co_devs c). bound_in n (co_log c))"

text \<open>While all devices are bound, messages keep the books, and all devices stay bound.\<close>

definition in_service :: "(clk \<Rightarrow> clk) \<Rightarrow> bool \<Rightarrow> klog \<Rightarrow> srm_core \<Rightarrow> bool" where
  "in_service par s l0 c \<longleftrightarrow> all_bound c \<and> (orderly s (co_log c) \<longrightarrow> tidy par s l0 (co_devs c) (co_log c))"

lemma in_order_service:
  "all_bound c \<Longrightarrow> in_order par s l0 c \<longleftrightarrow> in_service par s l0 c"
  by (auto simp: in_order_def in_service_def all_bound_def idle_unbound_def)

lemma notifier_in_service: "keeps (in_service par s l0) (notifier k mem n)"
proof (rule keepsI)
  fix c x c' assume i: "in_service par s l0 c" and "notifier k mem n c = (Inr x, c')"
  then obtain d d' l' where d: "co_devs c n = Some d" and b: "notify_cb (c_dev k n) mem (d, co_log c) = (Inr x, d', l')"
    and c': "c' = c\<lparr>co_devs := (co_devs c)(n \<mapsto> d'), co_log := l'\<rparr>"
    by (auto simp: notifier_def elim!: on_devE)
  note kb = dev_ops_keep_books(3) [OF b]
  have "internal (co_log c) l'" using kb [of par] keeps_refs_internal by (fastforce simp: keeps_books_def)
  note life = internal_life [OF this]
  have "tidy par s l0 (co_devs c') (co_log c')" if "tidy par s l0 (co_devs c) (co_log c)"
    using tidy_update [OF that d kb] c' by simp
  with i d c' life show "in_service par s l0 c'"
    by (auto simp: in_service_def all_bound_def)
qed

lemma ref_chain_keeps: "(\<And>n. keeps Q (f n)) \<Longrightarrow> keeps Q (ref_chain f ns)"
  by (induction ns) (auto intro!: keeps_intros)

lemma core_send_in_service [keeps_intros]: "keeps (in_service par s l0) (core_send k m)"
proof (rule keepsI)
  fix c x c' assume i: "in_service par s l0 c" and "core_send k m c = (Inr x, c')"
  then obtain b r where "c' = c\<lparr>co_log := KSend b r # co_log c\<rparr>"
    by (auto simp: core_send_def rpmsg_srm_send_def Let_def)
  with i show "in_service par s l0 c'"
    using tidy_unbooked [of "KSend b r" par s l0 "co_devs c" "co_log c"] by (auto simp: in_service_def all_bound_def)
qed

lemma serve_in_service: "chain_law k \<Longrightarrow> keeps (in_service par s l0) (serve k ms)"
proof (induction ms)
  case (Cons x ms)
  have "c_call_chain k f = (\<lambda>c. ref_chain f (registered (co_log c)) c)" for f
    using Cons.prems by (auto simp: chain_law_def)
  moreover have "keeps (in_service par s l0) (\<lambda>c. ref_chain (notifier k mem) (registered (co_log c)) c)" for mem
    using ref_chain_keeps [where f = "notifier k mem", OF notifier_in_service] unfolding keeps_def by blast
  ultimately have "keeps (in_service par s l0) (rpmsg_srm_cb k mem len)" for mem len
    by (auto simp: rpmsg_srm_cb_def intro!: keeps_intros split: option.split)
  with Cons show ?case by (cases x) (auto intro!: keeps_intros)
qed (simp add: keeps_intros)

section \<open>A session\<close>

text \<open>A log that was out of order stays so.\<close>

lemma orderly_quiet: "grows core_quiet m \<Longrightarrow> keeps (\<lambda>c. \<not> orderly s (co_log c)) m"
  by (rule keepsI) (auto simp: core_quiet_def dest!: growsD dest: orderly_extends)

lemma disorder_log: "keeps (\<lambda>c. \<not> orderly s (co_log c)) (log_call e)"
  by (auto simp: keeps_def log_call_def dest: orderly_ConsD)

lemma core_unprepare_disorder: "keeps (\<lambda>c. \<not> orderly s (co_log c)) (core_unprepare k)"
proof -
  have put: "keeps (\<lambda>c. \<not> orderly s (co_log c)) (core_put (\<lambda>c. c\<lparr>co_prepared := co_prepared c - 1\<rparr>))"
    by (simp add: keeps_def core_put_def)
  note q = orderly_quiet [OF grows_quiet_intros(2)] orderly_quiet [OF dev_calls_quiet] orderly_quiet [OF core_calls_quiet]
  show ?thesis
    unfolding core_unprepare_def master_del_def of_platform_depopulate_def
    by (intro keeps_intros q disorder_log put)
qed

text \<open>Before the first session, and after a balanced one, no device exists.\<close>

definition idle_core :: "srm_core \<Rightarrow> bool" where
  "idle_core c \<longleftrightarrow> co_devs c = Map.empty \<and> registered (co_log c) = [] \<and> (\<forall>n. \<not> exists_in n (co_log c))"

lemma idle_core_in_order: "idle_core c \<Longrightarrow> in_order par s (co_log c) c"
  by (simp add: idle_core_def in_order_def tidy_def idle_unbound_def)

text \<open>C12. A session of the coprocessor leaves nothing behind, whatever its messages ask for. While the
  messages are served the chain of notifiers holds exactly the devices that exist, and for every
  clock, regulator and interrupt the references and enable counts of the kernel are those from
  before plus what the devices hold together. After it has been unprepared and the devices are gone,
  every count is as it was before it was prepared, and the core is ready for another session. The
  counts of the parent clocks need that no bind has failed (\<open>s\<close>); the driver core and the component
  framework must make their callbacks in order, and bind all devices before the messages come.
\<close>
theorem session_balanced:
  assumes fair: "fair_kernel k par" and start: "idle_core c"
    and prep: "core_prepare k c = (Inr r, c1)" and bound: "all_bound c1"
    and msgs: "serve k ms c1 = (Inr (), c2)" and unprep: "core_unprepare k c2 = (Inr (), c3)"
    and ord: "orderly s (co_log c3)"
  shows "set (registered (co_log c2)) = dom (co_devs c2)
     \<and> (\<forall>f h. account par s f h \<longrightarrow>
          total f (co_log c2) = total f (co_log c) + (\<Sum>n\<in>dom (co_devs c2). h (the (co_devs c2 n))))
     \<and> (co_devs c3 = Map.empty \<longrightarrow> idle_core c3
          \<and> (\<forall>f h. account par s f h \<longrightarrow> total f (co_log c3) = total f (co_log c)))"
proof -
  have "in_order par s (co_log c) c1"
    by (rule keepsD [OF core_prepare_in_order [OF fair] idle_core_in_order [OF start] prep])
  then have "in_service par s (co_log c) c1" using in_order_service [OF bound] by blast
  then have 2: "in_service par s (co_log c) c2"
    using fair by (intro keepsD [OF serve_in_service _ msgs]) (simp add: fair_kernel_def)
  then have "in_order par s (co_log c) c2" using in_order_service [of c2] by (simp add: in_service_def)
  from keepsD [OF core_unprepare_in_order [OF fair] this unprep] ord
  have 3: "tidy par s (co_log c) (co_devs c3) (co_log c3)" by (simp add: in_order_def)
  have "orderly s (co_log c2)" using keepsD [OF core_unprepare_disorder _ unprep] ord by blast
  with 2 have "tidy par s (co_log c) (co_devs c2) (co_log c2)" by (simp add: in_service_def)
  with 3 show ?thesis by (auto simp: tidy_def idle_core_def)
qed

definition demo_fair :: core_kernel where
  "demo_fair = demo_core\<lparr>c_dev := \<lambda>n. demo_kernel\<lparr>k_del_unbinds := bound_in n\<rparr>\<rparr>"

lemma demo_fair_kernel: "fair_kernel demo_fair (\<lambda>c. c + 1)"
  by (simp add: fair_kernel_def demo_fair_def demo_core_def chain_law_def steady_parents_def demo_kernel_def)

lemma demo_fair_dev:
  "c_dev demo_fair n = demo_kernel\<lparr>k_del_unbinds := bound_in n\<rparr>"
  "dev_probe (demo_kernel\<lparr>k_del_unbinds := g\<rparr>) ''srm@1'' False [] = (Inr (0, Some demo_dev), demo_log)"
  "dev_bind (demo_kernel\<lparr>k_del_unbinds := g\<rparr>) (demo_dev, l) = (0, demo_bound, KReguEnable 4 0 # KClkEnable 8 0 # l)"
proof -
  show "c_dev demo_fair n = demo_kernel\<lparr>k_del_unbinds := bound_in n\<rparr>" by (simp add: demo_fair_def)
  show "dev_probe (demo_kernel\<lparr>k_del_unbinds := g\<rparr>) ''srm@1'' False [] = (Inr (0, Some demo_dev), demo_log)"
    unfolding demo_log_def
    by (simp add: dev_probe_def demo_kernel_def clocks_get_def regus_get_def irqs_get_def Let_def kstrdup_def
      register_notifier_def demo_dev_def)
  show "dev_bind (demo_kernel\<lparr>k_del_unbinds := g\<rparr>) (demo_dev, l) = (0, demo_bound, KReguEnable 4 0 # KClkEnable 8 0 # l)"
    by (simp add: dev_bind_def clocks_setup_def regus_setup_def demo_kernel_def demo_dev_def demo_bound_def Let_def)
qed

lemma demo_log_life [simp]:
  "registered demo_log = [''srm@1'']" "bound_in n demo_log = False" "exists_in n demo_log = False" "orderly s demo_log"
proof -
  have "acquires [] demo_log" using dev_probe_acquires [of "[]" demo_kernel] by (simp add: demo_log_def)
  note life = internal_life [OF internal_intros(1) [OF this]]
  show "registered demo_log = [''srm@1'']"
    using dev_probe_result [OF _ demo_probe] by (simp add: probe_accounts_def)
  show "bound_in n demo_log = False" "exists_in n demo_log = False" "orderly s demo_log" by (simp_all add: life)
qed

definition demo_ready :: srm_core where
  "demo_ready = \<lparr>co_all_bound = True, co_bind_status = 0, co_prepared = 1, co_devs = [''srm@1'' \<mapsto> demo_bound],
     co_log = [KDriverRegister 0, KWait True, KMasterAdd 0, KBindAll 0, KDevBind ''srm@1'' 0, KReguEnable 4 0,
               KClkEnable 8 0, KMatchAdd 1, KPopulate 0, KProbe ''srm@1'' 0] @ demo_log\<rparr>"

lemma demo_fair_prepare: "core_prepare demo_fair demo_core_empty = (Inr 0, demo_ready)"
proof -
  have d: "c_dev demo_fair = (\<lambda>n. demo_kernel\<lparr>k_del_unbinds := bound_in n\<rparr>)" by (simp add: demo_fair_def)
  have k: "c_detached demo_fair = False" "c_children demo_fair = [1]" "c_match_add demo_fair = (\<lambda>_. True)"
    "c_populate_calls demo_fair = (\<lambda>_. [CProbe ''srm@1''])" "c_populate demo_fair = (\<lambda>_. 0)"
    "c_bind_calls demo_fair = (\<lambda>_. [CBind ''srm@1''])" "c_bind_all demo_fair = (\<lambda>_. 0)"
    "c_master_add_calls demo_fair = (\<lambda>_. [CCoreBind])" "c_master_add demo_fair = (\<lambda>_. 0)"
    "c_driver_register demo_fair = (\<lambda>_. 0)"
    by (simp_all add: demo_fair_def demo_core_def)
  show ?thesis
    unfolding core_prepare_def of_platform_populate_def dev_calls_def master_add_def core_calls_def core_bind_def
      prepare_bound_def wait_bound_def register_driver_def prepare_done_def
    by (simp add: d k bindE_def core_put_def core_get_def log_call_def probe_call_def bind_call_def on_dev_def
        demo_fair_dev core_bind_def dev_calls_def demo_core_empty_def demo_ready_def)
qed

lemma demo_fair_serve:
  "\<exists>d' l'. serve demo_fair [(msg_bytes demo_set_rate, 76)] demo_ready =
     (Inr (), demo_ready\<lparr>co_devs := [''srm@1'' \<mapsto> d'], co_log := l'\<rparr>) \<and> internal (co_log demo_ready) l'"
proof -
  have l: "length (put_clock_cfg \<lparr>cc_index = 0, cc_name = replicate 16 0, cc_rate = 9\<rparr> (replicate 36 0)) = 36"
    by (simp add: put_clock_cfg_def sizeof_clock_cfg_def)
  have i: "msg_of_memory (msg_bytes demo_set_rate) = Some demo_set_rate" "addressed demo_dev (msg_bytes demo_set_rate)"
    unfolding demo_set_rate_def using demo_request_read [OF l] by blast+
  then have e: "read_c_str (string_of_bytes (drop 4 (msg_bytes demo_set_rate))) \<noteq> None"
    and a: "addressed demo_bound (msg_bytes demo_set_rate)"
    by (auto simp: addressed_def demo_bound_def split: option.splits)
  have ix: "selects demo_set_rate"
    by (simp add: selects_def demo_set_rate_def demo_request_def put_clock_cfg_def U32_MAX_def)
  have d: "co_devs demo_ready ''srm@1'' = Some demo_bound" "named demo_bound"
    by (simp_all add: demo_ready_def named_def demo_bound_def NUL_def)
  from notifier_total [OF i(1) e ix d, of demo_fair] a obtain x c' where
    "notifier demo_fair (msg_bytes demo_set_rate) ''srm@1'' demo_ready = (Inr x, c')" "notify_stops x"
    "serves demo_fair (msg_bytes demo_set_rate) demo_set_rate ''srm@1'' demo_ready c'"
    by auto
  then obtain x m y d' l1 where
    n: "notifier demo_fair (msg_bytes demo_set_rate) ''srm@1'' demo_ready =
      (Inr x, demo_ready\<lparr>co_devs := (co_devs demo_ready)(''srm@1'' \<mapsto> d'), co_log := KSend (msg_bytes m) y # l1\<rparr>)"
      "notify_stops x" and f: "request_frame (demo_bound, co_log demo_ready) (d', l1)"
    using d(1) by (auto simp: serves_def replied_def)
  have "c_call_chain demo_fair f c = ref_chain f (registered (co_log c)) c" for f c
    by (simp add: demo_fair_def demo_core_def)
  then have "rpmsg_srm_cb demo_fair (msg_bytes demo_set_rate) 76 demo_ready =
      (Inr 0, demo_ready\<lparr>co_devs := (co_devs demo_ready)(''srm@1'' \<mapsto> d'), co_log := KSend (msg_bytes m) y # l1\<rparr>)"
    using n by (simp add: rpmsg_srm_cb_def bindE_def demo_ready_def)
  moreover from f have "extends op_call (co_log demo_ready) (KSend (msg_bytes m) y # l1)"
    by (intro extends_Cons) (auto simp: request_frame_def intro: extends_mono op_call_intros)
  ultimately show ?thesis
    by (intro exI [of _ d'] exI [of _ "KSend (msg_bytes m) y # l1"]) (simp add: demo_ready_def internal_intros)
qed

lemma demo_fair_unprepare:
  "\<exists>l2 l3. core_unprepare demo_fair (demo_ready\<lparr>co_devs := [''srm@1'' \<mapsto> d], co_log := l\<rparr>) =
     (Inr (), demo_ready\<lparr>co_prepared := 0, co_devs := Map.empty, co_log := KDepopulate # KRemove ''srm@1'' # l3\<rparr>)
     \<and> internal (KDriverUnregister # l) l2 \<and> internal (KMasterDel # KUnbindAll # KDevUnbind ''srm@1'' # l2) l3"
proof -
  let ?k = "demo_kernel\<lparr>k_del_unbinds := bound_in ''srm@1''\<rparr>"
  obtain d2 l2 where u: "dev_unbind ?k (d, KDriverUnregister # l) = (d2, l2)" by fastforce
  let ?l2 = "KMasterDel # KUnbindAll # KDevUnbind ''srm@1'' # l2"
  obtain d3 l3 where r: "dev_remove ?k (d2, ?l2) = (d3, l3)" by fastforce
  have d: "c_dev demo_fair = (\<lambda>n. demo_kernel\<lparr>k_del_unbinds := bound_in n\<rparr>)" by (simp add: demo_fair_def)
  have k: "c_master_del_calls demo_fair = (\<lambda>_. [CCoreUnbind])" "c_unbind_calls demo_fair = (\<lambda>_. [CUnbind ''srm@1''])"
    "c_depopulate_calls demo_fair = (\<lambda>_. [CRemove ''srm@1''])"
    by (simp_all add: demo_fair_def demo_core_def)
  have "core_unprepare demo_fair (demo_ready\<lparr>co_devs := [''srm@1'' \<mapsto> d], co_log := l\<rparr>) =
     (Inr (), demo_ready\<lparr>co_prepared := 0, co_devs := Map.empty, co_log := KDepopulate # KRemove ''srm@1'' # l3\<rparr>)"
    unfolding core_unprepare_def master_del_def of_platform_depopulate_def core_calls_def dev_calls_def
    by (simp add: d k bindE_def core_put_def core_get_def log_call_def unbind_call_def remove_call_def on_dev_def
        core_unbind_def dev_calls_def demo_ready_def u r)
  moreover have "internal (KDriverUnregister # l) l2" using dev_unbind_internal [of _ ?k d] u by (metis snd_conv)
  moreover have "internal ?l2 l3" using dev_remove_internal [of ?l2 ?k d2] r by simp
  ultimately show ?thesis by blast
qed

theorem session_balanced_witness:
  "\<exists>c1 c2 c3. core_prepare demo_fair demo_core_empty = (Inr 0, c1)
     \<and> serve demo_fair [(msg_bytes demo_set_rate, 76)] c1 = (Inr (), c2)
     \<and> core_unprepare demo_fair c2 = (Inr (), c3)
     \<and> total (regu_on 4) (co_log c1) = 1 \<and> idle_core c3
     \<and> total (regu_on 4) (co_log c3) = 0 \<and> total (parent_on 8) (co_log c3) = 0 \<and> total (clk_ref 7) (co_log c3) = 0"
proof -
  have start: "idle_core demo_core_empty" by (simp add: idle_core_def demo_core_empty_def)
  have bound: "all_bound demo_ready" by (simp add: all_bound_def demo_ready_def)
  obtain d l where s: "serve demo_fair [(msg_bytes demo_set_rate, 76)] demo_ready =
      (Inr (), demo_ready\<lparr>co_devs := [''srm@1'' \<mapsto> d], co_log := l\<rparr>)" and i: "internal (co_log demo_ready) l"
    using demo_fair_serve by blast
  obtain l2 l3 where u: "core_unprepare demo_fair (demo_ready\<lparr>co_devs := [''srm@1'' \<mapsto> d], co_log := l\<rparr>) =
     (Inr (), demo_ready\<lparr>co_prepared := 0, co_devs := Map.empty, co_log := KDepopulate # KRemove ''srm@1'' # l3\<rparr>)"
    and j: "internal (KDriverUnregister # l) l2" "internal (KMasterDel # KUnbindAll # KDevUnbind ''srm@1'' # l2) l3"
    using demo_fair_unprepare by blast
  let ?c3 = "demo_ready\<lparr>co_prepared := 0, co_devs := Map.empty, co_log := KDepopulate # KRemove ''srm@1'' # l3\<rparr>"
  have "orderly True (co_log demo_ready)" by (simp add: demo_ready_def)
  then have "orderly True (co_log ?c3)"
    by (simp add: internal_life(3) [OF j(2)] internal_life(3) [OF j(1)] internal_life(3) [OF i])
  note t = session_balanced [OF demo_fair_kernel start demo_fair_prepare bound s u this]
  have "co_devs ?c3 = Map.empty" by simp
  with t have c3: "idle_core ?c3"
    and z: "account (\<lambda>c. c + 1) True f h \<Longrightarrow> total f (co_log ?c3) = total f (co_log demo_core_empty)" for f h
    by blast+
  have "total (regu_on 4) (co_log demo_ready) = 1"
    using acquires_power [of "[]" demo_log] dev_probe_acquires [of "[]" demo_kernel]
    by (simp add: demo_ready_def demo_log_def)
  moreover have "total (regu_on 4) (co_log ?c3) = 0" "total (parent_on 8) (co_log ?c3) = 0" "total (clk_ref 7) (co_log ?c3) = 0"
    using z [OF account_power] z [OF account_parent [OF TrueI]] z [OF account_clk] by (simp_all add: demo_core_empty_def)
  ultimately show ?thesis
    using demo_fair_prepare s u c3
    by (intro exI [of _ demo_ready] exI [of _ "demo_ready\<lparr>co_devs := [''srm@1'' \<mapsto> d], co_log := l\<rparr>"] exI [of _ ?c3]) simp
qed

end
