(* ===== verification/Spec2Isabelle.thy ===== *)
theory Spec2Isabelle
  imports Rpc_Types Cbor_Codec DataStore_Correct RpcServer_Correct EndToEnd_Correct Config_Correct
    Daemon_Correct Util_Correct Pl_Client_Correct Pl_EventLoop Srm_Session
begin

text \<open>
  A model of the programs of \<open>meta-sativa-base\<close>, the base layer of an embedded Linux distribution, and
  the theorems that make them correct. The layer holds three pieces of code of its own:

  \<^item> \<^bold>\<open>confd\<close> (\<open>recipes-custom/sativa-confd/files\<close>), the configuration service: a daemon that keeps typed
    values under string keys in an SQLite database and serves them on a local socket, a C library
    for its clients, and a command line utility;
  \<^item> \<^bold>\<open>pl-common\<close> (\<open>recipes-pl/pl-common/files\<close>), the shared library of the payload programs: an event
    loop and the base class of their RPC clients, which speak the same wire format;
  \<^item> the \<^bold>\<open>system resource manager\<close> (\<open>recipes-kernel/.../drivers/remoteproc/rproc_srm_*\<close>), a kernel
    driver that reserves clocks, regulators and interrupts for a coprocessor and changes them on the
    coprocessor's request.

  A program calls the library (\<open>Libconfd\<close>), which sends a packet over its connection (\<open>RpcConnection\<close>);
  the daemon's main loop (\<open>Daemon\<close>) hands the packet to the server (\<open>RpcServer\<close>), which decodes it with
  libcbor (\<open>Cbor\<close>), calls the data store (\<open>DataStore\<close>), and sends the reply. \<open>EndToEnd\<close> connects the model
  of the library with the model of the server, so that properties can be stated on what a program
  observes.
\<close>

text \<open>
  \<^bold>\<open>How the code is represented.\<close> A C++ call is an operation \<open>('s, 'a) op\<close>: it takes the state and
  returns its value or what it throws, together with the state it leaves. Undefined behaviour (a null
  pointer followed, a buffer read past its end without a bound) is the outcome \<open>Undefined\<close>, and a wait
  for something that never comes is \<open>Blocks\<close>; a signal that ends the process, such as the \<open>SIGPIPE\<close> of a
  write to a closed socket, is \<open>Killed\<close>. None of them is caught by any handler. Integers keep their
  width, the target is the 32-bit machine of \<open>conf/machine\<close>. Objects are records with the fields of the
  class, pointers into the C++ heap that matter are addresses (\<open>bev\<close>, file descriptors). What is not in
  the repository is a parameter: SQLite (\<open>sql_env\<close>: which statements fail, the clock), libcbor
  (\<open>cbor_lib\<close>, with the contract \<open>cbor_codec\<close> and a reference codec that satisfies it), the sockets
  (\<open>sys_io\<close>, \<open>sock_env\<close>, \<open>accept_env\<close>), libevent (\<open>loop_env\<close> and a list of events in the order they are
  dispatched), toml++ and the file system (\<open>cfg_env\<close>), and for the driver the kernel (\<open>srm_kernel\<close>,
  \<open>core_kernel\<close>, whose every answer may depend on the log of all calls made so far).

  \<^bold>\<open>Prelude.\<close> \<open>Confd_Prelude\<close>: outcomes, operations, C strings, decimal numbers, and the collections
  \<open>op_simps\<close>, \<open>op_intros\<close>, \<open>keeps_intros\<close> and \<open>untouched_intros\<close> for the properties of operations
  (\<open>reads_only\<close>, \<open>atomic_op\<close>, \<open>std_op\<close>, \<open>grows\<close>, \<open>fails_in\<close>, \<open>keeps\<close>, \<open>untouched\<close>). \<open>Confd_Types\<close>: the values, and the locale
  \<open>config_store\<close>, the contract between the server and the store.

  \<^bold>\<open>Wire format.\<close> \<open>Rpc_Types\<close> (\<open>rpc/types.h\<close>, \<open>load-common/Rpc/Types.h\<close>): the eight-byte header and its
  16-bit length. \<open>Cbor\<close> and \<open>Cbor_Codec\<close>: items, the accessors of libcbor with their preconditions, the
  locale \<open>cbor_codec\<close>, and an encoding of RFC 8949 that interprets it.

  \<^bold>\<open>Data store.\<close> \<open>DataStore\<close> (\<open>daemon/DataStore.cpp\<close>): every SQL statement as an operation on tables,
  every public operation on top. \<open>DataStore_Spec\<close>: the invariant of the tables, the abstract content
  \<open>store_view\<close>, and the interpretation of \<open>config_store\<close> for an arbitrary engine; \<open>DataStore_Run\<close>: what
  each branch returns on an engine without faults; \<open>DataStore_Correct\<close>: refinement of the abstract map,
  round trip, all or nothing, the invariant over any sequence of calls, reopening.

  \<^bold>\<open>Server.\<close> \<open>RpcServer\<close> (\<open>daemon/RpcServer.cpp\<close>): clients, decoding, query and update handlers, replies,
  callbacks. \<open>RpcServer_Spec\<close> and \<open>RpcServer_Run\<close>: the outcome of every kind of request, what a request
  can touch, the transition relation of the loop; the locale \<open>config_server\<close> joins a store and a
  codec. \<open>RpcServer_Correct\<close> interprets it with the data store: requests are answered and stored, bad
  ones drop only their client, nothing but the store and the client itself changes.

  \<^bold>\<open>Library.\<close> \<open>RpcConnection\<close>, \<open>Libconfd\<close>, \<open>Libconfd_Spec\<close> (\<open>src/lib\<close>, \<open>lib/confd.h\<close>) with the locales
  \<open>rpc_peer\<close> and \<open>confd_client\<close>, interpreted in \<open>EndToEnd\<close> by the server. \<open>EndToEnd_Correct\<close>: a value that
  was set is what the next call reads, replies match requests, and what a refused update does to
  the session and, when the program has not set \<open>SIGPIPE\<close> aside, to the program.

  \<^bold>\<open>Process.\<close> \<open>Config\<close> (\<open>daemon/Config.cpp\<close>), \<open>Watchdog\<close>, \<open>Logging\<close>, \<open>Daemon\<close> (\<open>main.cpp\<close>, the listening socket and the
  loop of \<open>RpcServer.cpp\<close>) and their \<open>_Correct\<close> theories: reading the configuration returns and reads no
  file twice, an accepted configuration places the socket and the database as
  its last files say, a signal ends the process in order, the exit
  statuses by the step that fails. \<open>Util\<close>, \<open>Util_Correct\<close> (\<open>src/util/main.cpp\<close>): the utility end to end, and that a run gives
  back the descriptor of its connection. \<open>HexDump\<close>, \<open>HexDump_Correct\<close> (\<open>src/util/HexDump.h\<close>): the hex
  dump on a stream with its formatting state, against a reference.

  \<^bold>\<open>pl-common.\<close> \<open>Pl_Client\<close>, \<open>Pl_Client_Correct\<close> (\<open>Rpc/ClientBase.cpp\<close>) and \<open>Pl_EventLoop\<close> (\<open>EventLoop.cpp\<close>:
  the loops of a thread, which of them is current, on which a client made without a loop depends, and
  the life of the main loop up to a signal);
  its watchdog and log set-up are copies of confd's, shown to be the same in \<open>Watchdog\<close> and \<open>Logging\<close>.

  \<^bold>\<open>Driver.\<close> \<open>Srm_Msg\<close> (\<open>rproc_srm_core.h\<close>): messages as bytes with the two views of the union.
  \<open>Srm_Dev\<close> (\<open>rproc_srm_dev.c\<close>): a device, its probe, bind, unbind, remove and requests. \<open>Srm_Core\<close>
  (\<open>rproc_srm_core.c\<close>): preparing and unpreparing, the component master, messages. \<open>Srm_Spec\<close> states
  what a device owes the kernel and the locale \<open>switched_resource\<close>, interpreted for parent clocks and
  regulators; \<open>Srm_Probe\<close> the locale \<open>acquired_resource\<close>, interpreted for clocks, regulators and
  interrupts; \<open>Srm_Books\<close> joins the counts of a device into accounts that binding, unbinding and
  requests keep; \<open>Srm_Correct\<close> and \<open>Srm_Core_Correct\<close> the properties of a device and of the core.
  \<open>Srm_Session\<close> adds the accounts of the devices up to an invariant of the core (\<open>in_order\<close>), kept by every
  callback, and shows that a whole session leaves the kernel's counts as they were.
\<close>

text \<open>
  \<^bold>\<open>Bounds and fuel.\<close> \<open>Config_Read\<close> takes a bound on the nesting of includes; \<open>config_read_returns\<close>
  shows that any number above the number of files that parse is enough, since the check against
  reading a file twice cuts every longer chain. The main loop is a list of rounds, each of them the
  events of one dispatch; a list that ends while the loop is still to run has the outcome \<open>Blocks\<close>, and
  \<open>signal_ends_daemon\<close> shows that a signal makes it end. The loops of the driver count down the number
  of entries. A socket path is cut to 107 bytes, a length field wraps at 65536, the tags of packets at
  256: these bounds are properties of the code and are stated as such.

  \<^bold>\<open>Not modelled.\<close> What is written to the log and to the standard error; the watchdog stubs for
  other systems than Linux; \<open>confd_version_string\<close>, a constant of the build; the spurious interrupt handler
  of the driver and the \<open>remove\<close> of its rpmsg channel, which only write to the log; the reference
  counts of device tree nodes, and the tables by which the kernel finds the driver. The files
  \<open>rpc/serialize.cpp\<close> and \<open>rpc/deserialize.cpp\<close> are empty and \<open>lib/Connection.h\<close> is not used. The rest of the layer is build data: recipes, device trees,
  machine configuration, shell scripts. A request reaches the server whole, while libevent may read a long
  one in pieces; the rollback of an SQL transaction does not fail. Concurrency is not modelled: confd and pl-common run one
  loop per thread and share nothing, and the callbacks of the kernel are sequential lists of calls.
\<close>

end
